theory Spec2Isabelle
  imports Complex_Main "HOL-Library.Char_ord" "HOL-Library.List_Lexorder" "HOL-Library.Multiset"
begin

section \<open>JavaScript values\<close>

text \<open>
  Strings of the program are modelled as Isabelle strings: a \<^typ>\<open>char\<close> is one UTF-16 code
  unit in the range 0..255.  Strings holding a code unit above 255 are outside the type.
  The operations below follow ECMAScript on that range.
\<close>

definition code :: "char \<Rightarrow> nat" where
  "code c = of_char c"

definition is_digit :: "char \<Rightarrow> bool" where
  "is_digit c = (48 \<le> code c \<and> code c \<le> 57)"

definition is_upper :: "char \<Rightarrow> bool" where
  "is_upper c = (65 \<le> code c \<and> code c \<le> 90)"

definition is_lower :: "char \<Rightarrow> bool" where
  "is_lower c = (97 \<le> code c \<and> code c \<le> 122)"

definition is_alpha :: "char \<Rightarrow> bool" where
  "is_alpha c = (is_upper c \<or> is_lower c)"

text \<open>\<^verbatim>\<open>String.prototype.toLowerCase\<close>: A-Z and the Latin-1 capitals U+00C0..U+00DE
  (without the multiplication sign U+00D7) move up by 32.\<close>

definition lower_char :: "char \<Rightarrow> char" where
  "lower_char c =
     (if is_upper c \<or> (192 \<le> code c \<and> code c \<le> 222 \<and> code c \<noteq> 215)
      then char_of (code c + 32) else c)"

definition toLowerCase :: "string \<Rightarrow> string" where
  "toLowerCase s = map lower_char s"

text \<open>\<^verbatim>\<open>String.prototype.toUpperCase\<close>: a-z and U+00E0..U+00FE (without the division sign
  U+00F7) move down by 32, and U+00DF becomes \<^verbatim>\<open>SS\<close>.  The upper cases of U+00B5 and U+00FF
  lie above 255; these two code units are left as they are.\<close>

definition upper_char :: "char \<Rightarrow> string" where
  "upper_char c =
     (if is_lower c \<or> (224 \<le> code c \<and> code c \<le> 254 \<and> code c \<noteq> 247)
      then [char_of (code c - 32)]
      else if code c = 223 then ''SS'' else [c])"

definition toUpperCase :: "string \<Rightarrow> string" where
  "toUpperCase s = concat (map upper_char s)"

text \<open>\<^verbatim>\<open>String.prototype.includes\<close> and \<^verbatim>\<open>endsWith\<close>.\<close>

fun starts_with :: "string \<Rightarrow> string \<Rightarrow> bool" where
  "starts_with s [] = True"
| "starts_with [] (p # ps) = False"
| "starts_with (c # cs) (p # ps) = (c = p \<and> starts_with cs ps)"

fun str_includes :: "string \<Rightarrow> string \<Rightarrow> bool" where
  "str_includes [] p = (p = [])"
| "str_includes (c # cs) p = (starts_with (c # cs) p \<or> str_includes cs p)"

definition endsWith :: "string \<Rightarrow> string \<Rightarrow> bool" where
  "endsWith s p = starts_with (rev s) (rev p)"

text \<open>White space of \<^verbatim>\<open>String.prototype.trim\<close> below 256: TAB, LF, VT, FF, CR, space and
  the no-break space.\<close>

definition is_js_space :: "char \<Rightarrow> bool" where
  "is_js_space c = ((9 \<le> code c \<and> code c \<le> 13) \<or> code c = 32 \<or> code c = 160)"

definition trim :: "string \<Rightarrow> string" where
  "trim s = rev (dropWhile is_js_space (rev (dropWhile is_js_space s)))"

text \<open>The decimal numeral of a natural number, as \<^verbatim>\<open>String(i)\<close> prints an array index.\<close>

fun show_nat :: "nat \<Rightarrow> string" where
  "show_nat n =
     (if n < 10 then [char_of (48 + n)]
      else show_nat (n div 10) @ [char_of (48 + n mod 10)])"

declare show_nat.simps [simp del]

text \<open>
  A parsed JSON or YAML document.  An object is the list of its own properties in the
  order \<^verbatim>\<open>Object.entries\<close> enumerates them (the parser has already resolved repeated keys and
  placed integer-like keys first).  \<^verbatim>\<open>undefined\<close> is the \<open>None\<close> of \<^typ>\<open>'a option\<close>.
  Numbers are rationals; \<open>JNaN\<close> and \<open>JInfinity\<close> are the non-finite numbers a YAML document can
  hold.
\<close>

datatype json =
    JNull
  | JBool bool
  | JNum rat
  | JNaN
  | JInfinity bool
  | JStr string
  | JArr "json list"
  | JObj "(string \<times> json) list"

text \<open>\<^verbatim>\<open>Boolean(x)\<close>.\<close>

fun truthy :: "json option \<Rightarrow> bool" where
  "truthy None = False"
| "truthy (Some JNull) = False"
| "truthy (Some (JBool b)) = b"
| "truthy (Some (JNum n)) = (n \<noteq> 0)"
| "truthy (Some JNaN) = False"
| "truthy (Some (JInfinity s)) = True"
| "truthy (Some (JStr s)) = (s \<noteq> [])"
| "truthy (Some (JArr xs)) = True"
| "truthy (Some (JObj kvs)) = True"

text \<open>\<^verbatim>\<open>typeof x === 'object'\<close>: true of objects, arrays and \<^verbatim>\<open>null\<close>.\<close>

fun is_object :: "json option \<Rightarrow> bool" where
  "is_object (Some JNull) = True"
| "is_object (Some (JArr xs)) = True"
| "is_object (Some (JObj kvs)) = True"
| "is_object _ = False"

text \<open>\<^verbatim>\<open>x && typeof x === 'object'\<close>, the guard the reducer puts before every descent.\<close>

definition is_record :: "json option \<Rightarrow> bool" where
  "is_record x = (truthy x \<and> is_object x)"

text \<open>\<^verbatim>\<open>Object.entries\<close> of a value: the own enumerable string-keyed properties.\<close>

fun object_entries :: "json \<Rightarrow> (string \<times> json) list" where
  "object_entries (JObj kvs) = kvs"
| "object_entries (JArr xs) = zip (map show_nat [0..<length xs]) xs"
| "object_entries (JStr s) = zip (map show_nat [0..<length s]) (map (\<lambda>c. JStr [c]) s)"
| "object_entries _ = []"

text \<open>
  Property access \<^verbatim>\<open>x[k]\<close> on a value that is not \<^verbatim>\<open>null\<close> or \<^verbatim>\<open>undefined\<close>: an own property, an
  array's element or its \<^verbatim>\<open>length\<close>.  Properties inherited from the built-in prototypes are
  functions (or, for \<^verbatim>\<open>__proto__\<close>, an object without the fields read here); every use below
  treats such a value like \<^verbatim>\<open>undefined\<close>, so they read as \<open>None\<close>.
\<close>

fun get_prop :: "json \<Rightarrow> string \<Rightarrow> json option" where
  "get_prop (JObj kvs) k = map_of kvs k"
| "get_prop (JArr xs) k =
     (if k = ''length'' then Some (JNum (of_nat (length xs)))
      else map_of (zip (map show_nat [0..<length xs]) xs) k)"
| "get_prop (JStr s) k =
     (if k = ''length'' then Some (JNum (of_nat (length s)))
      else map_of (zip (map show_nat [0..<length s]) (map (\<lambda>c. JStr [c]) s)) k)"
| "get_prop _ k = None"

text \<open>Optional chaining \<^verbatim>\<open>x?.k\<close>.\<close>

fun opt_prop :: "json option \<Rightarrow> string \<Rightarrow> json option" where
  "opt_prop None k = None"
| "opt_prop (Some JNull) k = None"
| "opt_prop (Some x) k = get_prop x k"

text \<open>\<^verbatim>\<open>typeof x === 'string' ? x : undefined\<close>.\<close>

fun string_or_undefined :: "json option \<Rightarrow> string option" where
  "string_or_undefined (Some (JStr s)) = Some s"
| "string_or_undefined _ = None"

text \<open>\<^verbatim>\<open>Array.isArray(x) ? x : []\<close>.\<close>

fun array_or_empty :: "json option \<Rightarrow> json list" where
  "array_or_empty (Some (JArr xs)) = xs"
| "array_or_empty _ = []"

section \<open>The spec shape reducer (openapiShape.ts)\<close>

record ParameterSchema =
  ps_type :: "string option"
  ps_format :: "string option"
  ps_enum :: "string list option"
  ps_default :: "json option"

record ParameterShape =
  p_name :: string
  p_in :: string
  p_required :: bool
  p_schema :: ParameterSchema

record BodyFieldShape =
  f_name :: string
  f_required :: bool
  f_type :: "string option"

record RequestBodyShape =
  contentTypes :: "string list"
  body_fields :: "BodyFieldShape list option"
  rawSchema :: "json option"

datatype AuthHint =
    Bearer
  | ApiKey string

record OperationShape =
  op_key :: string
  op_method :: string
  op_path :: string
  summary :: "string option"
  description :: "string option"
  parameters :: "ParameterShape list"
  requestBody :: "RequestBodyShape option"
  authHint :: "AuthHint option"

record SpecShape =
  title :: "string option"
  version :: "string option"
  servers :: "string list"
  operations :: "OperationShape list"

text \<open>The callback of \<^verbatim>\<open>params.map\<close> in \<^verbatim>\<open>collectParameters\<close>; \<open>None\<close> is its \<^verbatim>\<open>null\<close>.\<close>

definition reduceParameter :: "json \<Rightarrow> ParameterShape option" where
  "reduceParameter p =
     (if \<not> is_record (Some p) then None
      else
        (case get_prop p ''in'' of
           Some (JStr loc) \<Rightarrow>
             if loc \<noteq> ''path'' \<and> loc \<noteq> ''query'' \<and> loc \<noteq> ''header'' then None
             else
               (let name = (case get_prop p ''name'' of Some (JStr n) \<Rightarrow> n | _ \<Rightarrow> [])
                in if name = [] then None
                   else
                     (let schema =
                            (case get_prop p ''schema'' of
                               Some s \<Rightarrow> if is_record (Some s) then s else JObj []
                             | None \<Rightarrow> JObj []);
                          enumVals =
                            (case get_prop schema ''enum'' of
                               Some (JArr es) \<Rightarrow>
                                 if list_all (\<lambda>x. string_or_undefined (Some x) \<noteq> None) es
                                 then Some (List.map_filter (\<lambda>x. string_or_undefined (Some x)) es)
                                 else None
                             | _ \<Rightarrow> None)
                      in Some \<lparr> p_name = name, p_in = loc,
                                p_required = (truthy (get_prop p ''required'') \<or> loc = ''path''),
                                p_schema =
                                  \<lparr> ps_type = string_or_undefined (get_prop schema ''type''),
                                    ps_format = string_or_undefined (get_prop schema ''format''),
                                    ps_enum = enumVals,
                                    ps_default = get_prop schema ''default'' \<rparr> \<rparr>))
         | _ \<Rightarrow> None))"

text \<open>\<^verbatim>\<open>collectParameters\<close>: the path item's array, then the operation's, pushed onto one
  list; then \<^verbatim>\<open>map\<close> and \<^verbatim>\<open>filter(Boolean)\<close>.\<close>

definition collectParameters :: "json option \<Rightarrow> json option \<Rightarrow> ParameterShape list" where
  "collectParameters pathItem oper =
     (let params = array_or_empty (opt_prop pathItem ''parameters'')
                   @ array_or_empty (opt_prop oper ''parameters'')
      in List.map_filter reduceParameter params)"

definition reduceObjectSchemaFields :: "json option \<Rightarrow> BodyFieldShape list option" where
  "reduceObjectSchemaFields schema =
     (if \<not> is_record schema then None
      else if opt_prop schema ''type'' \<noteq> Some (JStr ''object'') then None
      else
        (case opt_prop schema ''properties'' of
           None \<Rightarrow> None
         | Some props \<Rightarrow>
             if \<not> is_record (Some props) then None
             else
               (let requiredList = array_or_empty (opt_prop schema ''required'');
                    fs = map (\<lambda>(name, propSchema).
                               (let ps = (if is_record (Some propSchema) then propSchema else JObj [])
                                in \<lparr> f_name = name,
                                     f_required = (JStr name \<in> set requiredList),
                                     f_type = string_or_undefined (get_prop ps ''type'') \<rparr>))
                             (object_entries props)
                in if length fs = 0 then None
                   else if length fs > 50 then None
                   else Some fs)))"

definition reduceRequestBody :: "json option \<Rightarrow> RequestBodyShape option" where
  "reduceRequestBody rb =
     (if \<not> is_record rb then None
      else
        (let content = (case opt_prop rb ''content'' of
                          Some c \<Rightarrow> if is_record (Some c) then c else JObj []
                        | None \<Rightarrow> JObj []);
             cts = map fst (object_entries content)
         in if length cts = 0 then None
            else
              (let jsonType =
                     (if is_object (get_prop content ''application/json'')
                      then Some ''application/json''
                      else find (\<lambda>t. str_includes (toLowerCase t) ''json'') cts);
                   jsonContent =
                     (case jsonType of
                        None \<Rightarrow> None
                      | Some t \<Rightarrow> if t = [] then None else get_prop content t);
                   schema = opt_prop jsonContent ''schema''
               in (case reduceObjectSchemaFields schema of
                     Some fs \<Rightarrow>
                       Some \<lparr> contentTypes = cts, body_fields = Some fs, rawSchema = None \<rparr>
                   | None \<Rightarrow>
                       Some \<lparr> contentTypes = cts, body_fields = None, rawSchema = schema \<rparr>))))"

definition inferAuthHintFromScheme :: "json option \<Rightarrow> AuthHint option" where
  "inferAuthHintFromScheme scheme =
     (if \<not> is_record scheme then None
      else if opt_prop scheme ''type'' = Some (JStr ''http'')
              \<and> opt_prop scheme ''scheme'' = Some (JStr ''bearer'') then Some Bearer
      else if opt_prop scheme ''type'' = Some (JStr ''apiKey'')
              \<and> opt_prop scheme ''in'' = Some (JStr ''header'')
      then (case opt_prop scheme ''name'' of
              Some (JStr n) \<Rightarrow> Some (ApiKey n)
            | _ \<Rightarrow> None)
      else None)"

text \<open>The first hint a list of candidate schemes yields: the \<^verbatim>\<open>for\<close> loops that return at
  the first hit.\<close>

fun first_hint :: "json option list \<Rightarrow> AuthHint option" where
  "first_hint [] = None"
| "first_hint (s # ss) =
     (case inferAuthHintFromScheme s of
        Some h \<Rightarrow> Some h
      | None \<Rightarrow> first_hint ss)"

definition securitySchemes :: "json \<Rightarrow> json option" where
  "securitySchemes spec = opt_prop (opt_prop (Some spec) ''components'') ''securitySchemes''"

definition inferGlobalAuthHint :: "json \<Rightarrow> AuthHint option" where
  "inferGlobalAuthHint spec =
     (case securitySchemes spec of
        None \<Rightarrow> None
      | Some schemes \<Rightarrow>
          if \<not> is_record (Some schemes) then None
          else first_hint (map (\<lambda>(k, v). Some v) (object_entries schemes)))"

definition inferOpAuthHint :: "json \<Rightarrow> json option \<Rightarrow> AuthHint option" where
  "inferOpAuthHint spec oper =
     (case securitySchemes spec of
        None \<Rightarrow> None
      | Some schemes \<Rightarrow>
          if \<not> is_record (Some schemes) then None
          else
            (case opt_prop oper ''security'' of
               Some (JArr security) \<Rightarrow>
                 first_hint
                   (concat (map (\<lambda>entry.
                                   if \<not> is_record (Some entry) then []
                                   else map (\<lambda>(schemeName, v). get_prop schemes schemeName)
                                          (object_entries entry))
                                security))
             | _ \<Rightarrow> None))"

text \<open>
  \<^verbatim>\<open>Array.prototype.sort\<close> with a comparison function.  ECMAScript fixes the result only for
  a consistent comparator, and requires the sort to be stable; for such a comparator every
  stable sort returns the same list, here obtained by insertion.  An element moves in front of
  another one only if the comparator does not rank it after it.
\<close>

fun insert_by :: "('a \<Rightarrow> 'a \<Rightarrow> int) \<Rightarrow> 'a \<Rightarrow> 'a list \<Rightarrow> 'a list" where
  "insert_by cmp x [] = [x]"
| "insert_by cmp x (y # ys) =
     (if cmp x y \<le> 0 then x # y # ys else y # insert_by cmp x ys)"

definition array_sort :: "('a \<Rightarrow> 'a \<Rightarrow> int) \<Rightarrow> 'a list \<Rightarrow> 'a list" where
  "array_sort cmp xs = foldr (insert_by cmp) xs []"

definition http_methods :: "string list" where
  "http_methods = [''get'', ''post'', ''put'', ''patch'', ''delete'', ''options'', ''head'']"

text \<open>The body of the inner loop of \<^verbatim>\<open>reduceOpenApiSpec\<close> for one method key of one path
  item: nothing when the key is absent or falsy, else the operation pushed.\<close>

definition reduceOperation ::
  "json \<Rightarrow> AuthHint option \<Rightarrow> string \<Rightarrow> json \<Rightarrow> string \<Rightarrow> OperationShape list" where
  "reduceOperation spec globalHint path pathItem m =
     (let oper = get_prop pathItem m
      in if \<not> truthy oper then []
         else
           (let methodUpper = toUpperCase m
            in [\<lparr> op_key = methodUpper @ '' '' @ path,
                  op_method = methodUpper,
                  op_path = path,
                  summary = string_or_undefined (opt_prop oper ''summary''),
                  description = string_or_undefined (opt_prop oper ''description''),
                  parameters = collectParameters (Some pathItem) oper,
                  requestBody = reduceRequestBody (opt_prop oper ''requestBody''),
                  authHint = (case inferOpAuthHint spec oper of
                                Some h \<Rightarrow> Some h
                              | None \<Rightarrow> globalHint) \<rparr>]))"

text \<open>\<^verbatim>\<open>spec?.paths && typeof spec.paths === 'object' ? spec.paths : {}\<close>.\<close>

definition spec_paths :: "json \<Rightarrow> json" where
  "spec_paths spec =
     (case opt_prop (Some spec) ''paths'' of
        Some ps \<Rightarrow> if is_record (Some ps) then ps else JObj []
      | None \<Rightarrow> JObj [])"

text \<open>The operations in discovery order, before the sort.\<close>

definition discoverOperations :: "json \<Rightarrow> OperationShape list" where
  "discoverOperations spec =
     (let globalHint = inferGlobalAuthHint spec;
          paths = spec_paths spec
      in concat (map (\<lambda>(path, pathItem).
                        if \<not> is_record (Some pathItem) then []
                        else concat (map (reduceOperation spec globalHint path pathItem)
                                         http_methods))
                     (object_entries paths)))"

text \<open>
  \<^verbatim>\<open>reduceOpenApiSpec\<close>.  The comparison \<^verbatim>\<open>a.key.localeCompare(b.key)\<close> is the platform's
  locale-sensitive collation; it is the parameter \<open>localeCompare\<close>.
\<close>

definition reduceOpenApiSpec :: "(string \<Rightarrow> string \<Rightarrow> int) \<Rightarrow> json \<Rightarrow> SpecShape" where
  "reduceOpenApiSpec localeCompare spec =
     \<lparr> title = string_or_undefined (opt_prop (opt_prop (Some spec) ''info'') ''title''),
       version = string_or_undefined (opt_prop (opt_prop (Some spec) ''info'') ''version''),
       servers =
         (case opt_prop (Some spec) ''servers'' of
            Some (JArr ss) \<Rightarrow>
              List.map_filter
                (\<lambda>s. case string_or_undefined (opt_prop (Some s) ''url'') of
                       Some u \<Rightarrow> if u = [] then None else Some u
                     | None \<Rightarrow> None)
                ss
          | _ \<Rightarrow> []),
       operations =
         array_sort (\<lambda>a b. localeCompare (op_key a) (op_key b)) (discoverOperations spec) \<rparr>"

text \<open>The parameters one level (a path item, or an operation) contributes: the entries of its
  \<^verbatim>\<open>parameters\<close> array that the reducer keeps, in document order.\<close>

definition level_parameters :: "json option \<Rightarrow> ParameterShape list" where
  "level_parameters x =
     List.map_filter reduceParameter (array_or_empty (opt_prop x ''parameters''))"

section \<open>String comparison\<close>

text \<open>
  Ordinal comparison of strings (code unit by code unit, a proper prefix first) is the order
  \<open>\<le>\<close> of \<^typ>\<open>string\<close>: the lexicographic order of lists over the order of characters by their
  codes.
\<close>

definition ordinal_sorted :: "string list \<Rightarrow> bool" where
  "ordinal_sorted ks = sorted ks"

text \<open>
  What the theorems need of a comparison function: any two strings are ranked one way or the
  other, and the ranking is transitive.  Every consistent comparator of ECMAScript has both
  properties.
\<close>

definition consistent_comparator :: "(string \<Rightarrow> string \<Rightarrow> int) \<Rightarrow> bool" where
  "consistent_comparator cmp =
     ((\<forall>a b. cmp a b \<le> 0 \<or> cmp b a \<le> 0)
      \<and> (\<forall>a b c. cmp a b \<le> 0 \<longrightarrow> cmp b c \<le> 0 \<longrightarrow> cmp a c \<le> 0))"

text \<open>
  A model of \<^verbatim>\<open>String.prototype.localeCompare\<close> with no locale argument, on ASCII strings,
  after the root collation of CLDR (which the English locales use unchanged): control
  characters are ignored; white space, punctuation and symbols come in the order of
  \<open>collation_order\<close>, then the digits, then the letters; the case of a letter counts only
  between strings that are otherwise equal, the lower case first.  Code units above 127 are
  outside this model and are ranked after the letters.
\<close>

definition collation_order :: string where
  "collation_order =
     [char_of (9::nat), char_of (10::nat), char_of (11::nat), char_of (12::nat),
      char_of (13::nat), CHR '' '', CHR ''_'', CHR ''-'', CHR '','', CHR '';'', CHR '':'',
      CHR ''!'', CHR ''?'', CHR ''.'', CHR 0x27, CHR 0x22, CHR ''('', CHR '')'', CHR ''['',
      CHR '']'', CHR ''{'', CHR ''}'', CHR ''@'', CHR ''*'', CHR ''/'', CHR 0x5C, CHR ''&'',
      CHR ''#'', CHR ''%'', CHR 0x60, CHR ''^'', CHR ''+'', CHR ''<'', CHR ''='', CHR ''>'',
      CHR ''|'', CHR ''~'', CHR ''$'']"

fun index_of :: "'a \<Rightarrow> 'a list \<Rightarrow> nat" where
  "index_of x [] = 0"
| "index_of x (y # ys) = (if x = y then 0 else Suc (index_of x ys))"

definition collation_ignorable :: "char \<Rightarrow> bool" where
  "collation_ignorable c = (code c < 9 \<or> (14 \<le> code c \<and> code c < 32) \<or> code c = 127)"

definition primary_weight :: "char \<Rightarrow> nat" where
  "primary_weight c =
     (if is_digit c then 100 + (code c - 48)
      else if is_alpha c then 200 + (code (lower_char c) - 97)
      else if c \<in> set collation_order then index_of c collation_order
      else 300 + code c)"

definition tertiary_weight :: "char \<Rightarrow> nat" where
  "tertiary_weight c = (if is_upper c then 1 else 0)"

definition collation_key :: "string \<Rightarrow> nat list \<times> nat list" where
  "collation_key s =
     (let t = filter (\<lambda>c. \<not> collation_ignorable c) s
      in (map primary_weight t, map tertiary_weight t))"

definition localeCompare :: "string \<Rightarrow> string \<Rightarrow> int" where
  "localeCompare a b =
     (let ka = collation_key a; kb = collation_key b
      in if fst ka < fst kb \<or> (fst ka = fst kb \<and> snd ka < snd kb) then - 1
         else if ka = kb then 0
         else 1)"

section \<open>The spec shape cache (openapiShape.ts)\<close>

text \<open>An entry of \<^verbatim>\<open>memoryCache\<close>; the field \<^verbatim>\<open>value\<close> is \<open>entry_value\<close> here.  Times are
  milliseconds, as \<^verbatim>\<open>Date.now()\<close> returns them.\<close>

record CacheEntry =
  entry_value :: SpecShape
  expiresAt :: int

text \<open>What \<^verbatim>\<open>readCache\<close> hands back: the shape of a live entry of the process-local map, or
  the JSON body the edge cache holds (returned as it is, behind a type cast).\<close>

datatype cache_result =
    MemoryHit SpecShape
  | EdgeHit json

text \<open>
  The second tier.  \<open>edge\<close> is \<^verbatim>\<open>globalThis.caches?.default\<close>: \<open>None\<close> where the runtime has no
  edge cache, else the function \<^verbatim>\<open>cache.match\<close> computes at the moment of the call; its result
  is \<open>None\<close> for no hit, \<open>Some None\<close> for a hit whose body is not JSON.
\<close>

definition readEdge ::
  "(string \<Rightarrow> json option option) option \<Rightarrow> string \<Rightarrow> cache_result option" where
  "readEdge edge key =
     (case edge of
        None \<Rightarrow> None
      | Some cache \<Rightarrow>
          (case cache key of
             None \<Rightarrow> None
           | Some None \<Rightarrow> None
           | Some (Some j) \<Rightarrow> if \<not> truthy (Some j) then None else Some (EdgeHit j)))"

definition readCache ::
  "int \<Rightarrow> (string \<rightharpoonup> CacheEntry) \<Rightarrow> (string \<Rightarrow> json option option) option \<Rightarrow> string
   \<Rightarrow> cache_result option" where
  "readCache now memoryCache edge key =
     (case memoryCache key of
        Some mem \<Rightarrow>
          if expiresAt mem > now then Some (MemoryHit (entry_value mem))
          else readEdge edge key
      | None \<Rightarrow> readEdge edge key)"

text \<open>The \<^verbatim>\<open>cache.put\<close> of \<^verbatim>\<open>writeCache\<close>, made only where the edge cache exists.\<close>

record EdgePut =
  put_key :: string
  put_body :: SpecShape
  max_age :: int

definition writeCache ::
  "int \<Rightarrow> (string \<rightharpoonup> CacheEntry) \<Rightarrow> bool \<Rightarrow> string \<Rightarrow> SpecShape \<Rightarrow> int
   \<Rightarrow> (string \<rightharpoonup> CacheEntry) \<times> EdgePut option" where
  "writeCache now memoryCache hasEdge key v ttlSeconds =
     (memoryCache(key \<mapsto> \<lparr> entry_value = v, expiresAt = now + ttlSeconds * 1000 \<rparr>),
      if hasEdge then Some \<lparr> put_key = key, put_body = v, max_age = ttlSeconds \<rparr> else None)"

section \<open>URLs (the platform's \<^verbatim>\<open>URL\<close> class)\<close>

text \<open>
  \<^verbatim>\<open>new URL(input, base)\<close> is the basic URL parser of the WHATWG URL standard.  Its state
  machine is written out below as functions, one per state or group of states.  Three parts
  with large tables or sub-languages of their own are parameters of the model, collected in
  the record \<open>platform\<close> further down: the IDNA processing of a domain, the parser of IPv6
  literals and the parser of \<^verbatim>\<open>file:\<close> URLs.
\<close>

subsection \<open>Percent-encoding\<close>

definition hex_digit :: "nat \<Rightarrow> char" where
  "hex_digit n = (if n < 10 then char_of (48 + n) else char_of (55 + n))"

definition percent_byte :: "nat \<Rightarrow> string" where
  "percent_byte b = [CHR ''%'', hex_digit (b div 16), hex_digit (b mod 16)]"

text \<open>The UTF-8 bytes of one code unit (below 256, so one or two bytes).\<close>

definition utf8_bytes_of :: "char \<Rightarrow> nat list" where
  "utf8_bytes_of c =
     (if code c < 128 then [code c] else [192 + code c div 64, 128 + code c mod 64])"

definition utf8_encode :: "string \<Rightarrow> string" where
  "utf8_encode s = concat (map (\<lambda>c. map char_of (utf8_bytes_of c)) s)"

definition utf8_percent_encode :: "(char \<Rightarrow> bool) \<Rightarrow> char \<Rightarrow> string" where
  "utf8_percent_encode in_set c =
     (if in_set c then concat (map percent_byte (utf8_bytes_of c)) else [c])"

definition percent_encode_string :: "(char \<Rightarrow> bool) \<Rightarrow> string \<Rightarrow> string" where
  "percent_encode_string in_set s = concat (map (utf8_percent_encode in_set) s)"

definition c0_control_set :: "char \<Rightarrow> bool" where
  "c0_control_set c = (code c < 32 \<or> code c > 126)"

definition fragment_set :: "char \<Rightarrow> bool" where
  "fragment_set c = (c0_control_set c \<or> code c \<in> {32, 34, 60, 62, 96})"

definition query_set :: "char \<Rightarrow> bool" where
  "query_set c = (c0_control_set c \<or> code c \<in> {32, 34, 35, 60, 62})"

definition special_query_set :: "char \<Rightarrow> bool" where
  "special_query_set c = (query_set c \<or> code c = 39)"

definition path_set :: "char \<Rightarrow> bool" where
  "path_set c = (query_set c \<or> code c \<in> {63, 94, 96, 123, 125})"

definition userinfo_set :: "char \<Rightarrow> bool" where
  "userinfo_set c = (path_set c \<or> code c \<in> {47, 58, 59, 61, 64, 91, 92, 93, 124})"

definition component_set :: "char \<Rightarrow> bool" where
  "component_set c = (userinfo_set c \<or> code c \<in> {36, 37, 38, 43, 44})"

definition urlencoded_set :: "char \<Rightarrow> bool" where
  "urlencoded_set c = (component_set c \<or> code c \<in> {33, 39, 40, 41, 126})"

text \<open>\<^verbatim>\<open>encodeURIComponent\<close>: everything but the letters, the digits and
  \<^verbatim>\<open>- _ . ! ~ * ' ( )\<close> is replaced by the escapes of its UTF-8 bytes.  (It throws on a lone
  surrogate, a code unit the string type does not have.)\<close>

definition uri_unreserved :: "char \<Rightarrow> bool" where
  "uri_unreserved c =
     (is_alpha c \<or> is_digit c \<or> code c \<in> {45, 95, 46, 33, 126, 42, 39, 40, 41})"

definition encodeURIComponent :: "string \<Rightarrow> string" where
  "encodeURIComponent s = percent_encode_string (\<lambda>c. \<not> uri_unreserved c) s"

definition hex_value :: "char \<Rightarrow> nat option" where
  "hex_value c =
     (if is_digit c then Some (code c - 48)
      else if 65 \<le> code c \<and> code c \<le> 70 then Some (code c - 55)
      else if 97 \<le> code c \<and> code c \<le> 102 then Some (code c - 87)
      else None)"

text \<open>Percent-decoding of a byte sequence.\<close>

fun percent_decode :: "string \<Rightarrow> string" where
  "percent_decode (p # h1 # h2 # cs) =
     (if p = CHR ''%'' then
        (case (hex_value h1, hex_value h2) of
           (Some a, Some b) \<Rightarrow> char_of (16 * a + b) # percent_decode cs
         | _ \<Rightarrow> p # percent_decode (h1 # h2 # cs))
      else p # percent_decode (h1 # h2 # cs))"
| "percent_decode (c # cs) = c # percent_decode cs"
| "percent_decode [] = []"

subsection \<open>The URL record\<close>

text \<open>
  The components of a URL.  The host is kept in its serialized form (\<open>None\<close> is the null
  host); \<open>url_opaque\<close> holds the path of a URL with an opaque path, and \<open>url_path\<close> the segments
  of any other.
\<close>

record url =
  url_scheme :: string
  url_username :: string
  url_password :: string
  url_host :: "string option"
  url_port :: "int option"
  url_path :: "string list"
  url_opaque :: "string option"
  url_query :: "string option"
  url_fragment :: "string option"

text \<open>The parts of the platform the model takes as parameters.\<close>

record platform =
  domainToASCII :: "string \<Rightarrow> string option"
  parseIPv6 :: "string \<Rightarrow> string option"
  parseFileURL :: "string \<Rightarrow> url option \<Rightarrow> url option"
  utf8_decode :: "string \<Rightarrow> string"
  JSON_parse :: "string \<Rightarrow> json option"
  JSON_stringify :: "json \<Rightarrow> string"
  zod_url :: "string \<Rightarrow> bool"
  url_error_message :: string
  inheritedProperty :: "string \<Rightarrow> string option"

text \<open>
  \<^descr> \<open>domainToASCII\<close> is ``UTF-8 decode without BOM'' followed by ``domain to ASCII'' (UTS 46),
    on the percent-decoded bytes of a host; \<open>None\<close> is failure.
  \<^descr> \<open>parseIPv6\<close> parses the text between the brackets of an IPv6 literal and returns the
    serialized address (without brackets).
  \<^descr> \<open>parseFileURL\<close> is the file state of the parser and all that follows it, given what
    stands after \<^verbatim>\<open>file:\<close> (or the whole input when the scheme comes from the base); the
    scheme of its result is set to \<^verbatim>\<open>file\<close> by the model, as the file state does first.
  \<^descr> \<open>utf8_decode\<close> is ``UTF-8 decode without BOM'' with the result encoded in UTF-8 again:
    the identity on well-formed input.
  \<^descr> \<open>JSON_parse\<close> and \<open>JSON_stringify\<close> are \<^verbatim>\<open>JSON.parse\<close> (\<open>None\<close> where it throws a
    \<^verbatim>\<open>SyntaxError\<close>) and \<^verbatim>\<open>JSON.stringify\<close>.
  \<^descr> \<open>zod_url\<close> is the check of \<^verbatim>\<open>z.string().url()\<close>.
  \<^descr> \<open>url_error_message\<close> is the message of the \<^verbatim>\<open>TypeError\<close> that \<^verbatim>\<open>new URL\<close> throws.
  \<^descr> \<open>inheritedProperty\<close> gives, for a name that \<^verbatim>\<open>Object.prototype\<close> defines (\<^verbatim>\<open>constructor\<close>,
    \<^verbatim>\<open>toString\<close>, ...), the string \<^verbatim>\<open>String(({})[name])\<close>, and \<open>None\<close> for every other name.
\<close>

definition is_special :: "string \<Rightarrow> bool" where
  "is_special s = (s \<in> {''ftp'', ''file'', ''http'', ''https'', ''ws'', ''wss''})"

definition default_port :: "string \<Rightarrow> int option" where
  "default_port s =
     (if s = ''ftp'' then Some 21
      else if s = ''http'' \<or> s = ''ws'' then Some 80
      else if s = ''https'' \<or> s = ''wss'' then Some 443
      else None)"

subsection \<open>Hosts\<close>

text \<open>\<^verbatim>\<open>String.prototype.split\<close> with a separator of one character.\<close>

fun split_on :: "char \<Rightarrow> string \<Rightarrow> string list" where
  "split_on sep [] = [[]]"
| "split_on sep (c # cs) =
     (if c = sep then [] # split_on sep cs
      else (case split_on sep cs of
              p # ps \<Rightarrow> (c # p) # ps
            | [] \<Rightarrow> [[c]]))"

definition digit_value :: "nat \<Rightarrow> char \<Rightarrow> nat option" where
  "digit_value radix c =
     (case hex_value c of
        Some d \<Rightarrow> if d < radix then Some d else None
      | None \<Rightarrow> None)"

text \<open>The number a string of digits denotes in a radix; \<open>None\<close> when a character is not a
  digit of the radix.  Numbers read from the input are integers of any size.\<close>

fun radix_number :: "nat \<Rightarrow> int \<Rightarrow> string \<Rightarrow> int option" where
  "radix_number radix acc [] = Some acc"
| "radix_number radix acc (c # cs) =
     (case digit_value radix c of
        Some d \<Rightarrow> radix_number radix (acc * int radix + int d) cs
      | None \<Rightarrow> None)"

text \<open>The decimal numeral of a non-negative integer.\<close>

function show_dec :: "int \<Rightarrow> string" where
  "show_dec n =
     (if n < 10 then [char_of (nat (48 + n))]
      else show_dec (n div 10) @ [char_of (nat (48 + n mod 10))])"
  by pat_completeness auto
termination
  by (relation "measure nat") auto

declare show_dec.simps [simp del]

text \<open>The IPv4 number parser: decimal, \<^verbatim>\<open>0x\<close> hexadecimal or \<^verbatim>\<open>0\<close> octal.\<close>

definition ipv4_number :: "string \<Rightarrow> int option" where
  "ipv4_number s =
     (if s = [] then None
      else if length s \<ge> 2 \<and> (starts_with s ''0x'' \<or> starts_with s ''0X'')
      then radix_number 16 0 (drop 2 s)
      else if length s \<ge> 2 \<and> starts_with s ''0'' then radix_number 8 0 (drop 1 s)
      else radix_number 10 0 s)"

definition ends_in_a_number :: "string \<Rightarrow> bool" where
  "ends_in_a_number s =
     (let parts = split_on CHR ''.'' s;
          parts' = (if last parts = [] then butlast parts else parts)
      in if parts' = [] then False
         else
           (let l = last parts'
            in (l \<noteq> [] \<and> list_all is_digit l) \<or> ipv4_number l \<noteq> None))"

definition ipv4_serialize :: "int \<Rightarrow> string" where
  "ipv4_serialize n =
     show_dec (n div 16777216 mod 256) @ ''.'' @ show_dec (n div 65536 mod 256) @ ''.''
       @ show_dec (n div 256 mod 256) @ ''.'' @ show_dec (n mod 256)"

text \<open>The IPv4 parser, with the serializer applied to its result.\<close>

definition ipv4_parse :: "string \<Rightarrow> string option" where
  "ipv4_parse s =
     (let parts = split_on CHR ''.'' s;
          parts' = (if last parts = [] \<and> length parts > 1 then butlast parts else parts)
      in if length parts' > 4 then None
         else
           (let numbers = map ipv4_number parts'
            in if None \<in> set numbers then None
               else
                 (let ns = map the numbers
                  in if list_ex (\<lambda>n. n > 255) (butlast ns) then None
                     else if last ns \<ge> 256 ^ (5 - length ns) then None
                     else Some (ipv4_serialize
                                 (last ns
                                  + sum_list (map (\<lambda>(i, n). n * 256 ^ (3 - i))
                                               (zip [0..<length ns - 1] (butlast ns))))))))"

definition forbidden_host_code_point :: "char \<Rightarrow> bool" where
  "forbidden_host_code_point c =
     (code c \<in> {0, 9, 10, 13, 32, 35, 47, 58, 60, 62, 63, 64, 91, 92, 93, 94, 124})"

definition forbidden_domain_code_point :: "char \<Rightarrow> bool" where
  "forbidden_domain_code_point c =
     (forbidden_host_code_point c \<or> code c \<le> 31 \<or> code c = 37 \<or> code c = 127)"

text \<open>The host parser; the result is the serialized host.\<close>

definition host_parse :: "platform \<Rightarrow> bool \<Rightarrow> string \<Rightarrow> string option" where
  "host_parse P isOpaque input =
     (if starts_with input ''['' then
        (if \<not> endsWith input '']'' then None
         else (case parseIPv6 P (butlast (tl input)) of
                 None \<Rightarrow> None
               | Some a \<Rightarrow> Some (''['' @ a @ '']'')))
      else if isOpaque then
        (if list_ex forbidden_host_code_point input then None
         else Some (percent_encode_string c0_control_set input))
      else
        (case domainToASCII P (percent_decode (utf8_encode input)) of
           None \<Rightarrow> None
         | Some asciiDomain \<Rightarrow>
             if asciiDomain = [] then None
             else if list_ex forbidden_domain_code_point asciiDomain then None
             else if ends_in_a_number asciiDomain then ipv4_parse asciiDomain
             else Some asciiDomain))"

subsection \<open>The basic URL parser\<close>

definition is_c0_or_space :: "char \<Rightarrow> bool" where
  "is_c0_or_space c = (code c \<le> 32)"

text \<open>Leading and trailing C0 controls and spaces are removed, then every tab and newline.\<close>

definition strip_c0_space :: "string \<Rightarrow> string" where
  "strip_c0_space s = rev (dropWhile is_c0_or_space (rev (dropWhile is_c0_or_space s)))"

definition remove_tab_newline :: "string \<Rightarrow> string" where
  "remove_tab_newline s = filter (\<lambda>c. code c \<notin> {9, 10, 13}) s"

definition url_preprocess :: "string \<Rightarrow> string" where
  "url_preprocess s = remove_tab_newline (strip_c0_space s)"

definition is_scheme_char :: "char \<Rightarrow> bool" where
  "is_scheme_char c = (is_alpha c \<or> is_digit c \<or> code c \<in> {43, 45, 46})"

text \<open>Scheme start state and scheme state: a letter, then letters, digits, \<^verbatim>\<open>+ - .\<close>, then a
  colon.  The result is the scheme in lower case and what follows the colon; \<open>None\<close> sends the
  parser to the no scheme state.\<close>

definition split_scheme :: "string \<Rightarrow> (string \<times> string) option" where
  "split_scheme s =
     (case s of
        [] \<Rightarrow> None
      | c # cs \<Rightarrow>
          if \<not> is_alpha c then None
          else
            (case dropWhile is_scheme_char s of
               [] \<Rightarrow> None
             | d # rest \<Rightarrow>
                 if d = CHR '':'' then Some (toLowerCase (takeWhile is_scheme_char s), rest)
                 else None))"

definition fresh_url :: "string \<Rightarrow> url" where
  "fresh_url s =
     \<lparr> url_scheme = s, url_username = [], url_password = [], url_host = None,
       url_port = None, url_path = [], url_opaque = None, url_query = None,
       url_fragment = None \<rparr>"

definition is_slash :: "char \<Rightarrow> bool" where
  "is_slash c = (c = CHR ''/'' \<or> c = CHR 0x5C)"

definition is_single_dot :: "string \<Rightarrow> bool" where
  "is_single_dot b = (b = ''.'' \<or> toLowerCase b = ''%2e'')"

definition is_double_dot :: "string \<Rightarrow> bool" where
  "is_double_dot b =
     (b = ''..'' \<or> toLowerCase b = ''.%2e'' \<or> toLowerCase b = ''%2e.''
      \<or> toLowerCase b = ''%2e%2e'')"

text \<open>Shortening a path (of a URL that is not a \<^verbatim>\<open>file:\<close> URL) removes its last segment.\<close>

definition shorten_path :: "string list \<Rightarrow> string list" where
  "shorten_path p = butlast p"

text \<open>What the path state does with a finished segment; \<open>slash\<close> tells whether a slash
  ended it.\<close>

definition finish_segment :: "string list \<Rightarrow> string \<Rightarrow> bool \<Rightarrow> string list" where
  "finish_segment p buf slash =
     (if is_double_dot buf then (if slash then shorten_path p else shorten_path p @ [[]])
      else if is_single_dot buf then (if slash then p else p @ [[]])
      else p @ [buf])"

text \<open>The path state: the path so far, the buffer, the input.  It stops at \<^verbatim>\<open>?\<close>, \<^verbatim>\<open>#\<close> or
  the end and returns the path with what is left of the input.\<close>

fun path_state :: "bool \<Rightarrow> string list \<Rightarrow> string \<Rightarrow> string \<Rightarrow> string list \<times> string" where
  "path_state special p buf [] = (finish_segment p buf False, [])"
| "path_state special p buf (c # cs) =
     (if c = CHR ''/'' \<or> (special \<and> c = CHR 0x5C)
      then path_state special (finish_segment p buf True) [] cs
      else if c = CHR ''?'' \<or> c = CHR ''#'' then (finish_segment p buf False, c # cs)
      else path_state special p (buf @ utf8_percent_encode path_set c) cs)"

text \<open>Query state and fragment state, from an input that starts with \<^verbatim>\<open>?\<close> or \<^verbatim>\<open>#\<close> or is
  empty.\<close>

definition tail_state :: "bool \<Rightarrow> url \<Rightarrow> string \<Rightarrow> url" where
  "tail_state special u r =
     (case r of
        [] \<Rightarrow> u
      | c # cs \<Rightarrow>
          if c = CHR ''?'' then
            (let q = takeWhile (\<lambda>x. x \<noteq> CHR ''#'') cs;
                 f = dropWhile (\<lambda>x. x \<noteq> CHR ''#'') cs;
                 u' = u \<lparr> url_query :=
                            Some (percent_encode_string
                                    (if special then special_query_set else query_set) q) \<rparr>
             in (case f of
                   [] \<Rightarrow> u'
                 | h # fs \<Rightarrow> u' \<lparr> url_fragment := Some (percent_encode_string fragment_set fs) \<rparr>))
          else u \<lparr> url_fragment := Some (percent_encode_string fragment_set cs) \<rparr>)"

text \<open>The path state entered with an empty path, followed by query and fragment.\<close>

definition path_and_tail :: "bool \<Rightarrow> url \<Rightarrow> string list \<Rightarrow> string \<Rightarrow> url" where
  "path_and_tail special u p0 r =
     (case path_state special p0 [] r of
        (p, rest) \<Rightarrow> tail_state special (u \<lparr> url_path := p \<rparr>) rest)"

definition path_start_state :: "bool \<Rightarrow> url \<Rightarrow> string \<Rightarrow> url" where
  "path_start_state special u r =
     (if special then
        (case r of
           [] \<Rightarrow> path_and_tail True u [] []
         | c # cs \<Rightarrow> if is_slash c then path_and_tail True u [] cs else path_and_tail True u [] r)
      else
        (case r of
           [] \<Rightarrow> u
         | c # cs \<Rightarrow>
             if c = CHR ''?'' \<or> c = CHR ''#'' then tail_state False u r
             else if c = CHR ''/'' then path_and_tail False u [] cs
             else path_and_tail False u [] r))"

definition is_authority_end :: "bool \<Rightarrow> char \<Rightarrow> bool" where
  "is_authority_end special c =
     (c = CHR ''/'' \<or> c = CHR ''?'' \<or> c = CHR ''#'' \<or> (special \<and> c = CHR 0x5C))"

text \<open>The position of the last \<^verbatim>\<open>@\<close>: what stands before it and what stands after it.\<close>

fun split_last_at :: "string \<Rightarrow> (string \<times> string) option" where
  "split_last_at [] = None"
| "split_last_at (c # cs) =
     (case split_last_at cs of
        Some (a, b) \<Rightarrow> Some (c # a, b)
      | None \<Rightarrow> if c = CHR ''@'' then Some ([], cs) else None)"

text \<open>The first colon outside square brackets, as the host state finds it.\<close>

fun split_port :: "bool \<Rightarrow> string \<Rightarrow> (string \<times> string) option" where
  "split_port inside [] = None"
| "split_port inside (c # cs) =
     (if c = CHR '':'' \<and> \<not> inside then Some ([], cs)
      else
        (case split_port (if c = CHR ''['' then True else if c = CHR '']'' then False else inside) cs of
           Some (h, p) \<Rightarrow> Some (c # h, p)
         | None \<Rightarrow> None))"

text \<open>The port state on the text after the colon: digits only; a number above 65535 is a
  failure; the default port of the scheme is stored as null.  The outer \<open>None\<close> is failure.\<close>

definition port_state :: "string \<Rightarrow> string \<Rightarrow> int option option" where
  "port_state scheme p =
     (if \<not> list_all is_digit p then None
      else if p = [] then Some None
      else
        (case radix_number 10 0 p of
           None \<Rightarrow> None
         | Some n \<Rightarrow>
             if n > 65535 then None
             else if default_port scheme = Some n then Some None
             else Some (Some n)))"

text \<open>Authority state, host state and port state, then the path start state.  The input
  stands after the slashes that introduce the authority.\<close>

definition authority_state :: "platform \<Rightarrow> string \<Rightarrow> string \<Rightarrow> url option" where
  "authority_state P scheme input =
     (let special = is_special scheme;
          seg = takeWhile (\<lambda>c. \<not> is_authority_end special c) input;
          rest = dropWhile (\<lambda>c. \<not> is_authority_end special c) input;
          cred = (case split_last_at seg of Some (a, b) \<Rightarrow> Some a | None \<Rightarrow> None);
          hostport = (case split_last_at seg of Some (a, b) \<Rightarrow> b | None \<Rightarrow> seg);
          u = (case cred of
                 None \<Rightarrow> fresh_url scheme
               | Some a \<Rightarrow>
                   (fresh_url scheme)
                     \<lparr> url_username :=
                         percent_encode_string userinfo_set (takeWhile (\<lambda>c. c \<noteq> CHR '':'') a),
                       url_password :=
                         percent_encode_string userinfo_set
                           (drop 1 (dropWhile (\<lambda>c. c \<noteq> CHR '':'') a)) \<rparr>)
      in if cred \<noteq> None \<and> hostport = [] then None
         else
           (case split_port False hostport of
              Some (h, p) \<Rightarrow>
                if h = [] then None
                else
                  (case host_parse P (\<not> special) h of
                     None \<Rightarrow> None
                   | Some host \<Rightarrow>
                       (case port_state scheme p of
                          None \<Rightarrow> None
                        | Some port \<Rightarrow>
                            Some (path_start_state special
                                    (u \<lparr> url_host := Some host, url_port := port \<rparr>) rest)))
            | None \<Rightarrow>
                if special \<and> hostport = [] then None
                else
                  (case host_parse P (\<not> special) hostport of
                     None \<Rightarrow> None
                   | Some host \<Rightarrow>
                       Some (path_start_state special (u \<lparr> url_host := Some host \<rparr>) rest))))"

text \<open>Relative slash state, for a base that is not a \<^verbatim>\<open>file:\<close> URL; the input stands after
  the first slash.\<close>

definition relative_slash_state :: "platform \<Rightarrow> string \<Rightarrow> url \<Rightarrow> url option" where
  "relative_slash_state P r b =
     (let special = is_special (url_scheme b)
      in (case r of
            [] \<Rightarrow>
              Some (path_and_tail special (b \<lparr> url_query := None, url_fragment := None \<rparr>) [] r)
          | c # cs \<Rightarrow>
              if special \<and> is_slash c then
                authority_state P (url_scheme b) (dropWhile is_slash cs)
              else if c = CHR ''/'' then authority_state P (url_scheme b) cs
              else
                Some (path_and_tail special
                        (b \<lparr> url_query := None, url_fragment := None \<rparr>) [] r)))"

text \<open>Relative state, for a base with a list path that is not a \<^verbatim>\<open>file:\<close> URL.\<close>

definition relative_state :: "platform \<Rightarrow> string \<Rightarrow> url \<Rightarrow> url option" where
  "relative_state P s b =
     (let special = is_special (url_scheme b)
      in (case s of
            [] \<Rightarrow> Some (b \<lparr> url_fragment := None \<rparr>)
          | c # cs \<Rightarrow>
              if c = CHR ''/'' \<or> (special \<and> c = CHR 0x5C) then relative_slash_state P cs b
              else if c = CHR ''?'' \<or> c = CHR ''#'' then
                Some (tail_state special (b \<lparr> url_fragment := None \<rparr>) s)
              else
                Some (path_and_tail special
                        (b \<lparr> url_query := None, url_fragment := None \<rparr>)
                        (shorten_path (url_path b)) s)))"

text \<open>The file state: it sets the scheme, the platform does the rest.\<close>

definition file_state :: "platform \<Rightarrow> string \<Rightarrow> url option \<Rightarrow> url option" where
  "file_state P r base =
     (case parseFileURL P r base of
        None \<Rightarrow> None
      | Some u \<Rightarrow> Some (u \<lparr> url_scheme := ''file'' \<rparr>))"

definition no_scheme_state :: "platform \<Rightarrow> string \<Rightarrow> url option \<Rightarrow> url option" where
  "no_scheme_state P s base =
     (case base of
        None \<Rightarrow> None
      | Some b \<Rightarrow>
          if url_opaque b \<noteq> None then
            (case s of
               [] \<Rightarrow> None
             | c # cs \<Rightarrow>
                 if c = CHR ''#'' then
                   Some ((fresh_url (url_scheme b))
                           \<lparr> url_opaque := url_opaque b, url_query := url_query b,
                             url_fragment := Some (percent_encode_string fragment_set cs) \<rparr>)
                 else None)
          else if url_scheme b \<noteq> ''file'' then relative_state P s b
          else file_state P s base)"

definition opaque_path_state :: "string \<Rightarrow> string \<Rightarrow> url" where
  "opaque_path_state scheme r =
     tail_state False
       ((fresh_url scheme)
          \<lparr> url_opaque :=
              Some (percent_encode_string c0_control_set
                      (takeWhile (\<lambda>c. c \<noteq> CHR ''?'' \<and> c \<noteq> CHR ''#'') r)) \<rparr>)
       (dropWhile (\<lambda>c. c \<noteq> CHR ''?'' \<and> c \<noteq> CHR ''#'') r)"

text \<open>The parser: \<^verbatim>\<open>new URL(input)\<close> is \<open>url_parse P input None\<close> and \<^verbatim>\<open>new URL(input, base)\<close>
  is \<open>url_parse P input (Some base)\<close>; \<open>None\<close> is the \<^verbatim>\<open>TypeError\<close>.\<close>

definition url_parse :: "platform \<Rightarrow> string \<Rightarrow> url option \<Rightarrow> url option" where
  "url_parse P input base =
     (let s = url_preprocess input
      in (case split_scheme s of
            None \<Rightarrow> no_scheme_state P s base
          | Some (scheme, rest) \<Rightarrow>
              if scheme = ''file'' then file_state P rest base
              else if is_special scheme then
                (case base of
                   None \<Rightarrow> authority_state P scheme (dropWhile is_slash rest)
                 | Some b \<Rightarrow>
                     if url_scheme b = scheme then
                       (if starts_with rest ''//''
                        then authority_state P scheme (dropWhile is_slash rest)
                        else relative_state P rest b)
                     else authority_state P scheme (dropWhile is_slash rest))
              else
                (case rest of
                   [] \<Rightarrow> Some (opaque_path_state scheme rest)
                 | c # cs \<Rightarrow>
                     if c \<noteq> CHR ''/'' then Some (opaque_path_state scheme rest)
                     else
                       (case cs of
                          [] \<Rightarrow> Some (path_and_tail False (fresh_url scheme) [] cs)
                        | d # ds \<Rightarrow>
                            if d = CHR ''/'' then authority_state P scheme ds
                            else Some (path_and_tail False (fresh_url scheme) [] cs)))))"

subsection \<open>Getters and the serializer\<close>

definition protocol :: "url \<Rightarrow> string" where
  "protocol u = url_scheme u @ '':''"

definition hostname :: "url \<Rightarrow> string" where
  "hostname u = (case url_host u of None \<Rightarrow> [] | Some h \<Rightarrow> h)"

definition host_and_port :: "url \<Rightarrow> string" where
  "host_and_port u =
     hostname u @ (case url_port u of None \<Rightarrow> [] | Some p \<Rightarrow> '':'' @ show_dec p)"

definition href :: "url \<Rightarrow> string" where
  "href u =
     url_scheme u @ '':''
     @ (case url_host u of
          None \<Rightarrow>
            (if url_opaque u = None \<and> length (url_path u) > 1 \<and> hd (url_path u) = []
             then ''/.'' else [])
        | Some h \<Rightarrow>
            ''//''
            @ (if url_username u \<noteq> [] \<or> url_password u \<noteq> []
               then url_username u
                    @ (if url_password u \<noteq> [] then '':'' @ url_password u else []) @ ''@''
               else [])
            @ host_and_port u)
     @ (case url_opaque u of
          Some p \<Rightarrow> p
        | None \<Rightarrow> concat (map (\<lambda>seg. ''/'' @ seg) (url_path u)))
     @ (case url_query u of None \<Rightarrow> [] | Some q \<Rightarrow> ''?'' @ q)
     @ (case url_fragment u of None \<Rightarrow> [] | Some f \<Rightarrow> ''#'' @ f)"

text \<open>\<^verbatim>\<open>url.origin\<close> for the schemes with a tuple origin; the relay reads it only of an
  \<^verbatim>\<open>http:\<close> or \<^verbatim>\<open>https:\<close> URL.\<close>

definition origin :: "url \<Rightarrow> string" where
  "origin u =
     (if url_scheme u \<in> {''ftp'', ''http'', ''https'', ''ws'', ''wss''}
      then url_scheme u @ ''://'' @ host_and_port u
      else ''null'')"

section \<open>The relay (routes/index.tsx)\<close>

subsection \<open>\<^verbatim>\<open>URLSearchParams\<close>\<close>

text \<open>
  The list of a \<^verbatim>\<open>URLSearchParams\<close> object holds names and values as sequences of UTF-8
  bytes.  The parser of \<^verbatim>\<open>application/x-www-form-urlencoded\<close> splits the query at \<^verbatim>\<open>&\<close>,
  each non-empty piece at its first \<^verbatim>\<open>=\<close>, turns \<^verbatim>\<open>+\<close> into a space, and percent-decodes.
\<close>

definition plus_to_space :: "string \<Rightarrow> string" where
  "plus_to_space s = map (\<lambda>c. if c = CHR ''+'' then CHR '' '' else c) s"

definition urlencoded_parse :: "platform \<Rightarrow> string \<Rightarrow> (string \<times> string) list" where
  "urlencoded_parse P q =
     map (\<lambda>piece.
            (utf8_decode P (percent_decode (plus_to_space (takeWhile (\<lambda>c. c \<noteq> CHR ''='') piece))),
             utf8_decode P (percent_decode
                              (plus_to_space (drop 1 (dropWhile (\<lambda>c. c \<noteq> CHR ''='') piece))))))
         (filter (\<lambda>piece. piece \<noteq> []) (split_on CHR ''&'' (utf8_encode q)))"

text \<open>The serializer: a space becomes \<^verbatim>\<open>+\<close>, every other byte outside the letters, the
  digits and \<^verbatim>\<open>* - . _\<close> its escape.\<close>

definition urlencoded_byte :: "char \<Rightarrow> string" where
  "urlencoded_byte c =
     (if c = CHR '' '' then ''+''
      else if urlencoded_set c then percent_byte (code c)
      else [c])"

definition urlencoded_string :: "string \<Rightarrow> string" where
  "urlencoded_string s = concat (map urlencoded_byte s)"

fun urlencoded_serialize :: "(string \<times> string) list \<Rightarrow> string" where
  "urlencoded_serialize [] = []"
| "urlencoded_serialize [(n, v)] = urlencoded_string n @ ''='' @ urlencoded_string v"
| "urlencoded_serialize ((n, v) # rest) =
     urlencoded_string n @ ''='' @ urlencoded_string v @ ''&'' @ urlencoded_serialize rest"

text \<open>\<^verbatim>\<open>URLSearchParams.prototype.set\<close> on the list: the first pair of that name gets the
  value and the later ones go; without such a pair the new one is appended.\<close>

definition params_set :: "string \<Rightarrow> string \<Rightarrow> (string \<times> string) list \<Rightarrow> (string \<times> string) list" where
  "params_set n v l =
     (if n \<in> set (map fst l)
      then takeWhile (\<lambda>p. fst p \<noteq> n) l @ [(n, v)]
           @ filter (\<lambda>p. fst p \<noteq> n) (drop 1 (dropWhile (\<lambda>p. fst p \<noteq> n) l))
      else l @ [(n, v)])"

text \<open>The list of \<^verbatim>\<open>url.searchParams\<close>, and the query after the update steps.\<close>

definition searchParams :: "platform \<Rightarrow> url \<Rightarrow> (string \<times> string) list" where
  "searchParams P u = urlencoded_parse P (case url_query u of None \<Rightarrow> [] | Some q \<Rightarrow> q)"

definition update_query :: "(string \<times> string) list \<Rightarrow> url \<Rightarrow> url" where
  "update_query l u =
     u \<lparr> url_query := (if urlencoded_serialize l = [] then None
                        else Some (urlencoded_serialize l)) \<rparr>"

subsection \<open>The request\<close>

text \<open>
  A relay request as \<^verbatim>\<open>relayRequestSchema\<close> types it, the three maps with their defaults filled
  in.  A map is the list of its own entries in the order of \<^verbatim>\<open>Object.entries\<close>; the keys of
  one map are distinct.  The field \<^verbatim>\<open>method\<close> is \<open>req_method\<close> here.
\<close>

record RelayRequest =
  req_baseUrl :: string
  req_method :: string
  req_path :: string
  req_pathParams :: "(string \<times> string) list"
  req_queryParams :: "(string \<times> string) list"
  req_headers :: "(string \<times> string) list"
  req_contentType :: "string option"
  req_body :: "string option"

text \<open>\<^verbatim>\<open>relayRequestSchema.safeParse\<close> on a value of the right field types.\<close>

definition relayRequestSchema :: "platform \<Rightarrow> RelayRequest \<Rightarrow> bool" where
  "relayRequestSchema P r = (zod_url P (req_baseUrl r) \<and> req_method r \<noteq> [] \<and> req_path r \<noteq> [])"

subsection \<open>\<^verbatim>\<open>buildTargetUrl\<close>\<close>

text \<open>
  \<^verbatim>\<open>input.path.replace(/\{([^}]+)\}/g, f)\<close>: at an opening brace the pattern takes the longest
  run of characters other than a closing brace, which must not be empty and must be followed
  by a closing brace; the match is replaced by \<open>f\<close> of the run and the scan goes on behind it.
\<close>

function replace_tokens :: "(string \<Rightarrow> string) \<Rightarrow> string \<Rightarrow> string" where
  "replace_tokens f [] = []"
| "replace_tokens f (c # cs) =
     (if c = CHR ''{''
         \<and> takeWhile (\<lambda>x. x \<noteq> CHR ''}'') cs \<noteq> []
         \<and> dropWhile (\<lambda>x. x \<noteq> CHR ''}'') cs \<noteq> []
      then f (takeWhile (\<lambda>x. x \<noteq> CHR ''}'') cs)
           @ replace_tokens f (drop 1 (dropWhile (\<lambda>x. x \<noteq> CHR ''}'') cs))
      else c # replace_tokens f cs)"
  by pat_completeness auto
termination
  by (relation "measure (\<lambda>(f, s). length s)")
     (auto intro: le_imp_less_Suc order_trans [OF diff_le_self length_dropWhile_le])

text \<open>
  \<^verbatim>\<open>input.pathParams?.[name] ?? ''\<close>, with the argument converted to a string as
  \<^verbatim>\<open>encodeURIComponent\<close> does.  The map is a plain object: a name it does not hold is looked up
  in \<^verbatim>\<open>Object.prototype\<close>, and only a name that is not found there either gives \<^verbatim>\<open>undefined\<close>
  and so the empty string.
\<close>

definition path_param :: "platform \<Rightarrow> RelayRequest \<Rightarrow> string \<Rightarrow> string" where
  "path_param P input name =
     (case map_of (req_pathParams input) name of
        Some v \<Rightarrow> v
      | None \<Rightarrow> (case inheritedProperty P name of Some s \<Rightarrow> s | None \<Rightarrow> []))"

definition pathWithParams :: "platform \<Rightarrow> RelayRequest \<Rightarrow> string" where
  "pathWithParams P input =
     replace_tokens (\<lambda>name. encodeURIComponent (path_param P input name)) (req_path input)"

text \<open>The loop over \<^verbatim>\<open>Object.entries(input.queryParams)\<close>: the list of the search
  parameters after all the \<^verbatim>\<open>set\<close> calls.\<close>

definition set_all :: "(string \<times> string) list \<Rightarrow> (string \<times> string) list \<Rightarrow> (string \<times> string) list" where
  "set_all qs l = fold (\<lambda>(k, v) acc. params_set (utf8_encode k) (utf8_encode v) acc) qs l"

definition apply_queryParams :: "platform \<Rightarrow> (string \<times> string) list \<Rightarrow> url \<Rightarrow> url" where
  "apply_queryParams P qs u =
     (if qs = [] then u else update_query (set_all qs (searchParams P u)) u)"

text \<open>\<^verbatim>\<open>buildTargetUrl\<close>; \<open>None\<close> is the \<^verbatim>\<open>TypeError\<close> of either \<^verbatim>\<open>new URL\<close>.\<close>

definition buildTargetUrl :: "platform \<Rightarrow> RelayRequest \<Rightarrow> url option" where
  "buildTargetUrl P input =
     (case url_parse P (req_baseUrl input) None of
        None \<Rightarrow> None
      | Some base \<Rightarrow>
          (case url_parse P (pathWithParams P input) (Some base) of
             None \<Rightarrow> None
           | Some u \<Rightarrow> Some (apply_queryParams P (req_queryParams input) u)))"

subsection \<open>\<^verbatim>\<open>isSafeTarget\<close>\<close>

text \<open>The test of \<^verbatim>\<open>/^\d+\.\d+\.\d+\.\d+$/\<close>: a non-empty run of digits, three times followed
  by a dot and another non-empty run of digits, then the end of the string.\<close>

definition digits_then :: "(string \<Rightarrow> bool) \<Rightarrow> string \<Rightarrow> bool" where
  "digits_then k s = (takeWhile is_digit s \<noteq> [] \<and> k (dropWhile is_digit s))"

definition dot_then :: "(string \<Rightarrow> bool) \<Rightarrow> string \<Rightarrow> bool" where
  "dot_then k s = (case s of [] \<Rightarrow> False | c # cs \<Rightarrow> c = CHR ''.'' \<and> k cs)"

definition test_dotted_quad :: "string \<Rightarrow> bool" where
  "test_dotted_quad s =
     digits_then (dot_then (digits_then (dot_then (digits_then (dot_then
       (digits_then (\<lambda>r. r = []))))))) s"

text \<open>\<^verbatim>\<open>Number(n)\<close> of a string of decimal digits (the only strings it is applied to).\<close>

definition Number :: "string \<Rightarrow> int" where
  "Number s = foldl (\<lambda>n c. 10 * n + int (code c - 48)) 0 s"

definition isSafeTarget :: "url \<Rightarrow> bool" where
  "isSafeTarget u =
     (if protocol u \<noteq> ''http:'' \<and> protocol u \<noteq> ''https:'' then False
      else
        (let host = toLowerCase (hostname u)
         in if host = ''localhost'' \<or> endsWith host ''.localhost'' then False
            else if host = ''0.0.0.0'' \<or> host = ''127.0.0.1'' \<or> host = ''::1'' then False
            else if host = ''169.254.169.254'' then False
            else if test_dotted_quad host then
              (case map Number (split_on CHR ''.'' host) of
                 a # b # rest \<Rightarrow>
                   if a = 10 then False
                   else if a = 192 \<and> b = 168 then False
                   else if a = 172 \<and> b \<ge> 16 \<and> b \<le> 31 then False
                   else True
               | _ \<Rightarrow> True)
            else True))"

subsection \<open>Headers\<close>

text \<open>
  A \<^verbatim>\<open>Headers\<close> object is the list of its entries, each name in lower case (as the object
  shows it) and at most once.  \<^verbatim>\<open>set\<close> throws a \<^verbatim>\<open>TypeError\<close> (\<open>None\<close>) for a name that is not a
  token, or a value that holds NUL, CR or LF once the white space around it is removed.
\<close>

type_synonym headers = "(string \<times> string) list"

definition is_token_char :: "char \<Rightarrow> bool" where
  "is_token_char c =
     (is_alpha c \<or> is_digit c
      \<or> code c \<in> {33, 35, 36, 37, 38, 39, 42, 43, 45, 46, 94, 95, 96, 124, 126})"

definition valid_header_name :: "string \<Rightarrow> bool" where
  "valid_header_name n = (n \<noteq> [] \<and> list_all is_token_char n)"

definition is_http_whitespace :: "char \<Rightarrow> bool" where
  "is_http_whitespace c = (code c \<in> {9, 10, 13, 32})"

definition normalize_header_value :: "string \<Rightarrow> string" where
  "normalize_header_value v =
     rev (dropWhile is_http_whitespace (rev (dropWhile is_http_whitespace v)))"

definition valid_header_value :: "string \<Rightarrow> bool" where
  "valid_header_value v = (\<not> list_ex (\<lambda>c. code c \<in> {0, 10, 13}) v)"

definition headers_has :: "string \<Rightarrow> headers \<Rightarrow> bool" where
  "headers_has n hs = (toLowerCase n \<in> set (map fst hs))"

definition headers_get :: "string \<Rightarrow> headers \<Rightarrow> string option" where
  "headers_get n hs = map_of hs (toLowerCase n)"

definition headers_delete :: "string \<Rightarrow> headers \<Rightarrow> headers" where
  "headers_delete n hs = filter (\<lambda>h. fst h \<noteq> toLowerCase n) hs"

definition headers_put :: "string \<Rightarrow> string \<Rightarrow> headers \<Rightarrow> headers" where
  "headers_put n v hs =
     (if n \<in> set (map fst hs) then map (\<lambda>h. if fst h = n then (n, v) else h) hs
      else hs @ [(n, v)])"

definition headers_set :: "string \<Rightarrow> string \<Rightarrow> headers \<Rightarrow> headers option" where
  "headers_set n v hs =
     (if \<not> valid_header_name n \<or> \<not> valid_header_value (normalize_header_value v) then None
      else Some (headers_put (toLowerCase n) (normalize_header_value v) hs))"

definition isHopByHopHeader :: "string \<Rightarrow> bool" where
  "isHopByHopHeader headerName =
     (let h = toLowerCase (trim headerName)
      in h = ''connection'' \<or> h = ''keep-alive'' \<or> h = ''proxy-authenticate''
         \<or> h = ''proxy-authorization'' \<or> h = ''te'' \<or> h = ''trailer''
         \<or> h = ''transfer-encoding'' \<or> h = ''upgrade'' \<or> h = ''host''
         \<or> h = ''content-length'')"

text \<open>One round of the loop that fills \<^verbatim>\<open>upstreamHeaders\<close>; \<open>None\<close> once \<^verbatim>\<open>set\<close> has thrown.\<close>

definition copy_header :: "string \<times> string \<Rightarrow> headers option \<Rightarrow> headers option" where
  "copy_header kv acc =
     (case acc of
        None \<Rightarrow> None
      | Some hs \<Rightarrow>
          if fst kv = [] then Some hs
          else if isHopByHopHeader (fst kv) then Some hs
          else headers_set (fst kv) (snd kv) hs)"

definition copied_headers :: "RelayRequest \<Rightarrow> headers option" where
  "copied_headers r = fold copy_header (req_headers r) (Some [])"

text \<open>The upstream headers: the copied ones, then the \<^verbatim>\<open>content-type\<close> of the request where
  it is given (and not empty) and none was copied.\<close>

definition upstreamHeaders :: "RelayRequest \<Rightarrow> headers option" where
  "upstreamHeaders r =
     (case copied_headers r of
        None \<Rightarrow> None
      | Some hs \<Rightarrow>
          (case req_contentType r of
             None \<Rightarrow> Some hs
           | Some ct \<Rightarrow>
               if ct \<noteq> [] \<and> \<not> headers_has ''content-type'' hs
               then headers_set ''content-type'' ct hs
               else Some hs))"

subsection \<open>The body\<close>

datatype js_error =
    TypeError
  | SyntaxError

text \<open>\<^verbatim>\<open>coerceBody\<close>; \<open>Inl\<close> is the exception \<^verbatim>\<open>JSON.parse\<close> throws.\<close>

definition coerceBody :: "platform \<Rightarrow> RelayRequest \<Rightarrow> js_error + string" where
  "coerceBody P input =
     (let ct = toLowerCase (case req_contentType input of None \<Rightarrow> [] | Some c \<Rightarrow> c);
          body = (case req_body input of None \<Rightarrow> [] | Some b \<Rightarrow> b)
      in if str_includes ct ''application/json'' then
           (if body \<noteq> [] then
              (case JSON_parse P body of
                 None \<Rightarrow> Inl SyntaxError
               | Some parsed \<Rightarrow> Inr (JSON_stringify P parsed))
            else Inr (JSON_stringify P JNull))
         else Inr body)"

subsection \<open>The handler\<close>

text \<open>The arguments of the call of \<^verbatim>\<open>fetch\<close>.\<close>

record FetchCall =
  fetch_url :: string
  fetch_method :: string
  fetch_headers :: headers
  fetch_body :: "string option"
  fetch_redirect :: string

text \<open>
  What the handler does with a request: it returns an error response of its own, an exception
  leaves it, or it calls \<^verbatim>\<open>fetch\<close> and passes the upstream response on.  \<^verbatim>\<open>fetch\<close> is called in
  the third case only.
\<close>

datatype relay_outcome =
    ErrorResponse int string
  | Throws js_error
  | Forwards FetchCall

text \<open>The \<^verbatim>\<open>POST\<close> handler up to the call of \<^verbatim>\<open>fetch\<close>.  \<open>raw\<close> is the parsed JSON body of the
  request; \<open>None\<close> stands for a body that is not an object with fields of the right types.\<close>

definition relay :: "platform \<Rightarrow> RelayRequest option \<Rightarrow> relay_outcome" where
  "relay P raw =
     (case raw of
        None \<Rightarrow> ErrorResponse 400 ''Invalid relay request''
      | Some relayReq \<Rightarrow>
          if \<not> relayRequestSchema P relayReq then ErrorResponse 400 ''Invalid relay request''
          else
            (case buildTargetUrl P relayReq of
               None \<Rightarrow> ErrorResponse 400 (url_error_message P)
             | Some targetUrl \<Rightarrow>
                 if \<not> isSafeTarget targetUrl then ErrorResponse 400 ''Blocked target host''
                 else
                   (case upstreamHeaders relayReq of
                      None \<Rightarrow> Throws TypeError
                    | Some hs \<Rightarrow>
                        (let m = toUpperCase (req_method relayReq);
                             hasBody = (m \<noteq> ''GET'' \<and> m \<noteq> ''HEAD'')
                         in if hasBody \<and> req_body relayReq \<noteq> None \<and> req_body relayReq \<noteq> Some []
                            then
                              (case coerceBody P relayReq of
                                 Inl e \<Rightarrow> Throws e
                               | Inr body \<Rightarrow>
                                   Forwards \<lparr> fetch_url = href targetUrl, fetch_method = m,
                                              fetch_headers = hs, fetch_body = Some body,
                                              fetch_redirect = ''manual'' \<rparr>)
                            else
                              Forwards \<lparr> fetch_url = href targetUrl, fetch_method = m,
                                         fetch_headers = hs, fetch_body = None,
                                         fetch_redirect = ''manual'' \<rparr>))))"

text \<open>The headers of the response passed on: the upstream ones without three names, with
  two set.\<close>

definition response_headers :: "url \<Rightarrow> headers \<Rightarrow> headers" where
  "response_headers targetUrl upstream =
     headers_put ''x-relay-target'' (origin targetUrl)
       (headers_put ''cache-control'' ''no-store''
          (headers_delete ''transfer-encoding''
             (headers_delete ''connection'' (headers_delete ''set-cookie'' upstream))))"

section \<open>The claims' words\<close>

text \<open>
  The definitions of this section follow the wording of the specification, not the code; the
  theorems compare them with the code.
\<close>

text \<open>A literal dotted quad: four non-empty groups of decimal digits separated by dots.  The
  result is the list of the four numbers.\<close>

definition dotted_quad_octets :: "string \<Rightarrow> int list option" where
  "dotted_quad_octets h =
     (let parts = split_on CHR ''.'' h
      in if length parts = 4 \<and> list_all (\<lambda>p. p \<noteq> [] \<and> list_all is_digit p) parts
         then Some (map Number parts) else None)"

text \<open>The first two octets lie in \<^verbatim>\<open>10.0.0.0/8\<close>, \<^verbatim>\<open>192.168.0.0/16\<close> or \<^verbatim>\<open>172.16.0.0/12\<close> (the
  twelve bits of the last fix the upper four bits of the second octet to 0001).\<close>

definition in_private_range :: "int list \<Rightarrow> bool" where
  "in_private_range os =
     (case os of
        a # b # rest \<Rightarrow> a = 10 \<or> (a = 192 \<and> b = 168) \<or> (a = 172 \<and> b div 16 = 1)
      | _ \<Rightarrow> False)"

text \<open>The IPv6 loopback address \<^verbatim>\<open>::1\<close>, also as the host name of a URL shows it, between
  brackets.\<close>

definition is_ipv6_loopback :: "string \<Rightarrow> bool" where
  "is_ipv6_loopback h = (h = ''::1'' \<or> h = ''[::1]'')"

text \<open>The targets the Host Safety Guard rejects, in the words of section 4.1.\<close>

definition spec_rejects :: "url \<Rightarrow> bool" where
  "spec_rejects u =
     ((url_scheme u \<noteq> ''http'' \<and> url_scheme u \<noteq> ''https'')
      \<or> toLowerCase (hostname u) = ''localhost''
      \<or> endsWith (toLowerCase (hostname u)) ''.localhost''
      \<or> hostname u = ''0.0.0.0'' \<or> hostname u = ''127.0.0.1''
      \<or> is_ipv6_loopback (hostname u)
      \<or> hostname u = ''169.254.169.254''
      \<or> (case dotted_quad_octets (hostname u) of
            Some os \<Rightarrow> in_private_range os
          | None \<Rightarrow> False))"

text \<open>The verdict of the guard on the URL a string denotes; \<open>None\<close> when the string is not a
  URL.\<close>

definition guard_verdict :: "platform \<Rightarrow> string \<Rightarrow> bool option" where
  "guard_verdict P s = map_option isSafeTarget (url_parse P s None)"

text \<open>A reference that the parser resolves within the host of a base with the scheme
  \<^verbatim>\<open>http\<close> or \<^verbatim>\<open>https\<close>: it has no scheme of its own and does not begin with two slashes
  (forward or backward).\<close>

definition stays_on_host :: "string \<Rightarrow> bool" where
  "stays_on_host s =
     (split_scheme s = None
      \<and> (case s of
            c # d # rest \<Rightarrow> \<not> (is_slash c \<and> is_slash d)
          | _ \<Rightarrow> True))"

text \<open>The fixed set of header names that are never forwarded.\<close>

definition hop_by_hop_names :: "string list" where
  "hop_by_hop_names =
     [''connection'', ''keep-alive'', ''proxy-authenticate'', ''proxy-authorization'', ''te'',
      ''trailer'', ''transfer-encoding'', ''upgrade'', ''host'', ''content-length'']"

text \<open>The value the caller supplied for a header name, names compared without regard to
  case; of several entries the last one counts.\<close>

definition last_supplied :: "(string \<times> string) list \<Rightarrow> string \<Rightarrow> string option" where
  "last_supplied hs n = map_of (rev (map (\<lambda>kv. (toLowerCase (fst kv), snd kv)) hs)) (toLowerCase n)"

text \<open>
  The header the upstream call is expected to carry under a name: none for the empty name and
  for the names of the fixed set (compared after trimming and without regard to case); else
  the value the caller supplied, without the white space around it; else, under
  \<^verbatim>\<open>content-type\<close>, the content type of the request where that is given and not empty.
\<close>

definition expected_header :: "RelayRequest \<Rightarrow> string \<Rightarrow> string option" where
  "expected_header r n =
     (if n = [] \<or> toLowerCase (trim n) \<in> set hop_by_hop_names then None
      else
        (case last_supplied (req_headers r) n of
           Some v \<Rightarrow> Some (normalize_header_value v)
         | None \<Rightarrow>
             if toLowerCase n = ''content-type'' then
               (case req_contentType r of
                  None \<Rightarrow> None
                | Some ct \<Rightarrow> if ct = [] then None else Some (normalize_header_value ct))
             else None))"

text \<open>The content type of the request, in lower case, contains \<^verbatim>\<open>application/json\<close>.\<close>

definition declares_json :: "RelayRequest \<Rightarrow> bool" where
  "declares_json r =
     str_includes (toLowerCase (case req_contentType r of None \<Rightarrow> [] | Some c \<Rightarrow> c))
       ''application/json''"

section \<open>The state codec (base64url.ts, urlState.ts)\<close>

subsection \<open>Base64\<close>

text \<open>A sequence of bytes is a string whose characters are the bytes.  \<open>b64_char\<close> is the
  alphabet of Base64 and \<open>b64_value\<close> its inverse.\<close>

definition b64_char :: "nat \<Rightarrow> char" where
  "b64_char n =
     (if n < 26 then char_of (65 + n)
      else if n < 52 then char_of (71 + n)
      else if n < 62 then char_of (n - 4)
      else if n = 62 then CHR ''+''
      else CHR ''/'')"

definition b64_value :: "char \<Rightarrow> nat option" where
  "b64_value c =
     (if is_upper c then Some (code c - 65)
      else if is_lower c then Some (code c - 71)
      else if is_digit c then Some (code c + 4)
      else if c = CHR ''+'' then Some 62
      else if c = CHR ''/'' then Some 63
      else None)"

text \<open>The Base64 values of a string of bytes: three bytes give four values, one or two
  bytes left over give two or three.\<close>

fun b64_values :: "string \<Rightarrow> nat list" where
  "b64_values [] = []"
| "b64_values [a] = [code a div 4, code a mod 4 * 16]"
| "b64_values [a, b] =
     [code a div 4, code a mod 4 * 16 + code b div 16, code b mod 16 * 4]"
| "b64_values (a # b # c # rest) =
     [code a div 4, code a mod 4 * 16 + code b div 16, code b mod 16 * 4 + code c div 64,
      code c mod 64]
     @ b64_values rest"

text \<open>\<^verbatim>\<open>btoa\<close> on a string of bytes: the characters of the values, padded with \<^verbatim>\<open>=\<close> to a
  multiple of four.\<close>

definition btoa :: "string \<Rightarrow> string" where
  "btoa bytes =
     map b64_char (b64_values bytes)
     @ replicate ((3 - length bytes mod 3) mod 3) CHR ''=''"

text \<open>The bytes a sequence of Base64 values denotes: four values give three bytes; of two
  or three values left over the surplus bits are dropped.\<close>

fun b64_bytes :: "nat list \<Rightarrow> string" where
  "b64_bytes (p # q # r # s # rest) =
     [char_of (p * 4 + q div 16), char_of (q mod 16 * 16 + r div 4), char_of (r mod 4 * 64 + s)]
     @ b64_bytes rest"
| "b64_bytes [p, q, r] = [char_of (p * 4 + q div 16), char_of (q mod 16 * 16 + r div 4)]"
| "b64_bytes [p, q] = [char_of (p * 4 + q div 16)]"
| "b64_bytes _ = []"

definition is_ascii_whitespace :: "char \<Rightarrow> bool" where
  "is_ascii_whitespace c = (code c \<in> {9, 10, 12, 13, 32})"

text \<open>\<^verbatim>\<open>atob\<close>, the forgiving Base64 decoder: white space is removed; of a text whose length
  is a multiple of four, one or two padding characters at the end are removed; a length that
  leaves the remainder one, or a character outside the alphabet, is an error (\<open>None\<close>).\<close>

definition atob :: "string \<Rightarrow> string option" where
  "atob input =
     (let d = filter (\<lambda>c. \<not> is_ascii_whitespace c) input;
          d' = (if length d mod 4 = 0 then
                  (if endsWith d ''=='' then take (length d - 2) d
                   else if endsWith d ''='' then take (length d - 1) d
                   else d)
                else d)
      in if length d' mod 4 = 1 then None
         else if list_ex (\<lambda>c. b64_value c = None) d' then None
         else Some (b64_bytes (map (\<lambda>c. the (b64_value c)) d')))"

text \<open>\<^verbatim>\<open>s.replace(/x/g, 'y')\<close> for a pattern of one character.\<close>

definition replace_char :: "char \<Rightarrow> char \<Rightarrow> string \<Rightarrow> string" where
  "replace_char x y s = map (\<lambda>c. if c = x then y else c) s"

text \<open>\<^verbatim>\<open>s.replace(/=+$/g, '')\<close>.\<close>

definition strip_padding :: "string \<Rightarrow> string" where
  "strip_padding s = rev (dropWhile (\<lambda>c. c = CHR ''='') (rev s))"

text \<open>\<^verbatim>\<open>encodeBase64Url\<close>: the chunked loop builds the string of the bytes; then \<^verbatim>\<open>btoa\<close>, the
  two replacements, and the padding removed.\<close>

definition encodeBase64Url :: "string \<Rightarrow> string" where
  "encodeBase64Url bytes =
     strip_padding (replace_char CHR ''/'' CHR ''_'' (replace_char CHR ''+'' CHR ''-'' (btoa bytes)))"

text \<open>\<^verbatim>\<open>decodeBase64Url\<close>: the replacements undone, \<^verbatim>\<open>'==='.slice((base64.length + 3) % 4)\<close>
  appended, then \<^verbatim>\<open>atob\<close>.\<close>

definition decodeBase64Url :: "string \<Rightarrow> string option" where
  "decodeBase64Url input =
     (let base64 = replace_char CHR ''_'' CHR ''/'' (replace_char CHR ''-'' CHR ''+'' input);
          padded = base64 @ drop ((length base64 + 3) mod 4) ''===''
      in atob padded)"


subsection \<open>The application state in the URL (urlState.ts)\<close>

text \<open>\<^verbatim>\<open>AppState\<close>.  A record of strings (\<^verbatim>\<open>z.record(z.string(), z.string())\<close>) is the list of its
  properties in the order of enumeration.\<close>

record AppState =
  baseUrl :: string
  specUrl :: "string option"
  operationKey :: "string option"
  manualMethod :: string
  manualPath :: string
  pathParams :: "(string \<times> string) list"
  queryParams :: "(string \<times> string) list"
  headerParams :: "(string \<times> string) list"
  contentType :: string
  bodyJson :: string

definition defaultAppState :: AppState where
  "defaultAppState =
     \<lparr> baseUrl = [], specUrl = None, operationKey = None, manualMethod = ''GET'',
       manualPath = ''/'', pathParams = [], queryParams = [], headerParams = [],
       contentType = ''application/json'', bodyJson = [] \<rparr>"

definition MAX_STATE_BYTES :: int where
  "MAX_STATE_BYTES = 20000"

text \<open>The compression library: \<^verbatim>\<open>deflate\<close> of a string gives bytes, \<^verbatim>\<open>inflate\<close> with
  \<^verbatim>\<open>{ to: 'string' }\<close> gives a string or throws (\<open>None\<close>).\<close>

record pako =
  deflate :: "string \<Rightarrow> string"
  inflate :: "string \<Rightarrow> string option"

text \<open>The value \<^verbatim>\<open>JSON.stringify\<close> sees in a state: the properties in the order of the object
  literal, those that are \<^verbatim>\<open>undefined\<close> left out.\<close>

definition optional_entry :: "string \<Rightarrow> string option \<Rightarrow> (string \<times> json) list" where
  "optional_entry k v = (case v of None \<Rightarrow> [] | Some s \<Rightarrow> [(k, JStr s)])"

definition record_to_json :: "(string \<times> string) list \<Rightarrow> json" where
  "record_to_json r = JObj (map (\<lambda>(k, v). (k, JStr v)) r)"

definition state_to_json :: "AppState \<Rightarrow> json" where
  "state_to_json st =
     JObj ([(''baseUrl'', JStr (baseUrl st))]
           @ optional_entry ''specUrl'' (specUrl st)
           @ optional_entry ''operationKey'' (operationKey st)
           @ [(''manualMethod'', JStr (manualMethod st)),
              (''manualPath'', JStr (manualPath st)),
              (''pathParams'', record_to_json (pathParams st)),
              (''queryParams'', record_to_json (queryParams st)),
              (''headerParams'', record_to_json (headerParams st)),
              (''contentType'', JStr (contentType st)),
              (''bodyJson'', JStr (bodyJson st))])"

definition encodeStateToSearchParam :: "platform \<Rightarrow> pako \<Rightarrow> AppState \<Rightarrow> string" where
  "encodeStateToSearchParam P Z st =
     (let json = JSON_stringify P (state_to_json st);
          compressed = deflate Z json;
          encoded = encodeBase64Url compressed
      in encoded)"

text \<open>The schemas of the fields.  The argument is the property of the parsed object, \<open>None\<close>
  when there is none; \<^verbatim>\<open>.catch(x)\<close> turns every failure into \<open>x\<close>, \<^verbatim>\<open>.default(x)\<close> and
  \<^verbatim>\<open>.optional()\<close> accept \<^verbatim>\<open>undefined\<close>.\<close>

text \<open>\<^verbatim>\<open>z.string().url().catch('')\<close>\<close>

definition url_or_empty :: "platform \<Rightarrow> json option \<Rightarrow> string" where
  "url_or_empty P v = (case v of Some (JStr s) \<Rightarrow> if zod_url P s then s else [] | _ \<Rightarrow> [])"

text \<open>\<^verbatim>\<open>z.string().url().optional().catch(undefined)\<close>\<close>

definition optional_url :: "platform \<Rightarrow> json option \<Rightarrow> string option" where
  "optional_url P v = (case v of Some (JStr s) \<Rightarrow> if zod_url P s then Some s else None | _ \<Rightarrow> None)"

text \<open>\<^verbatim>\<open>z.string().optional().catch(undefined)\<close> is \<open>string_or_undefined\<close>;
  \<^verbatim>\<open>z.string().default(d).catch(d)\<close>:\<close>

definition string_or_default :: "string \<Rightarrow> json option \<Rightarrow> string" where
  "string_or_default d v = (case v of Some (JStr s) \<Rightarrow> s | _ \<Rightarrow> d)"

text \<open>\<^verbatim>\<open>z.record(z.string(), z.string())\<close>: an object (not an array, not \<^verbatim>\<open>null\<close>) all of whose
  properties are strings.  The result is a new object with these properties, except an own
  property named \<^verbatim>\<open>__proto__\<close>, which zod validates and then leaves out.  With
  \<^verbatim>\<open>.default({}).catch({})\<close>.\<close>

fun json_string :: "json \<Rightarrow> string option" where
  "json_string (JStr s) = Some s"
| "json_string _ = None"

definition zod_string_record :: "json option \<Rightarrow> (string \<times> string) list option" where
  "zod_string_record v =
     (case v of
        Some (JObj kvs) \<Rightarrow>
          if list_all (\<lambda>(k, x). json_string x \<noteq> None) kvs
          then Some (map (\<lambda>(k, x). (k, the (json_string x)))
                       (filter (\<lambda>(k, x). k \<noteq> ''__proto__'') kvs))
          else None
      | _ \<Rightarrow> None)"

definition record_or_empty :: "json option \<Rightarrow> (string \<times> string) list" where
  "record_or_empty v = (case zod_string_record v of Some r \<Rightarrow> r | None \<Rightarrow> [])"

definition state_keys :: "string list" where
  "state_keys =
     [''baseUrl'', ''specUrl'', ''operationKey'', ''manualMethod'', ''manualPath'',
      ''pathParams'', ''queryParams'', ''headerParams'', ''contentType'', ''bodyJson'']"

text \<open>\<^verbatim>\<open>appStateSchema.safeParse\<close>: \<open>None\<close> is \<^verbatim>\<open>success: false\<close>.  The object schema is strict: the
  value must be an object without a property that the schema does not name.  No field can
  fail, each one has its \<^verbatim>\<open>catch\<close>.\<close>

definition appStateSchema :: "platform \<Rightarrow> json \<Rightarrow> AppState option" where
  "appStateSchema P parsed =
     (case parsed of
        JObj kvs \<Rightarrow>
          if list_ex (\<lambda>(k, v). k \<notin> set state_keys) kvs then None
          else Some
            \<lparr> baseUrl = url_or_empty P (map_of kvs ''baseUrl''),
              specUrl = optional_url P (map_of kvs ''specUrl''),
              operationKey = string_or_undefined (map_of kvs ''operationKey''),
              manualMethod = string_or_default ''GET'' (map_of kvs ''manualMethod''),
              manualPath = string_or_default ''/'' (map_of kvs ''manualPath''),
              pathParams = record_or_empty (map_of kvs ''pathParams''),
              queryParams = record_or_empty (map_of kvs ''queryParams''),
              headerParams = record_or_empty (map_of kvs ''headerParams''),
              contentType = string_or_default ''application/json'' (map_of kvs ''contentType''),
              bodyJson = string_or_default [] (map_of kvs ''bodyJson'') \<rparr>
      | _ \<Rightarrow> None)"

text \<open>\<^verbatim>\<open>{ ...defaultAppState, ...res.data }\<close>: a property of the data that is \<^verbatim>\<open>undefined\<close> or is
  not there leaves \<^verbatim>\<open>undefined\<close>, which is what the default state has.\<close>

definition spread_state :: "AppState \<Rightarrow> AppState \<Rightarrow> AppState" where
  "spread_state d r =
     \<lparr> baseUrl = baseUrl r,
       specUrl = (case specUrl r of None \<Rightarrow> specUrl d | Some u \<Rightarrow> Some u),
       operationKey = (case operationKey r of None \<Rightarrow> operationKey d | Some k \<Rightarrow> Some k),
       manualMethod = manualMethod r, manualPath = manualPath r,
       pathParams = pathParams r, queryParams = queryParams r, headerParams = headerParams r,
       contentType = contentType r, bodyJson = bodyJson r \<rparr>"

text \<open>\<^verbatim>\<open>decodeStateFromSearchParam\<close>.  Every exception inside the \<^verbatim>\<open>try\<close> (of \<^verbatim>\<open>atob\<close>, \<^verbatim>\<open>inflate\<close>,
  \<^verbatim>\<open>JSON.parse\<close>) ends in the default state.\<close>

definition decodeStateFromSearchParam :: "platform \<Rightarrow> pako \<Rightarrow> string option \<Rightarrow> AppState" where
  "decodeStateFromSearchParam P Z input =
     (case input of
        None \<Rightarrow> defaultAppState
      | Some s \<Rightarrow>
          if s = [] then defaultAppState
          else (case decodeBase64Url s of
                  None \<Rightarrow> defaultAppState
                | Some bytes \<Rightarrow>
                    if int (length bytes) > MAX_STATE_BYTES then defaultAppState
                    else (case inflate Z bytes of
                            None \<Rightarrow> defaultAppState
                          | Some inflated \<Rightarrow>
                              (case JSON_parse P inflated of
                                 None \<Rightarrow> defaultAppState
                               | Some parsed \<Rightarrow>
                                   (case appStateSchema P parsed of
                                      Some res \<Rightarrow> spread_state defaultAppState res
                                    | None \<Rightarrow> defaultAppState)))))"


text \<open>``An \<^verbatim>\<open>AppState\<close> value satisfying the state schema'': a value that the schema returns as
  it is.  The two URL fields hold what their schemas let through, a URL (or, for \<^verbatim>\<open>baseUrl\<close>,
  the empty string of its \<^verbatim>\<open>catch\<close>); none of the three records has a property named
  \<^verbatim>\<open>__proto__\<close>, which the record schema does not return; the other fields are strings and
  records of strings by their types.\<close>

definition no_proto_key :: "(string \<times> string) list \<Rightarrow> bool" where
  "no_proto_key r = (''__proto__'' \<notin> set (map fst r))"

definition satisfies_schema :: "platform \<Rightarrow> AppState \<Rightarrow> bool" where
  "satisfies_schema P st =
     ((baseUrl st = [] \<or> zod_url P (baseUrl st))
      \<and> (case specUrl st of None \<Rightarrow> True | Some u \<Rightarrow> zod_url P u)
      \<and> no_proto_key (pathParams st) \<and> no_proto_key (queryParams st)
      \<and> no_proto_key (headerParams st))"

text \<open>The bytes that \<^verbatim>\<open>encodeStateToSearchParam\<close> writes in Base64.\<close>

definition compressed_state :: "platform \<Rightarrow> pako \<Rightarrow> AppState \<Rightarrow> string" where
  "compressed_state P Z st = deflate Z (JSON_stringify P (state_to_json st))"

section \<open>Sample inputs\<close>

text \<open>A document with two paths, \<^verbatim>\<open>/B\<close> before \<^verbatim>\<open>/a\<close>; the second has one parameter at the
  level of the path item and one at the level of its operation.\<close>

definition sample_doc :: json where
  "sample_doc =
     JObj [(''paths'',
       JObj [(''/B'', JObj [(''get'', JObj [])]),
             (''/a'',
              JObj [(''parameters'',
                     JArr [JObj [(''in'', JStr ''path''), (''name'', JStr ''id'')]]),
                    (''get'',
                     JObj [(''parameters'',
                            JArr [JObj [(''in'', JStr ''query''), (''name'', JStr ''q'')]])])])])]"

definition sample_shape :: SpecShape where
  "sample_shape = reduceOpenApiSpec localeCompare sample_doc"

text \<open>
  A platform for the worked examples.  Its \<open>domainToASCII\<close> is the one of the standard on
  ASCII domains without \<^verbatim>\<open>xn--\<close> labels (it lowers the case) and fails elsewhere; it has no
  IPv6 literals and no \<^verbatim>\<open>file:\<close> URLs; its JSON parser knows the documents \<^verbatim>\<open>{}\<close> and
  \<^verbatim>\<open>[]\<close> and rejects every other text.  The examples stay within these limits.  The inherited
  properties are the functions of \<^verbatim>\<open>Object.prototype\<close>, printed as V8 prints them, and
  \<^verbatim>\<open>__proto__\<close>.
\<close>

definition ascii_domainToASCII :: "string \<Rightarrow> string option" where
  "ascii_domainToASCII d =
     (if list_all (\<lambda>c. code c < 128) d
         \<and> \<not> list_ex (\<lambda>l. starts_with (toLowerCase l) ''xn--'') (split_on CHR ''.'' d)
      then Some (toLowerCase d) else None)"

definition object_prototype_functions :: "string list" where
  "object_prototype_functions =
     [''constructor'', ''hasOwnProperty'', ''isPrototypeOf'', ''propertyIsEnumerable'',
      ''toLocaleString'', ''toString'', ''valueOf'', ''__defineGetter__'',
      ''__defineSetter__'', ''__lookupGetter__'', ''__lookupSetter__'']"

definition sample_inherited :: "string \<Rightarrow> string option" where
  "sample_inherited name =
     (if name = ''constructor'' then Some ''function Object() { [native code] }''
      else if name \<in> set object_prototype_functions
      then Some (''function '' @ name @ ''() { [native code] }'')
      else if name = ''__proto__'' then Some ''[object Object]''
      else None)"

definition sample_JSON_parse :: "string \<Rightarrow> json option" where
  "sample_JSON_parse s =
     (if s = ''{}'' then Some (JObj []) else if s = ''[]'' then Some (JArr []) else None)"

definition sample_JSON_stringify :: "json \<Rightarrow> string" where
  "sample_JSON_stringify j =
     (if j = JObj [] then ''{}'' else if j = JArr [] then ''[]'' else ''null'')"

definition sample_platform :: platform where
  "sample_platform =
     \<lparr> domainToASCII = ascii_domainToASCII,
       parseIPv6 = (\<lambda>s. None),
       parseFileURL = (\<lambda>s b. None),
       utf8_decode = (\<lambda>s. s),
       JSON_parse = sample_JSON_parse,
       JSON_stringify = sample_JSON_stringify,
       zod_url = (\<lambda>s. True),
       url_error_message = ''Invalid URL'',
       inheritedProperty = sample_inherited \<rparr>"

text \<open>The request of the worked example, and variations of it.\<close>

definition sample_request :: RelayRequest where
  "sample_request =
     \<lparr> req_baseUrl = ''https://api.example.com'', req_method = ''GET'',
       req_path = ''/users/{id}'', req_pathParams = [(''id'', ''7 8'')],
       req_queryParams = [(''active'', ''true'')], req_headers = [],
       req_contentType = None, req_body = None \<rparr>"

definition sample_base :: url where
  "sample_base =
     \<lparr> url_scheme = ''https'', url_username = [], url_password = [],
       url_host = Some ''api.example.com'', url_port = None, url_path = [[]],
       url_opaque = None, url_query = None, url_fragment = None \<rparr>"

definition sample_headers :: "(string \<times> string) list" where
  "sample_headers =
     [(''Host'', ''x''), (''Authorization'', ''Bearer t''), (''Connection'', ''keep-alive'')]"

definition sample_escape_request :: RelayRequest where
  "sample_escape_request = sample_request \<lparr> req_path := ''//localhost/x'' \<rparr>"

definition sample_guard_urls :: "string list" where
  "sample_guard_urls =
     [''http://localhost/x'', ''http://127.0.0.1/'',
      ''http://169.254.169.254/latest/meta-data'', ''http://10.1.2.3/'',
      ''http://192.168.1.1/'', ''http://172.20.0.5/'', ''ftp://example.com/'',
      ''https://api.example.com/'']"

definition sample_header_request :: RelayRequest where
  "sample_header_request = sample_request \<lparr> req_headers := sample_headers \<rparr>"

definition sample_content_type_request :: RelayRequest where
  "sample_content_type_request = sample_request \<lparr> req_contentType := Some ''text/plain'' \<rparr>"

definition sample_json_request :: RelayRequest where
  "sample_json_request =
     sample_request \<lparr> req_method := ''post'', req_contentType := Some ''application/json'',
                      req_body := Some ''{}'' \<rparr>"

definition sample_text_json_request :: RelayRequest where
  "sample_text_json_request =
     sample_request \<lparr> req_method := ''post'', req_contentType := Some ''text/json'',
                      req_body := Some ''{'' \<rparr>"

definition sample_target :: string where
  "sample_target = ''https://api.example.com/users/7%208?active=true''"

text \<open>A state, its JSON text, and a platform that knows this text; the compression of the
  sample only puts a byte in front.\<close>

definition sample_state :: AppState where
  "sample_state =
     \<lparr> baseUrl = ''https://api.example.com'', specUrl = None,
       operationKey = Some ''GET /users/{id}'', manualMethod = ''GET'',
       manualPath = ''/users/{id}'', pathParams = [(''id'', ''7 8'')],
       queryParams = [(''active'', ''true'')], headerParams = [],
       contentType = ''application/json'', bodyJson = [] \<rparr>"

definition quoted :: "string \<Rightarrow> string" where
  "quoted s = [CHR 0x22] @ s @ [CHR 0x22]"

definition sample_state_text :: string where
  "sample_state_text =
     ''{'' @ quoted ''baseUrl'' @ '':'' @ quoted ''https://api.example.com''
     @ '','' @ quoted ''operationKey'' @ '':'' @ quoted ''GET /users/{id}''
     @ '','' @ quoted ''manualMethod'' @ '':'' @ quoted ''GET''
     @ '','' @ quoted ''manualPath'' @ '':'' @ quoted ''/users/{id}''
     @ '','' @ quoted ''pathParams'' @ '':{'' @ quoted ''id'' @ '':'' @ quoted ''7 8'' @ ''}''
     @ '','' @ quoted ''queryParams'' @ '':{'' @ quoted ''active'' @ '':'' @ quoted ''true'' @ ''}''
     @ '','' @ quoted ''headerParams'' @ '':{}''
     @ '','' @ quoted ''contentType'' @ '':'' @ quoted ''application/json''
     @ '','' @ quoted ''bodyJson'' @ '':'' @ quoted [] @ ''}''"

definition state_platform :: platform where
  "state_platform =
     sample_platform
       \<lparr> JSON_parse :=
           (\<lambda>s. if s = sample_state_text then Some (state_to_json sample_state)
                else sample_JSON_parse s),
         JSON_stringify :=
           (\<lambda>j. if j = state_to_json sample_state then sample_state_text
                else sample_JSON_stringify j) \<rparr>"

definition sample_pako :: pako where
  "sample_pako =
     \<lparr> deflate = (\<lambda>s. CHR ''x'' # s),
       inflate = (\<lambda>b. case b of [] \<Rightarrow> None | c # s \<Rightarrow> if c = CHR ''x'' then Some s else None) \<rparr>"

text \<open>A path template whose token names a property of \<^verbatim>\<open>Object.prototype\<close>, with no path
  parameters given.\<close>

definition sample_prototype_request :: RelayRequest where
  "sample_prototype_request =
     sample_request \<lparr> req_path := ''/users/{constructor}'', req_pathParams := [],
                      req_queryParams := [] \<rparr>"

text \<open>A state with a path parameter named \<^verbatim>\<open>__proto__\<close>.\<close>

definition sample_proto_state :: AppState where
  "sample_proto_state = sample_state \<lparr> pathParams := [(''__proto__'', ''x''), (''a'', ''1'')] \<rparr>"

text \<open>A platform that parses the IPv6 loopback address, and a request to it.\<close>

definition loopback_parseIPv6 :: "string \<Rightarrow> string option" where
  "loopback_parseIPv6 s =
     (if s = ''::1'' \<or> s = ''0:0:0:0:0:0:0:1'' then Some ''::1'' else None)"

definition ipv6_platform :: platform where
  "ipv6_platform = sample_platform \<lparr> parseIPv6 := loopback_parseIPv6 \<rparr>"

definition sample_loopback_request :: RelayRequest where
  "sample_loopback_request =
     \<lparr> req_baseUrl = ''http://[::1]/'', req_method = ''GET'', req_path = ''/admin'',
       req_pathParams = [], req_queryParams = [], req_headers = [],
       req_contentType = None, req_body = None \<rparr>"

section \<open>Characters and case\<close>

lemma code_char_of [simp]: "n < 256 \<Longrightarrow> code (char_of n) = n"
  by (simp add: code_def)

lemma code_less_256 [simp]: "code c < 256"
  by (simp add: code_def)

lemma code_inj: "code c = code d \<Longrightarrow> c = d"
  by (simp add: code_def)

lemma lower_char_low:
  assumes "lower_char c = d" "code d < 65"
  shows "c = d"
proof (rule ccontr)
  assume "c \<noteq> d"
  with assms(1) have ch: "is_upper c \<or> (192 \<le> code c \<and> code c \<le> 222 \<and> code c \<noteq> 215)"
    and d: "d = char_of (code c + 32)"
    by (auto simp: lower_char_def split: if_splits)
  from ch have "code c + 32 < 256" by (auto simp: is_upper_def)
  then have "code d = code c + 32" using d by simp
  with ch assms(2) show False by (auto simp: is_upper_def)
qed

lemma lower_char_id_low: "code c < 65 \<Longrightarrow> lower_char c = c"
  by (auto simp: lower_char_def is_upper_def)

lemma toLowerCase_eq_low:
  assumes "list_all (\<lambda>d. code d < 65) s"
  shows "(toLowerCase h = s) = (h = s)"
  using assms
proof (induction s arbitrary: h)
  case Nil
  then show ?case by (simp add: toLowerCase_def)
next
  case (Cons d s)
  show ?case
  proof (cases h)
    case Nil
    then show ?thesis by (simp add: toLowerCase_def)
  next
    case (Cons c h')
    with Cons.IH [of h'] Cons.prems show ?thesis
      using lower_char_low [of c d] lower_char_id_low [of d]
      by (auto simp: toLowerCase_def)
  qed
qed


lemma lower_char_idem [simp]: "lower_char (lower_char c) = lower_char c"
proof (cases "is_upper c \<or> (192 \<le> code c \<and> code c \<le> 222 \<and> code c \<noteq> 215)")
  case True
  then have "code c + 32 < 256" by (auto simp: is_upper_def)
  then have "code (char_of (code c + 32)) = code c + 32" by simp
  with True show ?thesis
    by (auto simp: lower_char_def is_upper_def)
next
  case False
  then show ?thesis by (auto simp: lower_char_def)
qed

lemma toLowerCase_idem [simp]: "toLowerCase (toLowerCase s) = toLowerCase s"
  by (simp add: toLowerCase_def)

lemma is_js_space_lower [simp]: "is_js_space (lower_char c) = is_js_space c"
proof (cases "is_upper c \<or> (192 \<le> code c \<and> code c \<le> 222 \<and> code c \<noteq> 215)")
  case True
  then have "code c + 32 < 256" by (auto simp: is_upper_def)
  then have "code (char_of (code c + 32)) = code c + 32" by simp
  with True show ?thesis
    by (auto simp: lower_char_def is_upper_def is_js_space_def)
next
  case False
  then show ?thesis by (auto simp: lower_char_def)
qed

lemma trim_toLowerCase: "trim (toLowerCase s) = toLowerCase (trim s)"
  by (simp add: trim_def toLowerCase_def dropWhile_map rev_map comp_def)


lemma toLowerCase_empty [simp]: "toLowerCase [] = []"
  by (simp add: toLowerCase_def)

lemma Nil_eq_toLowerCase [simp]: "([] = toLowerCase s) = (s = [])"
  by (simp add: toLowerCase_def)

section \<open>Properties of the spec shape reducer\<close>

lemma set_insert_by: "set (insert_by cmp x ys) = insert x (set ys)"
  by (induction ys) auto

lemma mset_insert_by: "mset (insert_by cmp x ys) = add_mset x (mset ys)"
  by (induction ys) auto

lemma mset_array_sort: "mset (array_sort cmp xs) = mset xs"
  by (induction xs) (auto simp: array_sort_def mset_insert_by)

lemma set_array_sort: "set (array_sort cmp xs) = set xs"
  by (induction xs) (auto simp: array_sort_def set_insert_by)

lemma sorted_insert_by:
  assumes "consistent_comparator cmp" "sorted_wrt (\<lambda>a b. cmp (k a) (k b) \<le> 0) ys"
  shows "sorted_wrt (\<lambda>a b. cmp (k a) (k b) \<le> 0) (insert_by (\<lambda>a b. cmp (k a) (k b)) x ys)"
  using assms(2)
proof (induction ys)
  case Nil
  then show ?case by simp
next
  case (Cons y ys)
  have tot: "\<And>a b. cmp a b \<le> 0 \<or> cmp b a \<le> 0"
    and tr: "\<And>a b c. cmp a b \<le> 0 \<Longrightarrow> cmp b c \<le> 0 \<Longrightarrow> cmp a c \<le> 0"
    using assms(1) unfolding consistent_comparator_def by blast+
  show ?case
  proof (cases "cmp (k x) (k y) \<le> 0")
    case True
    with Cons.prems tr show ?thesis by auto
  next
    case False
    with tot have "cmp (k y) (k x) \<le> 0" by blast
    with False Cons show ?thesis
      by (auto simp: set_insert_by)
  qed
qed

lemma sorted_array_sort:
  assumes "consistent_comparator cmp"
  shows "sorted_wrt (\<lambda>a b. cmp (k a) (k b) \<le> 0) (array_sort (\<lambda>a b. cmp (k a) (k b)) xs)"
proof (induction xs)
  case Nil
  then show ?case by (simp add: array_sort_def)
next
  case (Cons x xs)
  then show ?case
    using sorted_insert_by [OF assms] by (simp add: array_sort_def)
qed

lemma localeCompare_le:
  "(localeCompare a b \<le> 0) =
     (fst (collation_key a) < fst (collation_key b)
      \<or> (fst (collation_key a) = fst (collation_key b)
          \<and> snd (collation_key a) \<le> snd (collation_key b)))"
  by (auto simp: localeCompare_def Let_def prod_eq_iff)

lemma lex_pair_total:
  fixes x y :: "'a::linorder" and u v :: "'b::linorder"
  shows "(x < y \<or> (x = y \<and> u \<le> v)) \<or> (y < x \<or> (y = x \<and> v \<le> u))"
  by (cases x y rule: linorder_cases) auto

lemma lex_pair_trans:
  fixes x y z :: "'a::linorder" and u v w :: "'b::linorder"
  assumes "x < y \<or> (x = y \<and> u \<le> v)" "y < z \<or> (y = z \<and> v \<le> w)"
  shows "x < z \<or> (x = z \<and> u \<le> w)"
  using assms by (auto intro: less_trans order_trans)

lemma consistent_localeCompare: "consistent_comparator localeCompare"
  unfolding consistent_comparator_def localeCompare_le
proof (intro conjI allI impI)
  fix a b
  show "(fst (collation_key a) < fst (collation_key b)
      \<or> (fst (collation_key a) = fst (collation_key b)
          \<and> snd (collation_key a) \<le> snd (collation_key b))) \<or>
      (fst (collation_key b) < fst (collation_key a)
      \<or> (fst (collation_key b) = fst (collation_key a)
          \<and> snd (collation_key b) \<le> snd (collation_key a)))"
    by (rule lex_pair_total)
next
  fix a b c
  assume "fst (collation_key a) < fst (collation_key b)
      \<or> (fst (collation_key a) = fst (collation_key b)
          \<and> snd (collation_key a) \<le> snd (collation_key b))"
    and "fst (collation_key b) < fst (collation_key c)
      \<or> (fst (collation_key b) = fst (collation_key c)
          \<and> snd (collation_key b) \<le> snd (collation_key c))"
  then show "fst (collation_key a) < fst (collation_key c)
      \<or> (fst (collation_key a) = fst (collation_key c)
          \<and> snd (collation_key a) \<le> snd (collation_key c))"
    by (rule lex_pair_trans)
qed

lemma sample_keys:
  "map op_key (operations (reduceOpenApiSpec localeCompare sample_doc))
     = [''GET /a'', ''GET /B'']"
  by code_simp

text \<open>
  C7, as amended.  The operations list is the discovered operations rearranged so that it is
  ascending by key under the comparison \<^verbatim>\<open>localeCompare\<close> the platform supplies, whatever
  consistent comparison that is.
\<close>

theorem operations_sorted_by_localeCompare:
  assumes "consistent_comparator cmp"
  shows "sorted_wrt (\<lambda>a b. cmp (op_key a) (op_key b) \<le> 0)
           (operations (reduceOpenApiSpec cmp spec))
         \<and> mset (operations (reduceOpenApiSpec cmp spec)) = mset (discoverOperations spec)"
  using sorted_array_sort [OF assms, of op_key "discoverOperations spec"]
  by (simp add: reduceOpenApiSpec_def mset_array_sort)

theorem operations_sorted_by_localeCompare_witness:
  "consistent_comparator localeCompare
   \<and> sorted_wrt (\<lambda>a b. localeCompare (op_key a) (op_key b) \<le> 0)
        (operations (reduceOpenApiSpec localeCompare sample_doc))
   \<and> mset (operations (reduceOpenApiSpec localeCompare sample_doc))
       = mset (discoverOperations sample_doc)
   \<and> map op_key (operations (reduceOpenApiSpec localeCompare sample_doc))
       = [''GET /a'', ''GET /B'']"
  using operations_sorted_by_localeCompare [OF consistent_localeCompare, of sample_doc]
    consistent_localeCompare sample_keys
  by simp

text \<open>
  C7 as stated fails: for the document \<open>sample_doc\<close> the reducer returns the keys
  \<^verbatim>\<open>GET /a\<close>, \<^verbatim>\<open>GET /B\<close> in this order, which is not ascending in the ordinal order of strings
  (the code unit of \<^verbatim>\<open>B\<close> is below the one of \<^verbatim>\<open>a\<close>).
\<close>

theorem operations_not_ordinal_sorted:
  "map op_key (operations (reduceOpenApiSpec localeCompare sample_doc))
     = [''GET /a'', ''GET /B'']
   \<and> \<not> ordinal_sorted (map op_key (operations (reduceOpenApiSpec localeCompare sample_doc)))"
proof -
  have "\<not> ordinal_sorted [''GET /a'', ''GET /B'']"
    by (simp add: ordinal_sorted_def)
  then show ?thesis
    by (simp add: sample_keys)
qed

lemma collectParameters_append:
  "collectParameters pathItem oper = level_parameters pathItem @ level_parameters oper"
  by (simp add: collectParameters_def level_parameters_def List.map_filter_def)

lemma reduceOperation_cases:
  assumes "x \<in> set (reduceOperation spec g path pathItem m)"
  shows "\<exists>oper. get_prop pathItem m = Some oper
          \<and> op_key x = toUpperCase m @ '' '' @ path
          \<and> parameters x = collectParameters (Some pathItem) (Some oper)"
  using assms
  by (cases "get_prop pathItem m") (auto simp: reduceOperation_def Let_def split: if_splits)

lemma discoverOperations_cases:
  assumes "x \<in> set (discoverOperations spec)"
  shows "\<exists>path pathItem m oper.
           (path, pathItem) \<in> set (object_entries (spec_paths spec))
           \<and> m \<in> set http_methods
           \<and> get_prop pathItem m = Some oper
           \<and> op_key x = toUpperCase m @ '' '' @ path
           \<and> parameters x = collectParameters (Some pathItem) (Some oper)"
proof -
  from assms obtain path pathItem m
    where e: "(path, pathItem) \<in> set (object_entries (spec_paths spec))"
      and m: "m \<in> set http_methods"
      and x: "x \<in> set (reduceOperation spec (inferGlobalAuthHint spec) path pathItem m)"
    by (auto simp: discoverOperations_def Let_def split: if_splits)
  from reduceOperation_cases [OF x] e m show ?thesis by blast
qed

text \<open>
  C10.  \<^verbatim>\<open>collectParameters\<close> returns the kept parameters of the path item, in document
  order, followed by the kept parameters of the operation, in document order; and every
  operation the reducer produces carries the list so merged for its own path item and
  operation object.
\<close>

theorem parameters_path_level_before_operation_level:
  "collectParameters pathItem oper = level_parameters pathItem @ level_parameters oper
   \<and> (\<forall>x \<in> set (operations (reduceOpenApiSpec cmp spec)).
         \<exists>path pathItem m oper.
           (path, pathItem) \<in> set (object_entries (spec_paths spec))
           \<and> m \<in> set http_methods
           \<and> get_prop pathItem m = Some oper
           \<and> op_key x = toUpperCase m @ '' '' @ path
           \<and> parameters x = level_parameters (Some pathItem) @ level_parameters (Some oper))"
proof (intro conjI ballI)
  show "collectParameters pathItem oper = level_parameters pathItem @ level_parameters oper"
    by (rule collectParameters_append)
next
  fix x
  assume "x \<in> set (operations (reduceOpenApiSpec cmp spec))"
  then have "x \<in> set (discoverOperations spec)"
    by (simp add: reduceOpenApiSpec_def set_array_sort)
  from discoverOperations_cases [OF this] show
    "\<exists>path pathItem m oper.
       (path, pathItem) \<in> set (object_entries (spec_paths spec))
       \<and> m \<in> set http_methods
       \<and> get_prop pathItem m = Some oper
       \<and> op_key x = toUpperCase m @ '' '' @ path
       \<and> parameters x = level_parameters (Some pathItem) @ level_parameters (Some oper)"
    by (simp add: collectParameters_append)
qed

lemma sample_operations_nonempty:
  "operations (reduceOpenApiSpec localeCompare sample_doc) \<noteq> []"
  by code_simp

lemma sample_first_parameters:
  "map p_name (parameters (hd (operations (reduceOpenApiSpec localeCompare sample_doc))))
     = [''id'', ''q'']"
  by code_simp

theorem parameters_path_level_before_operation_level_witness:
  "hd (operations (reduceOpenApiSpec localeCompare sample_doc))
     \<in> set (operations (reduceOpenApiSpec localeCompare sample_doc))
   \<and> map p_name (parameters (hd (operations (reduceOpenApiSpec localeCompare sample_doc))))
       = [''id'', ''q'']
   \<and> (\<exists>path pathItem m oper.
         (path, pathItem) \<in> set (object_entries (spec_paths sample_doc))
         \<and> m \<in> set http_methods
         \<and> get_prop pathItem m = Some oper
         \<and> parameters (hd (operations (reduceOpenApiSpec localeCompare sample_doc)))
             = level_parameters (Some pathItem) @ level_parameters (Some oper))"
proof -
  have mem: "hd (operations (reduceOpenApiSpec localeCompare sample_doc))
               \<in> set (operations (reduceOpenApiSpec localeCompare sample_doc))"
    using sample_operations_nonempty by simp
  from parameters_path_level_before_operation_level [of None None localeCompare sample_doc] mem
  have "\<exists>path pathItem m oper.
         (path, pathItem) \<in> set (object_entries (spec_paths sample_doc))
         \<and> m \<in> set http_methods
         \<and> get_prop pathItem m = Some oper
         \<and> op_key (hd (operations (reduceOpenApiSpec localeCompare sample_doc)))
             = toUpperCase m @ '' '' @ path
         \<and> parameters (hd (operations (reduceOpenApiSpec localeCompare sample_doc)))
             = level_parameters (Some pathItem) @ level_parameters (Some oper)"
    by blast
  then show ?thesis
    using mem sample_first_parameters by blast
qed

section \<open>Properties of the spec shape cache\<close>

text \<open>
  C8.  An entry of the process-local map is served exactly while the current time is
  strictly before its \<^verbatim>\<open>expiresAt\<close>; an entry that is not is treated as absent (the lookup
  goes on as if the map had no entry for the key); and an entry written at time \<open>t\<close> with a
  TTL of 60 seconds is served unchanged 59 seconds later and is a miss 61 seconds later.
\<close>

theorem cache_entry_valid_iff_before_expiry:
  "(memoryCache key = Some e \<longrightarrow>
      (readCache now memoryCache edge key = Some (MemoryHit (entry_value e)))
        = (now < expiresAt e))
   \<and> (memoryCache key = Some e \<and> expiresAt e \<le> now \<longrightarrow>
        readCache now memoryCache edge key
          = readCache now (memoryCache(key := None)) edge key)
   \<and> readCache (t + 59000) (fst (writeCache t memoryCache hasEdge key v 60)) edge key
       = Some (MemoryHit v)
   \<and> readCache (t + 61000) (fst (writeCache t memoryCache hasEdge key v 60)) edge key
       = readCache (t + 61000) Map.empty edge key
   \<and> readCache (t + 61000) (fst (writeCache t memoryCache hasEdge key v 60)) None key = None"
  by (auto simp: readCache_def readEdge_def writeCache_def split: option.splits)

theorem cache_entry_valid_iff_before_expiry_witness:
  "[''u'' \<mapsto> \<lparr> entry_value = sample_shape, expiresAt = 60000 \<rparr>] ''u''
     = Some \<lparr> entry_value = sample_shape, expiresAt = 60000 \<rparr>
   \<and> readCache 59000 [''u'' \<mapsto> \<lparr> entry_value = sample_shape, expiresAt = 60000 \<rparr>] None ''u''
       = Some (MemoryHit sample_shape)
   \<and> readCache 61000 [''u'' \<mapsto> \<lparr> entry_value = sample_shape, expiresAt = 60000 \<rparr>] None ''u''
       = readCache 61000 Map.empty None ''u''
   \<and> readCache 60000 [''u'' \<mapsto> \<lparr> entry_value = sample_shape, expiresAt = 60000 \<rparr>] None ''u''
       = None"
  using
    cache_entry_valid_iff_before_expiry
      [of "[''u'' \<mapsto> \<lparr> entry_value = sample_shape, expiresAt = 60000 \<rparr>]" "''u''"
          "\<lparr> entry_value = sample_shape, expiresAt = 60000 \<rparr>" 59000 None 0 False sample_shape]
    cache_entry_valid_iff_before_expiry
      [of "[''u'' \<mapsto> \<lparr> entry_value = sample_shape, expiresAt = 60000 \<rparr>]" "''u''"
          "\<lparr> entry_value = sample_shape, expiresAt = 60000 \<rparr>" 61000 None 0 False sample_shape]
    cache_entry_valid_iff_before_expiry
      [of "[''u'' \<mapsto> \<lparr> entry_value = sample_shape, expiresAt = 60000 \<rparr>]" "''u''"
          "\<lparr> entry_value = sample_shape, expiresAt = 60000 \<rparr>" 60000 None 0 False sample_shape]
  by (simp add: readCache_def readEdge_def)

section \<open>Properties of the Host Safety Guard\<close>

lemma dot_not_digit [simp]: "\<not> is_digit CHR ''.''"
  by (simp add: is_digit_def code_def)

lemma digit_low: "is_digit c \<Longrightarrow> code c < 65"
  by (simp add: is_digit_def)

lemma dot_low [simp]: "code CHR ''.'' < 65"
  by (simp add: code_def)

lemma split_on_not_Nil [simp]: "split_on sep s \<noteq> []"
  by (induction s) (auto split: list.splits)

lemma split_on_no_sep: "sep \<notin> set d \<Longrightarrow> split_on sep d = [d]"
  by (induction d) (auto split: list.splits)

lemma split_on_append: "sep \<notin> set a \<Longrightarrow> split_on sep (a @ sep # r) = a # split_on sep r"
  by (induction a) (auto split: list.splits)

lemma split_on_Cons:
  assumes "split_on sep s = p # ps"
  shows "sep \<notin> set p \<and> ((ps = [] \<and> s = p) \<or> (\<exists>r. s = p @ sep # r \<and> split_on sep r = ps))"
  using assms
proof (induction s arbitrary: p ps)
  case Nil
  then show ?case by simp
next
  case (Cons c s)
  show ?case
  proof (cases "c = sep")
    case True
    with Cons.prems show ?thesis by auto
  next
    case False
    obtain q qs where q: "split_on sep s = q # qs"
      by (cases "split_on sep s") auto
    with False Cons.prems have p: "p = c # q" "ps = qs" by auto
    from Cons.IH [OF q] False p show ?thesis by auto
  qed
qed

lemma digits_then_dot:
  "digits_then (dot_then k) s
     = (\<exists>a r. a \<noteq> [] \<and> list_all is_digit a \<and> s = a @ CHR ''.'' # r \<and> k r)"
proof
  assume l: "digits_then (dot_then k) s"
  then obtain r where r: "dropWhile is_digit s = CHR ''.'' # r" "k r"
    by (auto simp: digits_then_def dot_then_def split: list.splits)
  have "s = takeWhile is_digit s @ dropWhile is_digit s" by simp
  with r have "s = takeWhile is_digit s @ CHR ''.'' # r" by simp
  moreover have "list_all is_digit (takeWhile is_digit s)"
    by (auto simp: list_all_iff dest: set_takeWhileD)
  moreover from l have "takeWhile is_digit s \<noteq> []" by (simp add: digits_then_def)
  ultimately show "\<exists>a r. a \<noteq> [] \<and> list_all is_digit a \<and> s = a @ CHR ''.'' # r \<and> k r"
    using r(2) by blast
next
  assume "\<exists>a r. a \<noteq> [] \<and> list_all is_digit a \<and> s = a @ CHR ''.'' # r \<and> k r"
  then obtain a r where a: "a \<noteq> []" "list_all is_digit a" "s = a @ CHR ''.'' # r" "k r"
    by blast
  from a(2) have "takeWhile is_digit s = a" "dropWhile is_digit s = CHR ''.'' # r"
    unfolding a(3) by (simp_all add: list_all_iff)
  with a show "digits_then (dot_then k) s"
    by (simp add: digits_then_def dot_then_def)
qed

lemma digits_then_end:
  "digits_then (\<lambda>r. r = []) s = (s \<noteq> [] \<and> list_all is_digit s)"
  by (cases s) (auto simp: digits_then_def list_all_iff)

lemma test_dotted_quad_iff:
  "test_dotted_quad s
     = (\<exists>a b c d. (a \<noteq> [] \<and> list_all is_digit a) \<and> (b \<noteq> [] \<and> list_all is_digit b)
          \<and> (c \<noteq> [] \<and> list_all is_digit c) \<and> (d \<noteq> [] \<and> list_all is_digit d)
          \<and> s = a @ CHR ''.'' # b @ CHR ''.'' # c @ CHR ''.'' # d)"
  unfolding test_dotted_quad_def digits_then_dot digits_then_end
  by blast

lemma digits_no_dot: "list_all is_digit a \<Longrightarrow> CHR ''.'' \<notin> set a"
  by (auto simp: list_all_iff)

lemma split_dotted_quad:
  assumes "list_all is_digit a" "list_all is_digit b" "list_all is_digit c" "list_all is_digit d"
  shows "split_on CHR ''.'' (a @ CHR ''.'' # b @ CHR ''.'' # c @ CHR ''.'' # d) = [a, b, c, d]"
  using assms by (simp add: split_on_append split_on_no_sep digits_no_dot)

lemma split_four:
  assumes "split_on sep s = [a, b, c, d]"
  shows "s = a @ sep # b @ sep # c @ sep # d"
proof -
  from split_on_Cons [OF assms] obtain r1
    where r1: "s = a @ sep # r1" "split_on sep r1 = [b, c, d]" by auto
  from split_on_Cons [OF r1(2)] obtain r2
    where r2: "r1 = b @ sep # r2" "split_on sep r2 = [c, d]" by auto
  from split_on_Cons [OF r2(2)] obtain r3
    where r3: "r2 = c @ sep # r3" "split_on sep r3 = [d]" by auto
  from split_on_Cons [OF r3(2)] have "r3 = d" by auto
  with r1 r2 r3 show ?thesis by simp
qed

lemma dotted_quad_octets_iff:
  "(dotted_quad_octets s = Some os)
     = (\<exists>a b c d. (a \<noteq> [] \<and> list_all is_digit a) \<and> (b \<noteq> [] \<and> list_all is_digit b)
          \<and> (c \<noteq> [] \<and> list_all is_digit c) \<and> (d \<noteq> [] \<and> list_all is_digit d)
          \<and> s = a @ CHR ''.'' # b @ CHR ''.'' # c @ CHR ''.'' # d
          \<and> os = [Number a, Number b, Number c, Number d])"
proof
  assume l: "dotted_quad_octets s = Some os"
  then have len: "length (split_on CHR ''.'' s) = 4"
    and dg: "list_all (\<lambda>p. p \<noteq> [] \<and> list_all is_digit p) (split_on CHR ''.'' s)"
    and os: "os = map Number (split_on CHR ''.'' s)"
    by (auto simp: dotted_quad_octets_def Let_def split: if_splits)
  from len obtain a b c d where parts: "split_on CHR ''.'' s = [a, b, c, d]"
    by (auto simp: length_Suc_conv numeral_eq_Suc)
  from split_four [OF parts] dg os parts
  show "\<exists>a b c d. (a \<noteq> [] \<and> list_all is_digit a) \<and> (b \<noteq> [] \<and> list_all is_digit b)
          \<and> (c \<noteq> [] \<and> list_all is_digit c) \<and> (d \<noteq> [] \<and> list_all is_digit d)
          \<and> s = a @ CHR ''.'' # b @ CHR ''.'' # c @ CHR ''.'' # d
          \<and> os = [Number a, Number b, Number c, Number d]"
    by auto
next
  assume "\<exists>a b c d. (a \<noteq> [] \<and> list_all is_digit a) \<and> (b \<noteq> [] \<and> list_all is_digit b)
          \<and> (c \<noteq> [] \<and> list_all is_digit c) \<and> (d \<noteq> [] \<and> list_all is_digit d)
          \<and> s = a @ CHR ''.'' # b @ CHR ''.'' # c @ CHR ''.'' # d
          \<and> os = [Number a, Number b, Number c, Number d]"
  then obtain a b c d where h: "a \<noteq> []" "list_all is_digit a" "b \<noteq> []" "list_all is_digit b"
      "c \<noteq> []" "list_all is_digit c" "d \<noteq> []" "list_all is_digit d"
      "s = a @ CHR ''.'' # b @ CHR ''.'' # c @ CHR ''.'' # d"
      "os = [Number a, Number b, Number c, Number d]"
    by blast
  have "split_on CHR ''.'' s = [a, b, c, d]"
    unfolding h(9) using h by (intro split_dotted_quad) simp_all
  with h show "dotted_quad_octets s = Some os"
    by (simp add: dotted_quad_octets_def)
qed

lemma test_dotted_quad_octets:
  "test_dotted_quad s = (dotted_quad_octets s \<noteq> None)"
proof -
  have "(dotted_quad_octets s \<noteq> None) = (\<exists>os. dotted_quad_octets s = Some os)" by auto
  then show ?thesis
    unfolding test_dotted_quad_iff dotted_quad_octets_iff by blast
qed

lemma dotted_quad_low:
  assumes "dotted_quad_octets s = Some os"
  shows "list_all (\<lambda>c. code c < 65) s"
proof -
  from assms obtain a b c d where h: "list_all is_digit a" "list_all is_digit b"
      "list_all is_digit c" "list_all is_digit d"
      "s = a @ CHR ''.'' # b @ CHR ''.'' # c @ CHR ''.'' # d"
    unfolding dotted_quad_octets_iff by blast
  then show ?thesis
    by (auto simp: list_all_iff dest: digit_low)
qed

lemma dotted_quad_lower:
  "dotted_quad_octets (toLowerCase h) = dotted_quad_octets h"
proof (cases "dotted_quad_octets (toLowerCase h)")
  case (Some os)
  from dotted_quad_low [OF this] have "toLowerCase h = h"
    using toLowerCase_eq_low [of "toLowerCase h" h] by auto
  then show ?thesis by simp
next
  case None
  show ?thesis
  proof (cases "dotted_quad_octets h")
    case (Some os)
    from dotted_quad_low [OF this] have "toLowerCase h = h"
      using toLowerCase_eq_low [of h h] by auto
    with None Some show ?thesis by simp
  next
    case None': None
    with None show ?thesis by simp
  qed
qed

lemma dotted_quad_split:
  "dotted_quad_octets s = Some os \<Longrightarrow> map Number (split_on CHR ''.'' s) = os"
  by (auto simp: dotted_quad_octets_def Let_def split: if_splits)

lemma in_private_range_code:
  "(case os of
      a # b # rest \<Rightarrow>
        if a = 10 then False
        else if a = 192 \<and> b = 168 then False
        else if a = 172 \<and> b \<ge> 16 \<and> b \<le> 31 then False
        else True
    | _ \<Rightarrow> True) = (\<not> in_private_range os)"
proof -
  have "\<And>b::int. (16 \<le> b \<and> b \<le> 31) = (b div 16 = 1)" by presburger
  then show ?thesis
    by (auto simp: in_private_range_def split: list.splits)
qed

lemma protocol_http: "(protocol u = ''http:'') = (url_scheme u = ''http'')"
  "(protocol u = ''https:'') = (url_scheme u = ''https'')"
  by (auto simp: protocol_def)

lemma lower_literals:
  "(toLowerCase h = ''0.0.0.0'') = (h = ''0.0.0.0'')"
  "(toLowerCase h = ''127.0.0.1'') = (h = ''127.0.0.1'')"
  "(toLowerCase h = ''::1'') = (h = ''::1'')"
  "(toLowerCase h = ''169.254.169.254'') = (h = ''169.254.169.254'')"
  by (rule toLowerCase_eq_low, simp add: code_def)+

text \<open>Apart from the host name \<^verbatim>\<open>[::1]\<close>, the guard rejects exactly what the specification
  lists.\<close>

lemma isSafeTarget_spec:
  assumes "hostname u \<noteq> ''[::1]''"
  shows "isSafeTarget u = (\<not> spec_rejects u)"
proof (cases "dotted_quad_octets (hostname u)")
  case None
  then have "\<not> test_dotted_quad (toLowerCase (hostname u))"
    by (simp add: test_dotted_quad_octets dotted_quad_lower)
  with None assms show ?thesis
    by (auto simp: isSafeTarget_def spec_rejects_def is_ipv6_loopback_def Let_def protocol_http
        lower_literals)
next
  case (Some os)
  from dotted_quad_low [OF this] have low: "toLowerCase (hostname u) = hostname u"
    using toLowerCase_eq_low [of "hostname u" "hostname u"] by auto
  from Some have t: "test_dotted_quad (hostname u)"
    by (simp add: test_dotted_quad_octets)
  from Some t low assms show ?thesis
    unfolding isSafeTarget_def spec_rejects_def is_ipv6_loopback_def Let_def protocol_http low
    by (simp add: dotted_quad_split in_private_range_code)
qed

text \<open>The host name \<^verbatim>\<open>[::1]\<close> is on the list of the specification, and the guard accepts
  it.\<close>

lemma isSafeTarget_bracketed_loopback:
  assumes "hostname u = ''[::1]''" "url_scheme u = ''http'' \<or> url_scheme u = ''https''"
  shows "spec_rejects u \<and> isSafeTarget u"
proof -
  have "\<not> test_dotted_quad ''[::1]''" by code_simp
  moreover have "toLowerCase ''[::1]'' = ''[::1]''" by code_simp
  moreover have "\<not> endsWith ''[::1]'' ''.localhost''" by code_simp
  ultimately show ?thesis
    using assms
    by (auto simp: isSafeTarget_def spec_rejects_def is_ipv6_loopback_def Let_def protocol_http)
qed

lemma sample_guard_verdicts:
  "map (guard_verdict sample_platform) sample_guard_urls
     = [Some False, Some False, Some False, Some False, Some False, Some False, Some False,
        Some True]"
  by code_simp

lemma tail_state_fields [simp]:
  "url_scheme (tail_state sp u r) = url_scheme u"
  "url_host (tail_state sp u r) = url_host u"
  "url_port (tail_state sp u r) = url_port u"
  "url_opaque (tail_state sp u r) = url_opaque u"
  by (auto simp: tail_state_def Let_def split: list.splits)

lemma path_and_tail_fields [simp]:
  "url_scheme (path_and_tail sp u p r) = url_scheme u"
  "url_host (path_and_tail sp u p r) = url_host u"
  "url_port (path_and_tail sp u p r) = url_port u"
  "url_opaque (path_and_tail sp u p r) = url_opaque u"
  by (auto simp: path_and_tail_def split: prod.splits)

lemma path_start_state_fields [simp]:
  "url_scheme (path_start_state sp u r) = url_scheme u"
  "url_host (path_start_state sp u r) = url_host u"
  "url_port (path_start_state sp u r) = url_port u"
  "url_opaque (path_start_state sp u r) = url_opaque u"
  by (auto simp: path_start_state_def split: list.splits)

lemma authority_state_fields:
  assumes "authority_state P scheme input = Some u"
  shows "url_scheme u = scheme \<and> url_opaque u = None"
  using assms
  by (auto simp: authority_state_def Let_def fresh_url_def split: option.splits if_splits prod.splits)

lemma isSafeTarget_rejects_listed:
  "isSafeTarget (u \<lparr> url_scheme := ''ftp'' \<rparr>) = False
   \<and> map (guard_verdict sample_platform) sample_guard_urls
       = [Some False, Some False, Some False, Some False, Some False, Some False, Some False,
          Some True]"
  using sample_guard_verdicts
  by (simp add: isSafeTarget_def protocol_def)

text \<open>
  C2, where the code departs from it: the specification lists the IPv6 loopback address
  \<^verbatim>\<open>::1\<close> among the hosts to reject, and \<^verbatim>\<open>isSafeTarget\<close> compares the host name with \<^verbatim>\<open>'::1'\<close>.
  But \<^verbatim>\<open>url.hostname\<close> of \<^verbatim>\<open>http://[::1]/\<close> is \<^verbatim>\<open>[::1]\<close>, with the brackets: the comparison fails,
  no other test applies, the guard accepts the URL, and the relay forwards a request to it.
\<close>

theorem ipv6_loopback_not_rejected:
  "map_option hostname (url_parse ipv6_platform ''http://[::1]/'' None) = Some ''[::1]''
   \<and> map_option spec_rejects (url_parse ipv6_platform ''http://[::1]/'' None) = Some True
   \<and> guard_verdict ipv6_platform ''http://[::1]/'' = Some True
   \<and> guard_verdict ipv6_platform ''http://[0:0:0:0:0:0:0:1]/'' = Some True
   \<and> relay ipv6_platform (Some sample_loopback_request)
       = Forwards \<lparr> fetch_url = ''http://[::1]/admin'', fetch_method = ''GET'',
                    fetch_headers = [], fetch_body = None, fetch_redirect = ''manual'' \<rparr>"
  by code_simp

section \<open>Properties of the relay\<close>

lemma file_state_scheme: "file_state P r base = Some u \<Longrightarrow> url_scheme u = ''file''"
  by (auto simp: file_state_def split: option.splits)

lemma opaque_path_state_scheme [simp]: "url_scheme (opaque_path_state scheme r) = scheme"
  by (simp add: opaque_path_state_def fresh_url_def)

lemma url_parse_special_list_path:
  assumes "url_parse P s None = Some b" "url_scheme b = ''http'' \<or> url_scheme b = ''https''"
  shows "url_opaque b = None"
proof (cases "split_scheme (url_preprocess s)")
  case None
  with assms(1) show ?thesis
    by (simp add: url_parse_def no_scheme_state_def)
next
  case (Some sr)
  obtain scheme rest where sr: "sr = (scheme, rest)" by (cases sr)
  show ?thesis
  proof (cases "scheme = ''file''")
    case True
    with assms Some sr show ?thesis
      by (auto simp: url_parse_def dest: file_state_scheme)
  next
    case nf: False
    show ?thesis
    proof (cases "is_special scheme")
      case True
      with assms(1) Some sr nf have "authority_state P scheme (dropWhile is_slash rest) = Some b"
        by (simp add: url_parse_def)
      from authority_state_fields [OF this] show ?thesis by simp
    next
      case False
      with assms(1) Some sr nf have "url_scheme b = scheme"
        by (auto simp: url_parse_def fresh_url_def split: list.splits if_splits
                 dest: authority_state_fields)
      with False assms(2) show ?thesis by (auto simp: is_special_def)
    qed
  qed
qed

lemma relative_slash_keeps_host:
  assumes "url_scheme b = ''http'' \<or> url_scheme b = ''https''"
    and "case cs of [] \<Rightarrow> True | d # ds \<Rightarrow> \<not> is_slash d"
  shows "\<exists>u. relative_slash_state P cs b = Some u \<and> url_scheme u = url_scheme b
            \<and> url_host u = url_host b \<and> url_port u = url_port b"
  using assms
  by (auto simp: relative_slash_state_def Let_def is_slash_def split: list.splits)

lemma relative_keeps_host:
  assumes sch: "url_scheme b = ''http'' \<or> url_scheme b = ''https''"
    and st: "case s of c # d # rest \<Rightarrow> \<not> (is_slash c \<and> is_slash d) | _ \<Rightarrow> True"
  shows "\<exists>u. relative_state P s b = Some u \<and> url_scheme u = url_scheme b
            \<and> url_host u = url_host b \<and> url_port u = url_port b"
proof (cases s)
  case Nil
  then show ?thesis by (simp add: relative_state_def)
next
  case (Cons c cs)
  show ?thesis
  proof (cases "is_slash c")
    case True
    with st Cons have "case cs of [] \<Rightarrow> True | d # ds \<Rightarrow> \<not> is_slash d"
      by (auto split: list.splits)
    from relative_slash_keeps_host [OF sch this, of P] True Cons sch show ?thesis
      by (auto simp: relative_state_def Let_def is_slash_def is_special_def)
  next
    case False
    with Cons show ?thesis
      by (auto simp: relative_state_def Let_def is_slash_def)
  qed
qed

lemma resolve_keeps_host:
  assumes "url_scheme b = ''http'' \<or> url_scheme b = ''https''" "url_opaque b = None"
    and "stays_on_host (url_preprocess input)"
  shows "\<exists>u. url_parse P input (Some b) = Some u \<and> url_scheme u = url_scheme b
            \<and> url_host u = url_host b \<and> url_port u = url_port b"
proof -
  from assms(3) have ns: "split_scheme (url_preprocess input) = None"
    and st: "case url_preprocess input of c # d # rest \<Rightarrow> \<not> (is_slash c \<and> is_slash d) | _ \<Rightarrow> True"
    by (simp_all add: stays_on_host_def)
  from assms(1) have "url_scheme b \<noteq> ''file''" by auto
  with ns assms(2) have "url_parse P input (Some b) = relative_state P (url_preprocess input) b"
    by (simp add: url_parse_def no_scheme_state_def)
  with relative_keeps_host [OF assms(1) st, of P] show ?thesis by simp
qed

lemma apply_queryParams_fields [simp]:
  "url_scheme (apply_queryParams P qs u) = url_scheme u"
  "url_host (apply_queryParams P qs u) = url_host u"
  "url_port (apply_queryParams P qs u) = url_port u"
  by (simp_all add: apply_queryParams_def update_query_def)

lemma isSafeTarget_cong:
  "url_scheme u = url_scheme b \<Longrightarrow> url_host u = url_host b \<Longrightarrow> isSafeTarget u = isSafeTarget b"
  by (simp add: isSafeTarget_def protocol_def hostname_def)

lemma isSafeTarget_scheme: "isSafeTarget b \<Longrightarrow> url_scheme b = ''http'' \<or> url_scheme b = ''https''"
  by (auto simp: isSafeTarget_def protocol_def split: if_splits)


lemma sample_base_facts:
  "url_parse sample_platform (req_baseUrl sample_request) None = Some sample_base
   \<and> isSafeTarget sample_base
   \<and> stays_on_host (url_preprocess (pathWithParams sample_platform sample_request))"
  by code_simp

lemma sample_base_hostname: "hostname sample_base = ''api.example.com''"
  by (simp add: hostname_def sample_base_def)

text \<open>
  C1, as amended.  For a relay request whose \<^verbatim>\<open>baseUrl\<close> parses to a URL the guard accepts,
  and whose path after substitution is a reference that stays on the host (no scheme of its
  own, no two leading slashes), \<^verbatim>\<open>buildTargetUrl\<close> returns a URL, the guard accepts it, and its
  protocol, host name and host (with the port) are those of the base URL.
\<close>

theorem target_stays_on_public_base_host:
  assumes "url_parse P (req_baseUrl r) None = Some b" "isSafeTarget b"
    and "stays_on_host (url_preprocess (pathWithParams P r))"
  shows "\<exists>u. buildTargetUrl P r = Some u \<and> isSafeTarget u
           \<and> protocol u = protocol b \<and> hostname u = hostname b
           \<and> host_and_port u = host_and_port b"
proof -
  note sch = isSafeTarget_scheme [OF assms(2)]
  from url_parse_special_list_path [OF assms(1) sch] have op: "url_opaque b = None" .
  from resolve_keeps_host [OF sch op assms(3), of P] obtain u0
    where u0: "url_parse P (pathWithParams P r) (Some b) = Some u0"
      "url_scheme u0 = url_scheme b" "url_host u0 = url_host b" "url_port u0 = url_port b"
    by blast
  let ?u = "apply_queryParams P (req_queryParams r) u0"
  have "buildTargetUrl P r = Some ?u"
    using assms(1) u0(1) by (simp add: buildTargetUrl_def)
  moreover have "isSafeTarget ?u"
    using isSafeTarget_cong [of ?u b] u0 assms(2) by simp
  moreover have "protocol ?u = protocol b" "hostname ?u = hostname b"
    "host_and_port ?u = host_and_port b"
    using u0 by (simp_all add: protocol_def hostname_def host_and_port_def)
  ultimately show ?thesis by blast
qed

theorem target_stays_on_public_base_host_witness:
  "url_parse sample_platform (req_baseUrl sample_request) None = Some sample_base
   \<and> isSafeTarget sample_base
   \<and> stays_on_host (url_preprocess (pathWithParams sample_platform sample_request))
   \<and> (\<exists>u. buildTargetUrl sample_platform sample_request = Some u \<and> isSafeTarget u
          \<and> hostname u = ''api.example.com'')"
proof -
  from sample_base_facts have h:
    "url_parse sample_platform (req_baseUrl sample_request) None = Some sample_base"
    "isSafeTarget sample_base"
    "stays_on_host (url_preprocess (pathWithParams sample_platform sample_request))"
    by simp_all
  from target_stays_on_public_base_host [OF h] sample_base_hostname h show ?thesis
    by auto
qed

text \<open>
  C1 as stated fails: the request \<open>sample_escape_request\<close> is valid and its base URL
  \<^verbatim>\<open>https://api.example.com\<close> is public, but with the path template \<^verbatim>\<open>//localhost/x\<close> the built
  URL has the host \<^verbatim>\<open>localhost\<close> and the guard rejects it.
\<close>

theorem target_host_can_leave_base:
  "relayRequestSchema sample_platform sample_escape_request
   \<and> guard_verdict sample_platform (req_baseUrl sample_escape_request) = Some True
   \<and> map_option hostname (url_parse sample_platform (req_baseUrl sample_escape_request) None)
       = Some ''api.example.com''
   \<and> map_option hostname (buildTargetUrl sample_platform sample_escape_request)
       = Some ''localhost''
   \<and> map_option isSafeTarget (buildTargetUrl sample_platform sample_escape_request)
       = Some False"
  by code_simp

lemma relay_forwards_cases:
  assumes "relay P raw = Forwards c"
  shows "\<exists>r u. raw = Some r \<and> relayRequestSchema P r \<and> buildTargetUrl P r = Some u
           \<and> isSafeTarget u \<and> fetch_url c = href u
           \<and> upstreamHeaders r = Some (fetch_headers c)"
  using assms
  by (auto simp: relay_def Let_def split: option.splits if_splits sum.splits)

text \<open>
  C3.  If the base URL does not parse, \<^verbatim>\<open>buildTargetUrl\<close> throws; if \<^verbatim>\<open>buildTargetUrl\<close> throws, or
  the guard rejects the URL it built, the handler answers with status 400; and \<^verbatim>\<open>fetch\<close> is
  called only with a URL that \<^verbatim>\<open>buildTargetUrl\<close> returned and the guard accepted.
\<close>

theorem relay_rejects_before_fetch:
  "(url_parse P (req_baseUrl r) None = None \<longrightarrow> buildTargetUrl P r = None)
   \<and> (buildTargetUrl P r = None \<longrightarrow>
        relay P (Some r)
          = ErrorResponse 400
              (if relayRequestSchema P r then url_error_message P
               else ''Invalid relay request''))
   \<and> (map_option isSafeTarget (buildTargetUrl P r) = Some False \<longrightarrow>
        relay P (Some r)
          = ErrorResponse 400
              (if relayRequestSchema P r then ''Blocked target host''
               else ''Invalid relay request''))
   \<and> (\<forall>c. relay P raw = Forwards c \<longrightarrow>
          (\<exists>q u. raw = Some q \<and> buildTargetUrl P q = Some u \<and> isSafeTarget u
                 \<and> fetch_url c = href u))"
proof (intro conjI allI impI)
  assume "url_parse P (req_baseUrl r) None = None"
  then show "buildTargetUrl P r = None" by (simp add: buildTargetUrl_def)
next
  assume "buildTargetUrl P r = None"
  then show "relay P (Some r)
          = ErrorResponse 400
              (if relayRequestSchema P r then url_error_message P
               else ''Invalid relay request'')"
    by (simp add: relay_def)
next
  assume "map_option isSafeTarget (buildTargetUrl P r) = Some False"
  then show "relay P (Some r)
          = ErrorResponse 400
              (if relayRequestSchema P r then ''Blocked target host''
               else ''Invalid relay request'')"
    by (auto simp: relay_def)
next
  fix c
  assume "relay P raw = Forwards c"
  from relay_forwards_cases [OF this]
  show "\<exists>q u. raw = Some q \<and> buildTargetUrl P q = Some u \<and> isSafeTarget u
                 \<and> fetch_url c = href u"
    by blast
qed

lemma sample_bad_base:
  "url_parse sample_platform (req_baseUrl (sample_request \<lparr> req_baseUrl := ''nope'' \<rparr>)) None
     = None
   \<and> relayRequestSchema sample_platform (sample_request \<lparr> req_baseUrl := ''nope'' \<rparr>)
   \<and> url_error_message sample_platform = ''Invalid URL''"
  by code_simp

lemma sample_escape_blocked:
  "map_option isSafeTarget (buildTargetUrl sample_platform sample_escape_request) = Some False
   \<and> relayRequestSchema sample_platform sample_escape_request"
  by code_simp

theorem relay_rejects_before_fetch_witness:
  "url_parse sample_platform (req_baseUrl (sample_request \<lparr> req_baseUrl := ''nope'' \<rparr>)) None
     = None
   \<and> relay sample_platform (Some (sample_request \<lparr> req_baseUrl := ''nope'' \<rparr>))
       = ErrorResponse 400 ''Invalid URL''
   \<and> map_option isSafeTarget (buildTargetUrl sample_platform sample_escape_request) = Some False
   \<and> relay sample_platform (Some sample_escape_request)
       = ErrorResponse 400 ''Blocked target host''"
  using
    relay_rejects_before_fetch
      [of sample_platform "sample_request \<lparr> req_baseUrl := ''nope'' \<rparr>" None]
    relay_rejects_before_fetch [of sample_platform sample_escape_request None]
    sample_bad_base sample_escape_blocked
  by simp

section \<open>Properties of the header filter\<close>

lemma isHopByHopHeader_lower [simp]: "isHopByHopHeader (toLowerCase n) = isHopByHopHeader n"
  by (simp add: isHopByHopHeader_def trim_toLowerCase)

lemma isHopByHopHeader_names:
  "isHopByHopHeader n = (toLowerCase (trim n) \<in> set hop_by_hop_names)"
  by (auto simp: isHopByHopHeader_def hop_by_hop_names_def Let_def)

lemma toLowerCase_Nil [simp]: "(toLowerCase s = []) = (s = [])"
  by (simp add: toLowerCase_def)

lemma last_supplied_snoc:
  "last_supplied (xs @ [(k, v)]) n
     = (if toLowerCase k = toLowerCase n then Some v else last_supplied xs n)"
  by (auto simp: last_supplied_def)

lemma last_supplied_Nil [simp]: "last_supplied [] n = None"
  by (simp add: last_supplied_def)

lemma map_of_replace:
  "map_of (map (\<lambda>h. if fst h = m then (m, v) else h) hs) x
     = (if x = m then (if map_of hs m = None then None else Some v) else map_of hs x)"
  by (induction hs) auto

lemma map_of_snoc_fresh:
  "map_of hs m = None \<Longrightarrow> map_of (hs @ [(m, v)]) x = (if x = m then Some v else map_of hs x)"
  by (induction hs) (auto split: if_splits)

lemma map_of_headers_put:
  "map_of (headers_put m v hs) x = (if x = m then Some v else map_of hs x)"
proof (cases "map_of hs m")
  case None
  then have "m \<notin> set (map fst hs)" by (simp add: map_of_eq_None_iff)
  with None show ?thesis
    using map_of_snoc_fresh [OF None, of v x] by (simp add: headers_put_def del: map_of_append)
next
  case (Some w)
  then have "m \<in> set (map fst hs)"
    using map_of_eq_None_iff [of hs m] by auto
  with Some show ?thesis by (simp add: headers_put_def map_of_replace)
qed

lemma names_replace: "map fst (map (\<lambda>h. if fst h = m then (m, v) else h) hs) = map fst hs"
  by (induction hs) auto

lemma names_headers_put:
  "map fst (headers_put m v hs)
     = (if m \<in> fst ` set hs then map fst hs else map fst hs @ [m])"
  using names_replace [of m v hs] by (simp add: headers_put_def del: map_map)

lemma distinct_headers_put:
  assumes "distinct (map fst hs)"
  shows "distinct (map fst (headers_put m v hs))"
  using assms by (simp add: names_headers_put)

lemma copy_header_None [simp]: "copy_header x None = None"
  by (simp add: copy_header_def)

lemma copied_spec:
  assumes "fold copy_header xs (Some []) = Some hs"
  shows "distinct (map fst hs)
         \<and> (\<forall>n. map_of hs (toLowerCase n)
                = (if n = [] \<or> isHopByHopHeader n then None
                   else map_option normalize_header_value (last_supplied xs n)))"
  using assms
proof (induction xs arbitrary: hs rule: rev_induct)
  case Nil
  then show ?case by simp
next
  case (snoc x xs)
  obtain k v where x: "x = (k, v)" by (cases x)
  from snoc.prems have step: "copy_header x (fold copy_header xs (Some [])) = Some hs"
    by simp
  then obtain hs0 where hs0: "fold copy_header xs (Some []) = Some hs0"
    by (cases "fold copy_header xs (Some [])") auto
  note IH = snoc.IH [OF hs0]
  show ?case
  proof (cases "k = [] \<or> isHopByHopHeader k")
    case True
    with step hs0 x have eq: "hs = hs0" by (auto simp: copy_header_def split: if_splits)
    have "\<And>n. toLowerCase k = toLowerCase n \<Longrightarrow> n = [] \<or> isHopByHopHeader n"
    proof -
      fix n
      assume e: "toLowerCase k = toLowerCase n"
      show "n = [] \<or> isHopByHopHeader n"
      proof (cases "k = []")
        case True
        with e show ?thesis by simp
      next
        case False
        with True have "isHopByHopHeader (toLowerCase k)" by simp
        with e have "isHopByHopHeader (toLowerCase n)" by simp
        then show ?thesis by simp
      qed
    qed
    with IH eq x show ?thesis
      by (auto simp: last_supplied_snoc)
  next
    case False
    with step hs0 x have set: "headers_set k v hs0 = Some hs"
      by (auto simp: copy_header_def split: if_splits)
    then have hs: "hs = headers_put (toLowerCase k) (normalize_header_value v) hs0"
      by (auto simp: headers_set_def split: if_splits)
    have key: "\<And>n. toLowerCase k = toLowerCase n \<Longrightarrow> \<not> (n = [] \<or> isHopByHopHeader n)"
    proof -
      fix n
      assume e: "toLowerCase k = toLowerCase n"
      from False have "k \<noteq> []" "\<not> isHopByHopHeader k" by auto
      then have "toLowerCase n \<noteq> []" "\<not> isHopByHopHeader (toLowerCase n)"
        using e by (simp_all flip: e)
      then show "\<not> (n = [] \<or> isHopByHopHeader n)" by simp
    qed
    show ?thesis
    proof (intro conjI allI)
      from IH show "distinct (map fst hs)"
        unfolding hs by (intro distinct_headers_put) simp
    next
      fix n
      show "map_of hs (toLowerCase n)
              = (if n = [] \<or> isHopByHopHeader n then None
                 else map_option normalize_header_value (last_supplied (xs @ [x]) n))"
      proof (cases "toLowerCase k = toLowerCase n")
        case True
        with key [OF True] show ?thesis
          by (simp add: hs map_of_headers_put x last_supplied_snoc)
      next
        case False
        then have "toLowerCase n \<noteq> toLowerCase k" by auto
        with False IH show ?thesis
          by (simp add: hs map_of_headers_put x last_supplied_snoc)
      qed
    qed
  qed
qed

lemma content_type_not_hop: "\<not> isHopByHopHeader ''content-type''"
  by code_simp

lemma content_type_lower: "toLowerCase ''content-type'' = ''content-type''"
  by code_simp

lemma upstreamHeaders_spec:
  assumes "upstreamHeaders r = Some hs"
  shows "distinct (map fst hs) \<and> (\<forall>n. headers_get n hs = expected_header r n)"
proof -
  from assms obtain hs0 where hs0: "copied_headers r = Some hs0"
    by (cases "copied_headers r") (auto simp: upstreamHeaders_def)
  from copied_spec [OF hs0 [unfolded copied_headers_def]]
  have d0: "distinct (map fst hs0)"
    and g0: "\<And>n. map_of hs0 (toLowerCase n)
                = (if n = [] \<or> isHopByHopHeader n then None
                   else map_option normalize_header_value (last_supplied (req_headers r) n))"
    by auto
  have has: "headers_has ''content-type'' hs0
               = (last_supplied (req_headers r) ''content-type'' \<noteq> None)"
    using g0 [of "''content-type''"] map_of_eq_None_iff [of hs0 "toLowerCase ''content-type''"]
    by (auto simp: headers_has_def content_type_not_hop)
  show ?thesis
  proof (cases "\<exists>ct. req_contentType r = Some ct \<and> ct \<noteq> []
                     \<and> last_supplied (req_headers r) ''content-type'' = None")
    case False
    with assms hs0 has have "hs = hs0"
      by (auto simp: upstreamHeaders_def split: option.splits if_splits)
    moreover have "\<And>n. expected_header r n
                    = (if n = [] \<or> isHopByHopHeader n then None
                       else map_option normalize_header_value (last_supplied (req_headers r) n))"
    proof -
      fix n
      show "expected_header r n
              = (if n = [] \<or> isHopByHopHeader n then None
                 else map_option normalize_header_value (last_supplied (req_headers r) n))"
      proof (cases "toLowerCase n = ''content-type''")
        case True
        then have "last_supplied (req_headers r) n
                     = last_supplied (req_headers r) ''content-type''"
          by (simp add: last_supplied_def content_type_lower)
        with False show ?thesis
          by (auto simp: expected_header_def isHopByHopHeader_names split: option.splits)
      next
        case False
        then show ?thesis
          by (auto simp: expected_header_def isHopByHopHeader_names split: option.splits)
      qed
    qed
    ultimately show ?thesis using d0 g0 by (simp add: headers_get_def)
  next
    case True
    then obtain ct where ct: "req_contentType r = Some ct" "ct \<noteq> []"
      "last_supplied (req_headers r) ''content-type'' = None" by blast
    with assms hs0 has have "headers_set ''content-type'' ct hs0 = Some hs"
      by (auto simp: upstreamHeaders_def)
    then have hs: "hs = headers_put ''content-type'' (normalize_header_value ct) hs0"
      by (auto simp: headers_set_def content_type_lower split: if_splits)
    show ?thesis
    proof (intro conjI allI)
      from d0 show "distinct (map fst hs)"
        unfolding hs by (rule distinct_headers_put)
    next
      fix n
      show "headers_get n hs = expected_header r n"
      proof (cases "toLowerCase n = ''content-type''")
        case True
        then have l: "last_supplied (req_headers r) n = None"
          using ct(3) by (simp add: last_supplied_def content_type_lower)
        from True have "isHopByHopHeader n = isHopByHopHeader ''content-type''"
          using isHopByHopHeader_lower [of n] by simp
        then have nh: "\<not> isHopByHopHeader n" by (simp add: content_type_not_hop)
        from True have ne: "n \<noteq> []" by (auto simp: toLowerCase_def)
        from True l nh ne ct show ?thesis
          by (simp add: headers_get_def hs map_of_headers_put expected_header_def
                        isHopByHopHeader_names [symmetric])
      next
        case False
        with g0 [of n] show ?thesis
          by (auto simp: headers_get_def hs map_of_headers_put expected_header_def
                         isHopByHopHeader_names [symmetric] split: option.splits)
      qed
    qed
  qed
qed

lemma sample_header_facts:
  "upstreamHeaders sample_header_request = Some [(''authorization'', ''Bearer t'')]
   \<and> relay sample_platform (Some sample_header_request)
       = Forwards \<lparr> fetch_url = sample_target, fetch_method = ''GET'',
                    fetch_headers = [(''authorization'', ''Bearer t'')], fetch_body = None,
                    fetch_redirect = ''manual'' \<rparr>"
  by code_simp

text \<open>
  C5, as amended.  When the handler reaches the upstream call, the headers it forwards are
  exactly the expected ones: under every name the value \<open>expected_header\<close> gives (nothing under
  the empty name and under the names of the fixed set, matched after trimming and without
  regard to case; the caller's value, trimmed, under any other name the caller supplied; the
  request's content type under \<^verbatim>\<open>content-type\<close> when the caller supplied none), each name
  once.  Filtering \<^verbatim>\<open>Host\<close>, \<^verbatim>\<open>Authorization\<close>, \<^verbatim>\<open>Connection\<close> leaves the authorization header
  alone.
\<close>

theorem forwarded_headers_exact:
  "(upstreamHeaders r = Some hs \<longrightarrow>
      distinct (map fst hs) \<and> (\<forall>n. headers_get n hs = expected_header r n))
   \<and> (relay P (Some r) = Forwards c \<longrightarrow> upstreamHeaders r = Some (fetch_headers c))
   \<and> upstreamHeaders sample_header_request = Some [(''authorization'', ''Bearer t'')]"
proof (intro conjI impI)
  assume "upstreamHeaders r = Some hs"
  from upstreamHeaders_spec [OF this]
  show "distinct (map fst hs)" and "\<forall>n. headers_get n hs = expected_header r n"
    by simp_all
next
  assume "relay P (Some r) = Forwards c"
  from relay_forwards_cases [OF this] show "upstreamHeaders r = Some (fetch_headers c)"
    by auto
next
  show "upstreamHeaders sample_header_request = Some [(''authorization'', ''Bearer t'')]"
    using sample_header_facts by simp
qed

theorem forwarded_headers_exact_witness:
  "upstreamHeaders sample_header_request = Some [(''authorization'', ''Bearer t'')]
   \<and> distinct (map fst [(''authorization'', ''Bearer t'')])
   \<and> expected_header sample_header_request ''Authorization''
       = headers_get ''Authorization'' [(''authorization'', ''Bearer t'')]
   \<and> expected_header sample_header_request ''Host''
       = headers_get ''Host'' [(''authorization'', ''Bearer t'')]
   \<and> relay sample_platform (Some sample_header_request)
       = Forwards \<lparr> fetch_url = sample_target, fetch_method = ''GET'',
                    fetch_headers = [(''authorization'', ''Bearer t'')], fetch_body = None,
                    fetch_redirect = ''manual'' \<rparr>"
  using
    forwarded_headers_exact
      [of sample_header_request "[(''authorization'', ''Bearer t'')]" sample_platform
          "\<lparr> fetch_url = sample_target, fetch_method = ''GET'',
             fetch_headers = [(''authorization'', ''Bearer t'')], fetch_body = None,
             fetch_redirect = ''manual'' \<rparr>"]
    sample_header_facts
  by simp

text \<open>
  C5 as stated fails: the request \<open>sample_content_type_request\<close> supplies no header at all,
  and the upstream call carries the header \<^verbatim>\<open>content-type: text/plain\<close>, taken from the
  request's content type.
\<close>

theorem forwarded_headers_add_content_type:
  "req_headers sample_content_type_request = []
   \<and> relay sample_platform (Some sample_content_type_request)
       = Forwards \<lparr> fetch_url = sample_target, fetch_method = ''GET'',
                    fetch_headers = [(''content-type'', ''text/plain'')], fetch_body = None,
                    fetch_redirect = ''manual'' \<rparr>"
  by code_simp

section \<open>Properties of the body coercion\<close>

lemma sample_json_facts:
  "relayRequestSchema sample_platform sample_json_request
   \<and> map_option href (buildTargetUrl sample_platform sample_json_request) = Some sample_target
   \<and> map_option isSafeTarget (buildTargetUrl sample_platform sample_json_request) = Some True
   \<and> upstreamHeaders sample_json_request = Some [(''content-type'', ''application/json'')]
   \<and> toUpperCase (req_method sample_json_request) = ''POST''
   \<and> req_body sample_json_request = Some ''{}''
   \<and> declares_json sample_json_request
   \<and> JSON_parse sample_platform ''{}'' = Some (JObj [])
   \<and> JSON_stringify sample_platform (JObj []) = ''{}''"
  by code_simp

lemma sample_text_json_facts:
  "str_includes (toLowerCase ''text/json'') ''json''
   \<and> req_contentType sample_text_json_request = Some ''text/json''
   \<and> req_body sample_text_json_request = Some ''{''
   \<and> JSON_parse sample_platform ''{'' = None
   \<and> relay sample_platform (Some sample_text_json_request)
       = Forwards \<lparr> fetch_url = sample_target, fetch_method = ''POST'',
                    fetch_headers = [(''content-type'', ''text/json'')],
                    fetch_body = Some ''{'', fetch_redirect = ''manual'' \<rparr>"
  by code_simp

text \<open>
  C4, as amended.  For a request that passes the schema, the URL builder, the guard and the
  header copy, with a method other than \<^verbatim>\<open>GET\<close> and \<^verbatim>\<open>HEAD\<close> and a non-empty body: when the
  content type of the request (in lower case) contains \<^verbatim>\<open>application/json\<close> and the body
  parses as JSON, the upstream call carries the parsed value serialized again; when the
  content type does not contain \<^verbatim>\<open>application/json\<close>, the upstream call carries the body text
  as it is.
\<close>

theorem body_coerced_or_literal:
  assumes "relayRequestSchema P r" "buildTargetUrl P r = Some u" "isSafeTarget u"
    and "upstreamHeaders r = Some hs"
    and "toUpperCase (req_method r) \<noteq> ''GET''" "toUpperCase (req_method r) \<noteq> ''HEAD''"
    and "req_body r = Some b" "b \<noteq> []"
  shows "(declares_json r \<and> JSON_parse P b = Some j \<longrightarrow>
            relay P (Some r)
              = Forwards \<lparr> fetch_url = href u, fetch_method = toUpperCase (req_method r),
                           fetch_headers = hs, fetch_body = Some (JSON_stringify P j),
                           fetch_redirect = ''manual'' \<rparr>)
         \<and> (\<not> declares_json r \<longrightarrow>
              relay P (Some r)
                = Forwards \<lparr> fetch_url = href u, fetch_method = toUpperCase (req_method r),
                             fetch_headers = hs, fetch_body = Some b,
                             fetch_redirect = ''manual'' \<rparr>)"
  using assms
  by (simp add: relay_def coerceBody_def declares_json_def Let_def)

theorem body_coerced_or_literal_witness:
  "relayRequestSchema sample_platform sample_json_request
   \<and> declares_json sample_json_request
   \<and> JSON_parse sample_platform ''{}'' = Some (JObj [])
   \<and> relay sample_platform (Some sample_json_request)
       = Forwards \<lparr> fetch_url = sample_target, fetch_method = ''POST'',
                    fetch_headers = [(''content-type'', ''application/json'')],
                    fetch_body = Some ''{}'', fetch_redirect = ''manual'' \<rparr>"
proof -
  from sample_json_facts obtain u
    where u: "buildTargetUrl sample_platform sample_json_request = Some u"
      "href u = sample_target" "isSafeTarget u"
    by auto
  from sample_json_facts have h:
    "relayRequestSchema sample_platform sample_json_request"
    "upstreamHeaders sample_json_request = Some [(''content-type'', ''application/json'')]"
    "toUpperCase (req_method sample_json_request) \<noteq> ''GET''"
    "toUpperCase (req_method sample_json_request) \<noteq> ''HEAD''"
    "req_body sample_json_request = Some ''{}''"
    by simp_all
  have ne: "''{}'' \<noteq> ([] :: string)" by simp
  from body_coerced_or_literal [OF h(1) u(1) u(3) h(2) h(3) h(4) h(5) ne, of "JObj []"]
    sample_json_facts u(2)
  show ?thesis by simp
qed

text \<open>
  C4 as stated fails: the content type \<^verbatim>\<open>text/json\<close> of \<open>sample_text_json_request\<close> contains
  \<^verbatim>\<open>json\<close> and its body \<^verbatim>\<open>{\<close> is not JSON, yet the handler neither parses the body nor
  answers with an error: the upstream call carries the body text as it is.
\<close>

theorem json_like_content_type_not_parsed:
  "str_includes (toLowerCase ''text/json'') ''json''
   \<and> req_contentType sample_text_json_request = Some ''text/json''
   \<and> req_body sample_text_json_request = Some ''{''
   \<and> JSON_parse sample_platform ''{'' = None
   \<and> relay sample_platform (Some sample_text_json_request)
       = Forwards \<lparr> fetch_url = sample_target, fetch_method = ''POST'',
                    fetch_headers = [(''content-type'', ''text/json'')],
                    fetch_body = Some ''{'', fetch_redirect = ''manual'' \<rparr>"
  using sample_text_json_facts by simp

text \<open>Where the content type contains \<^verbatim>\<open>application/json\<close> and the body does not parse, the
  \<^verbatim>\<open>SyntaxError\<close> of \<^verbatim>\<open>JSON.parse\<close> leaves the handler: no \<^verbatim>\<open>try\<close> encloses \<^verbatim>\<open>coerceBody\<close>.\<close>

lemma unparsable_json_body_throws:
  assumes "relayRequestSchema P r" "buildTargetUrl P r = Some u" "isSafeTarget u"
    and "upstreamHeaders r = Some hs"
    and "toUpperCase (req_method r) \<noteq> ''GET''" "toUpperCase (req_method r) \<noteq> ''HEAD''"
    and "req_body r = Some b" "b \<noteq> []" "declares_json r" "JSON_parse P b = None"
  shows "relay P (Some r) = Throws SyntaxError"
  using assms
  by (simp add: relay_def coerceBody_def declares_json_def Let_def)

section \<open>Properties of the state codec\<close>

lemma b64_value_char: "n < 64 \<Longrightarrow> b64_value (b64_char n) = Some n"
  by (auto simp: b64_value_def b64_char_def is_upper_def is_lower_def is_digit_def code_def)

lemma b64_char_plain:
  assumes "n < 64"
  shows "b64_char n \<noteq> CHR ''=''" "b64_char n \<noteq> CHR ''-''" "b64_char n \<noteq> CHR ''_''"
    "\<not> is_ascii_whitespace (b64_char n)"
proof -
  from b64_value_char [OF assms] have v: "b64_value (b64_char n) \<noteq> None" by simp
  have "b64_value CHR ''='' = None" "b64_value CHR ''-'' = None" "b64_value CHR ''_'' = None"
    by (simp_all add: b64_value_def is_upper_def is_lower_def is_digit_def code_def)
  with v show "b64_char n \<noteq> CHR ''=''" "b64_char n \<noteq> CHR ''-''" "b64_char n \<noteq> CHR ''_''"
    by auto
  have "\<And>c. is_ascii_whitespace c \<Longrightarrow> b64_value c = None"
    by (auto simp: b64_value_def is_ascii_whitespace_def is_upper_def is_lower_def is_digit_def
                   code_def)
  with v show "\<not> is_ascii_whitespace (b64_char n)" by auto
qed

lemma sextet_bounds:
  fixes a b c :: nat
  assumes "a < 256" "b < 256" "c < 256"
  shows "a mod 4 * 16 + b div 16 < 64" "b mod 16 * 4 + c div 64 < 64" "a div 4 < 64"
    "c mod 64 < 64" "b mod 16 * 4 < 64" "a mod 4 * 16 < 64"
proof -
  from assms have "b div 16 < 16" "c div 64 < 4" "a div 4 < 64" by simp_all
  moreover have "a mod 4 < 4" "b mod 16 < 16" by simp_all
  ultimately show "a mod 4 * 16 + b div 16 < 64" "b mod 16 * 4 + c div 64 < 64"
    "a div 4 < 64" "c mod 64 < 64" "b mod 16 * 4 < 64" "a mod 4 * 16 < 64"
    by linarith+
qed

lemma sextets_first:
  fixes a b :: nat
  assumes "b < 256"
  shows "a div 4 * 4 + (a mod 4 * 16 + b div 16) div 16 = a"
proof -
  from assms have "b div 16 < 16" by simp
  then show ?thesis by simp
qed

lemma sextets_second:
  fixes a b c :: nat
  assumes "b < 256" "c < 256"
  shows "(a mod 4 * 16 + b div 16) mod 16 * 16 + (b mod 16 * 4 + c div 64) div 4 = b"
proof -
  from assms have "b div 16 < 16" "c div 64 < 4" by simp_all
  then show ?thesis by simp
qed

lemma sextets_third:
  fixes b c :: nat
  assumes "c < 256"
  shows "(b mod 16 * 4 + c div 64) mod 4 * 64 + c mod 64 = c"
proof -
  from assms have "c div 64 < 4" by simp
  then show ?thesis by simp
qed

lemma sextets_second_last:
  fixes a b :: nat
  assumes "b < 256"
  shows "(a mod 4 * 16 + b div 16) mod 16 * 16 + b mod 16 * 4 div 4 = b"
proof -
  from assms have "b div 16 < 16" by simp
  then show ?thesis by simp
qed

lemma sextets_first_last:
  fixes a :: nat
  shows "a div 4 * 4 + a mod 4 * 16 div 16 = a"
  by simp

lemma b64_values_bound: "list_all (\<lambda>v. v < 64) (b64_values bs)"
proof (induction bs rule: b64_values.induct)
  case 1
  then show ?case by simp
next
  case (2 a)
  from sextet_bounds [where a = "code a" and b = 0 and c = 0] show ?case by simp
next
  case (3 a b)
  from sextet_bounds [where a = "code a" and b = "code b" and c = 0] show ?case by simp
next
  case (4 a b c rest)
  from sextet_bounds [where a = "code a" and b = "code b" and c = "code c"] 4
  show ?case by simp
qed

lemma char_of_code: "char_of (code c) = c"
  by (simp add: code_def)

lemma b64_bytes_values: "b64_bytes (b64_values bs) = bs"
proof (induction bs rule: b64_values.induct)
  case 1
  then show ?case by simp
next
  case (2 a)
  have "char_of (code a div 4 * 4 + code a mod 4 * 16 div 16) = a"
    by (simp only: sextets_first_last char_of_code)
  then show ?case by (simp only: b64_values.simps b64_bytes.simps)
next
  case (3 a b)
  have "code a div 4 * 4 + (code a mod 4 * 16 + code b div 16) div 16 = code a"
    "(code a mod 4 * 16 + code b div 16) mod 16 * 16 + code b mod 16 * 4 div 4 = code b"
    by (rule sextets_first, rule code_less_256, rule sextets_second_last, rule code_less_256)
  then have "char_of (code a div 4 * 4 + (code a mod 4 * 16 + code b div 16) div 16) = a"
    "char_of ((code a mod 4 * 16 + code b div 16) mod 16 * 16 + code b mod 16 * 4 div 4) = b"
    by (simp_all only: char_of_code)
  then show ?case by (simp only: b64_values.simps b64_bytes.simps)
next
  case (4 a b c rest)
  have "code a div 4 * 4 + (code a mod 4 * 16 + code b div 16) div 16 = code a"
    "(code a mod 4 * 16 + code b div 16) mod 16 * 16
       + (code b mod 16 * 4 + code c div 64) div 4 = code b"
    "(code b mod 16 * 4 + code c div 64) mod 4 * 64 + code c mod 64 = code c"
    by (rule sextets_first, rule code_less_256, rule sextets_second, rule code_less_256,
        rule code_less_256, rule sextets_third, rule code_less_256)
  then have "char_of (code a div 4 * 4 + (code a mod 4 * 16 + code b div 16) div 16) = a"
    "char_of ((code a mod 4 * 16 + code b div 16) mod 16 * 16
       + (code b mod 16 * 4 + code c div 64) div 4) = b"
    "char_of ((code b mod 16 * 4 + code c div 64) mod 4 * 64 + code c mod 64) = c"
    by (simp_all only: char_of_code)
  with 4 show ?case by (simp only: b64_values.simps b64_bytes.simps append.simps)
qed

lemma length_b64_values:
  "length (b64_values bs) mod 4
     = (if length bs mod 3 = 0 then 0 else if length bs mod 3 = 1 then 2 else 3)"
  by (induction bs rule: b64_values.induct) (simp_all add: mod_Suc)

lemma b64_text_plain:
  assumes "c \<in> set (map b64_char (b64_values bs))"
  shows "c \<noteq> CHR ''=''" "c \<noteq> CHR ''-''" "c \<noteq> CHR ''_''" "\<not> is_ascii_whitespace c"
    "b64_value c \<noteq> None"
proof -
  from assms obtain n where n: "n \<in> set (b64_values bs)" "c = b64_char n" by auto
  with b64_values_bound [of bs] have "n < 64" by (auto simp: list_all_iff)
  with n b64_char_plain [of n] b64_value_char [of n]
  show "c \<noteq> CHR ''=''" "c \<noteq> CHR ''-''" "c \<noteq> CHR ''_''" "\<not> is_ascii_whitespace c"
    "b64_value c \<noteq> None"
    by simp_all
qed

lemma b64_text_values:
  "map (\<lambda>c. the (b64_value c)) (map b64_char (b64_values bs)) = b64_values bs"
proof -
  have "\<And>n. n \<in> set (b64_values bs) \<Longrightarrow> the (b64_value (b64_char n)) = n"
    using b64_values_bound [of bs] by (auto simp: list_all_iff b64_value_char)
  then show ?thesis by (simp add: map_idI)
qed

lemma set_replace_char: "c \<in> set (replace_char x y s) \<Longrightarrow> c = y \<or> c \<in> set s"
  by (auto simp: replace_char_def split: if_splits)

lemma replace_char_back: "y \<notin> set s \<Longrightarrow> replace_char y x (replace_char x y s) = s"
  by (induction s) (auto simp: replace_char_def)

lemma replace_char_absent: "x \<notin> set s \<Longrightarrow> replace_char x y s = s"
  by (induction s) (auto simp: replace_char_def)

lemma replace_char_append:
  "replace_char x y (s @ t) = replace_char x y s @ replace_char x y t"
  by (simp add: replace_char_def)

lemma replace_char_padding:
  "x \<noteq> CHR ''='' \<Longrightarrow> replace_char x y (replicate k CHR ''='') = replicate k CHR ''=''"
  by (simp add: replace_char_def)

lemma strip_padding_append:
  assumes "\<And>c. c \<in> set x \<Longrightarrow> c \<noteq> CHR ''=''"
  shows "strip_padding (x @ replicate k CHR ''='') = x"
proof -
  have "dropWhile (\<lambda>c. c = CHR ''='') (replicate k CHR ''='' @ rev x) = rev x"
  proof (induction k)
    case 0
    from assms show ?case by (cases "rev x") (auto simp: dropWhile_eq_self_iff)
  next
    case (Suc k)
    then show ?case by simp
  qed
  then show ?thesis by (simp add: strip_padding_def)
qed

lemma encodeBase64Url_text:
  "encodeBase64Url bs
     = replace_char CHR ''/'' CHR ''_''
         (replace_char CHR ''+'' CHR ''-'' (map b64_char (b64_values bs)))"
proof -
  let ?x = "replace_char CHR ''/'' CHR ''_''
              (replace_char CHR ''+'' CHR ''-'' (map b64_char (b64_values bs)))"
  have ne: "\<And>c. c \<in> set ?x \<Longrightarrow> c \<noteq> CHR ''=''"
  proof -
    fix c
    assume "c \<in> set ?x"
    from set_replace_char [OF this]
    have "c = CHR ''_'' \<or> c \<in> set (replace_char CHR ''+'' CHR ''-'' (map b64_char (b64_values bs)))" .
    then have "c = CHR ''_'' \<or> c = CHR ''-'' \<or> c \<in> set (map b64_char (b64_values bs))"
      using set_replace_char by fastforce
    with b64_text_plain(1) [of c bs] show "c \<noteq> CHR ''=''" by auto
  qed
  have "encodeBase64Url bs = strip_padding (?x @ replicate ((3 - length bs mod 3) mod 3) CHR ''='')"
    by (simp add: encodeBase64Url_def btoa_def replace_char_append replace_char_padding)
  also have "\<dots> = ?x"
    using ne by (rule strip_padding_append)
  finally show ?thesis .
qed

lemma url_alphabet_back:
  "replace_char CHR ''_'' CHR ''/''
     (replace_char CHR ''-'' CHR ''+'' (encodeBase64Url bs))
     = map b64_char (b64_values bs)"
proof -
  let ?t = "map b64_char (b64_values bs)"
  let ?p = "replace_char CHR ''+'' CHR ''-'' ?t"
  have m: "CHR ''-'' \<notin> set ?t" "CHR ''_'' \<notin> set ?t"
    using b64_text_plain(2,3) [of _ bs] by blast+
  have u: "CHR ''_'' \<notin> set ?p"
    using set_replace_char [of "CHR ''_''" "CHR ''+''" "CHR ''-''" ?t] m(2) by auto
  have "CHR ''-'' \<notin> set (replace_char CHR ''_'' CHR ''/'' (replace_char CHR ''/'' CHR ''_'' ?p))
        \<or> True" by simp
  have a: "replace_char CHR ''_'' CHR ''/'' (replace_char CHR ''/'' CHR ''_'' ?p) = ?p"
    using u by (rule replace_char_back)
  have swap: "replace_char CHR ''_'' CHR ''/'' (replace_char CHR ''-'' CHR ''+'' s)
        = replace_char CHR ''-'' CHR ''+'' (replace_char CHR ''_'' CHR ''/'' s)" for s
    by (induction s) (auto simp: replace_char_def)
  have "replace_char CHR ''_'' CHR ''/'' (replace_char CHR ''-'' CHR ''+'' (encodeBase64Url bs))
          = replace_char CHR ''-'' CHR ''+''
              (replace_char CHR ''_'' CHR ''/'' (replace_char CHR ''/'' CHR ''_'' ?p))"
    by (simp only: encodeBase64Url_text swap)
  also have "\<dots> = replace_char CHR ''-'' CHR ''+'' ?p" by (simp only: a)
  also have "\<dots> = ?t" using m(1) by (rule replace_char_back)
  finally show ?thesis .
qed
lemma starts_with_rev_padding:
  assumes "CHR ''='' \<notin> set t"
  shows "\<not> starts_with (rev t) (CHR ''='' # p)"
proof (cases "rev t")
  case Nil
  then show ?thesis by simp
next
  case (Cons c cs)
  then have "c \<in> set (rev t)" by simp
  with assms have "c \<noteq> CHR ''=''" by auto
  with Cons show ?thesis by simp
qed

lemma atob_padded:
  assumes eq: "CHR ''='' \<notin> set t"
    and ws: "\<And>c. c \<in> set t \<Longrightarrow> \<not> is_ascii_whitespace c"
    and ok: "\<And>c. c \<in> set t \<Longrightarrow> b64_value c \<noteq> None"
    and len: "length t mod 4 \<noteq> 1"
  shows "atob (t @ drop ((length t + 3) mod 4) ''==='')
           = Some (b64_bytes (map (\<lambda>c. the (b64_value c)) t))"
proof -
  have nws: "\<not> is_ascii_whitespace CHR ''=''" by (simp add: is_ascii_whitespace_def code_def)
  have f: "filter (\<lambda>c. \<not> is_ascii_whitespace c) t = t"
    using ws by (simp add: filter_id_conv)
  have ex: "\<not> list_ex (\<lambda>c. b64_value c = None) t"
    using ok by (auto simp: list_ex_iff)
  have e1: "\<not> starts_with (rev t) ''=''" "\<not> starts_with (rev t) ''==''"
    using eq by (rule starts_with_rev_padding)+
  from len have "length t mod 4 = 0 \<or> length t mod 4 = 2 \<or> length t mod 4 = 3" by arith
  then show ?thesis
  proof (elim disjE)
    assume m: "length t mod 4 = 0"
    then have "(length t + 3) mod 4 = 3" by presburger
    then have p: "t @ drop ((length t + 3) mod 4) ''==='' = t" by simp
    show ?thesis
      unfolding p using m e1 ex by (simp add: atob_def f endsWith_def Let_def)
  next
    assume m: "length t mod 4 = 2"
    then have "(length t + 3) mod 4 = 1" by presburger
    then have p: "t @ drop ((length t + 3) mod 4) ''==='' = t @ ''==''" by simp
    from m have l: "(Suc (Suc (length t))) mod 4 = 0" by presburger
    show ?thesis
      unfolding p using m l ex nws by (simp add: atob_def f endsWith_def Let_def)
  next
    assume m: "length t mod 4 = 3"
    then have "(length t + 3) mod 4 = 2" by presburger
    then have p: "t @ drop ((length t + 3) mod 4) ''==='' = t @ ''=''" by simp
    from m have l: "(Suc (length t)) mod 4 = 0" by presburger
    show ?thesis
      unfolding p using m l e1 ex nws by (simp add: atob_def f endsWith_def Let_def)
  qed
qed

lemma decodeBase64Url_encodeBase64Url: "decodeBase64Url (encodeBase64Url bs) = Some bs"
proof -
  let ?t = "map b64_char (b64_values bs)"
  have len: "length ?t mod 4 \<noteq> 1"
    using length_b64_values [of bs] by (simp split: if_splits)
  have eq: "CHR ''='' \<notin> set ?t" using b64_text_plain(1) [of _ bs] by blast
  have "decodeBase64Url (encodeBase64Url bs) = atob (?t @ drop ((length ?t + 3) mod 4) ''==='')"
    by (simp only: decodeBase64Url_def url_alphabet_back Let_def)
  also have "\<dots> = Some (b64_bytes (map (\<lambda>c. the (b64_value c)) ?t))"
    using eq b64_text_plain(4) b64_text_plain(5) len by (rule atob_padded)
  also have "\<dots> = Some bs"
    by (simp only: b64_text_values b64_bytes_values)
  finally show ?thesis .
qed

lemma record_round:
  assumes "no_proto_key r"
  shows "record_or_empty (Some (record_to_json r)) = r"
proof -
  have "list_all (\<lambda>(k, x). json_string x \<noteq> None) (map (\<lambda>(k, v). (k, JStr v)) r)"
    by (induction r) auto
  moreover from assms
  have "map (\<lambda>(k, x). (k, the (json_string x)))
          (filter (\<lambda>(k, x). k \<noteq> ''__proto__'') (map (\<lambda>(k, v). (k, JStr v)) r)) = r"
    by (induction r) (auto simp: no_proto_key_def)
  ultimately show ?thesis
    by (simp add: record_or_empty_def zod_string_record_def record_to_json_def)
qed

lemma record_round_only:
  assumes "record_or_empty (Some (record_to_json r)) = r"
  shows "no_proto_key r"
proof -
  have "list_all (\<lambda>(k, x). json_string x \<noteq> None) (map (\<lambda>(k, v). (k, JStr v)) r)"
    by (induction r) auto
  with assms
  have "map (\<lambda>(k, x). (k, the (json_string x)))
          (filter (\<lambda>(k, x). k \<noteq> ''__proto__'') (map (\<lambda>(k, v). (k, JStr v)) r)) = r"
    by (simp add: record_or_empty_def zod_string_record_def record_to_json_def)
  then have "map fst (map (\<lambda>(k, x). (k, the (json_string x)))
               (filter (\<lambda>(k, x). k \<noteq> ''__proto__'') (map (\<lambda>(k, v). (k, JStr v)) r)))
             = map fst r"
    by (rule arg_cong)
  moreover have "map fst (map (\<lambda>(k, x). (k, the (json_string x))) xs) = map fst xs"
    for xs :: "(string \<times> json) list"
    by (induction xs) auto
  ultimately
  have "map fst (filter (\<lambda>(k, x). k \<noteq> ''__proto__'') (map (\<lambda>(k, v). (k, JStr v)) r))
               = map fst r"
    by (simp only:)
  moreover have "''__proto__'' \<notin> set (map fst (filter (\<lambda>(k, x). k \<noteq> ''__proto__'')
                    (map (\<lambda>(k, v). (k, JStr v)) r)))"
    by auto
  ultimately have "''__proto__'' \<notin> set (map fst r)" by (simp only: not_False_eq_True)
  then show ?thesis by (simp add: no_proto_key_def)
qed

lemma schema_accepts_state:
  assumes "satisfies_schema P st"
  shows "appStateSchema P (state_to_json st) = Some st"
proof -
  from assms have b: "url_or_empty P (Some (JStr (baseUrl st))) = baseUrl st"
    by (auto simp: satisfies_schema_def url_or_empty_def)
  from assms have s: "optional_url P (map_option JStr (specUrl st)) = specUrl st"
    by (cases "specUrl st") (auto simp: satisfies_schema_def optional_url_def)
  have o: "string_or_undefined (map_option JStr (operationKey st)) = operationKey st"
    by (cases "operationKey st") auto
  from assms have r: "record_or_empty (Some (record_to_json (pathParams st))) = pathParams st"
    "record_or_empty (Some (record_to_json (queryParams st))) = queryParams st"
    "record_or_empty (Some (record_to_json (headerParams st))) = headerParams st"
    by (simp_all add: satisfies_schema_def record_round)
  show ?thesis
    using b s o r
    by (cases "specUrl st"; cases "operationKey st")
      (simp_all add: appStateSchema_def state_to_json_def optional_entry_def state_keys_def
        string_or_default_def)
qed

text \<open>The states that satisfy the schema are those the schema returns as they are.\<close>

lemma satisfies_schema_iff:
  "satisfies_schema P st = (appStateSchema P (state_to_json st) = Some st)"
proof
  assume "satisfies_schema P st"
  then show "appStateSchema P (state_to_json st) = Some st" by (rule schema_accepts_state)
next
  assume a: "appStateSchema P (state_to_json st) = Some st"
  define res where "res = the (appStateSchema P (state_to_json st))"
  with a have e: "res = st" by simp
  have f: "baseUrl res = url_or_empty P (Some (JStr (baseUrl st)))"
    "specUrl res = optional_url P (map_option JStr (specUrl st))"
    "pathParams res = record_or_empty (Some (record_to_json (pathParams st)))"
    "queryParams res = record_or_empty (Some (record_to_json (queryParams st)))"
    "headerParams res = record_or_empty (Some (record_to_json (headerParams st)))"
    unfolding res_def
    by (cases "specUrl st"; cases "operationKey st";
        simp add: appStateSchema_def state_to_json_def optional_entry_def state_keys_def)+
  from f(1) e have "baseUrl st = [] \<or> zod_url P (baseUrl st)"
    by (auto simp: url_or_empty_def split: if_splits)
  moreover from f(2) e have "case specUrl st of None \<Rightarrow> True | Some u \<Rightarrow> zod_url P u"
    by (cases "specUrl st") (auto simp: optional_url_def split: if_splits)
  moreover from f(3-5) e have "no_proto_key (pathParams st)" "no_proto_key (queryParams st)"
    "no_proto_key (headerParams st)"
    by (auto intro: record_round_only)
  ultimately show "satisfies_schema P st" by (simp add: satisfies_schema_def)
qed

text \<open>A property named \<^verbatim>\<open>__proto__\<close> does not come back from the schema.\<close>

lemma proto_key_left_out:
  "appStateSchema state_platform (state_to_json sample_proto_state)
     = Some (sample_proto_state \<lparr> pathParams := [(''a'', ''1'')] \<rparr>)"
  by (simp add: appStateSchema_def state_to_json_def optional_entry_def state_keys_def
      sample_proto_state_def sample_state_def state_platform_def sample_platform_def
      url_or_empty_def optional_url_def string_or_default_def record_or_empty_def
      zod_string_record_def record_to_json_def)

lemma spread_state_default: "spread_state defaultAppState st = st"
  by (cases "specUrl st"; cases "operationKey st") (simp_all add: spread_state_def defaultAppState_def)

lemma encodeBase64Url_empty: "encodeBase64Url bs = [] \<Longrightarrow> bs = []"
proof -
  assume "encodeBase64Url bs = []"
  then have "decodeBase64Url (encodeBase64Url bs) = decodeBase64Url []" by simp
  then have "Some bs = decodeBase64Url []" by (simp only: decodeBase64Url_encodeBase64Url)
  moreover have "decodeBase64Url [] = Some []" by code_simp
  ultimately show ?thesis by simp
qed


lemma decode_of_encode:
  "decodeStateFromSearchParam P Z (Some (encodeStateToSearchParam P Z st))
     = (let bytes = compressed_state P Z st in
        if bytes = [] then defaultAppState
        else if int (length bytes) > MAX_STATE_BYTES then defaultAppState
        else (case inflate Z bytes of
                None \<Rightarrow> defaultAppState
              | Some inflated \<Rightarrow>
                  (case JSON_parse P inflated of
                     None \<Rightarrow> defaultAppState
                   | Some parsed \<Rightarrow>
                       (case appStateSchema P parsed of
                          Some res \<Rightarrow> spread_state defaultAppState res
                        | None \<Rightarrow> defaultAppState))))"
proof (cases "compressed_state P Z st = []")
  case True
  then have "encodeStateToSearchParam P Z st = []"
    by (simp add: encodeStateToSearchParam_def compressed_state_def encodeBase64Url_text replace_char_def)
  with True show ?thesis by (simp add: decodeStateFromSearchParam_def)
next
  case False
  then have "encodeStateToSearchParam P Z st \<noteq> []"
    using encodeBase64Url_empty [of "compressed_state P Z st"]
    by (auto simp: encodeStateToSearchParam_def compressed_state_def)
  moreover have "decodeBase64Url (encodeStateToSearchParam P Z st) = Some (compressed_state P Z st)"
    by (simp add: encodeStateToSearchParam_def compressed_state_def decodeBase64Url_encodeBase64Url)
  ultimately show ?thesis using False
    by (simp add: decodeStateFromSearchParam_def Let_def)
qed

lemma geometric_sum_less: "(\<Sum>i\<le>n. (256::nat) ^ i) < 256 ^ Suc n"
  by (induction n) simp_all

lemma no_injection_into_shorter_strings:
  fixes f :: "string \<Rightarrow> string"
  assumes less: "n < m"
    and inj: "inj_on f {b. length b = m}"
    and short: "\<And>b. length b = m \<Longrightarrow> length (f b) \<le> n"
  shows False
proof -
  have a: "card {b :: string. length b = m} = 256 ^ m"
    using card_lists_length_eq [of "UNIV :: char set" m] by (simp add: card_UNIV_char)
  have b: "card {b :: string. length b \<le> n} = (\<Sum>i\<le>n. 256 ^ i)"
    using card_lists_length_le [of "UNIV :: char set" n] by (simp add: card_UNIV_char)
  have fin: "finite {b :: string. length b \<le> n}"
    using finite_lists_length_le [of "UNIV :: char set" n] by simp
  have "f ` {b. length b = m} \<subseteq> {b. length b \<le> n}"
    using short by auto
  from inj this fin have "card {b :: string. length b = m} \<le> card {b :: string. length b \<le> n}"
    by (rule card_inj_on_le)
  with a b have "(256::nat) ^ m \<le> (\<Sum>i\<le>n. 256 ^ i)" by simp
  also have "\<dots> < 256 ^ Suc n" by (rule geometric_sum_less)
  also from less have "(256::nat) ^ Suc n \<le> 256 ^ m"
    by (intro power_increasing) simp_all
  finally show False by simp
qed

lemma decode_oversized:
  assumes "decodeBase64Url s = Some bytes" "MAX_STATE_BYTES < int (length bytes)"
  shows "decodeStateFromSearchParam P Z (Some s) = defaultAppState"
  using assms by (simp add: decodeStateFromSearchParam_def)

lemma decode_invalid:
  assumes "decodeBase64Url s = Some bytes" "inflate Z bytes = Some inflated"
    "JSON_parse P inflated = Some parsed" "appStateSchema P parsed = None"
  shows "decodeStateFromSearchParam P Z (Some s) = defaultAppState"
  using assms by (simp add: decodeStateFromSearchParam_def)

text \<open>C9 (amended): a state that satisfies the schema (so none of its records has a property
  named \<^verbatim>\<open>__proto__\<close>) comes back exactly from
  \<^verbatim>\<open>decodeStateFromSearchParam (encodeStateToSearchParam state)\<close> when its JSON text is read back
  by \<^verbatim>\<open>JSON.parse\<close>, its compressed bytes are inflated to that text, and these bytes are at
  least one and at most 20000; and decoding gives the default state when the decoded bytes
  are more than 20000 or the parsed value fails the schema.\<close>

theorem state_round_trip_within_limit:
  assumes "satisfies_schema P st"
    and "JSON_parse P (JSON_stringify P (state_to_json st)) = Some (state_to_json st)"
    and "inflate Z (compressed_state P Z st) = Some (JSON_stringify P (state_to_json st))"
    and "compressed_state P Z st \<noteq> []"
    and "int (length (compressed_state P Z st)) \<le> MAX_STATE_BYTES"
  shows "decodeStateFromSearchParam P Z (Some (encodeStateToSearchParam P Z st)) = st
    \<and> (\<forall>s bytes. decodeBase64Url s = Some bytes \<and> MAX_STATE_BYTES < int (length bytes)
          \<longrightarrow> decodeStateFromSearchParam P Z (Some s) = defaultAppState)
    \<and> (\<forall>s bytes inflated parsed.
          decodeBase64Url s = Some bytes \<and> inflate Z bytes = Some inflated
          \<and> JSON_parse P inflated = Some parsed \<and> appStateSchema P parsed = None
          \<longrightarrow> decodeStateFromSearchParam P Z (Some s) = defaultAppState)"
proof (intro conjI allI impI)
  from assms(1) have "appStateSchema P (state_to_json st) = Some st"
    by (rule schema_accepts_state)
  with assms(2-5)
  show "decodeStateFromSearchParam P Z (Some (encodeStateToSearchParam P Z st)) = st"
    by (simp add: decode_of_encode spread_state_default)
next
  fix s bytes
  assume "decodeBase64Url s = Some bytes \<and> MAX_STATE_BYTES < int (length bytes)"
  then show "decodeStateFromSearchParam P Z (Some s) = defaultAppState"
    by (simp add: decode_oversized)
next
  fix s bytes inflated parsed
  assume "decodeBase64Url s = Some bytes \<and> inflate Z bytes = Some inflated
          \<and> JSON_parse P inflated = Some parsed \<and> appStateSchema P parsed = None"
  then show "decodeStateFromSearchParam P Z (Some s) = defaultAppState"
    using decode_invalid by blast
qed

lemma sample_compressed:
  "compressed_state state_platform sample_pako sample_state = CHR ''x'' # sample_state_text"
  by (simp add: compressed_state_def state_platform_def sample_pako_def)

theorem state_round_trip_within_limit_witness:
  "satisfies_schema state_platform sample_state
   \<and> compressed_state state_platform sample_pako sample_state = CHR ''x'' # sample_state_text
   \<and> int (length (CHR ''x'' # sample_state_text)) \<le> MAX_STATE_BYTES
   \<and> decodeStateFromSearchParam state_platform sample_pako
        (Some (encodeStateToSearchParam state_platform sample_pako sample_state))
       = sample_state
   \<and> decodeStateFromSearchParam state_platform sample_pako
        (Some (encodeBase64Url (replicate 20001 CHR ''x''))) = defaultAppState
   \<and> decodeBase64Url ''eFtd'' = Some ''x[]''
   \<and> decodeStateFromSearchParam state_platform sample_pako (Some ''eFtd'') = defaultAppState"
proof -
  have sat: "satisfies_schema state_platform sample_state"
    by (simp add: satisfies_schema_def no_proto_key_def state_platform_def sample_platform_def
        sample_state_def)
  have json: "JSON_parse state_platform (JSON_stringify state_platform (state_to_json sample_state))
                = Some (state_to_json sample_state)"
    by (simp add: state_platform_def)
  have infl: "inflate sample_pako (compressed_state state_platform sample_pako sample_state)
                = Some (JSON_stringify state_platform (state_to_json sample_state))"
    by (simp add: compressed_state_def sample_pako_def)
  have ne: "compressed_state state_platform sample_pako sample_state \<noteq> []"
    by (simp add: sample_compressed)
  have len: "int (length (CHR ''x'' # sample_state_text)) \<le> MAX_STATE_BYTES"
    by (simp add: sample_state_text_def quoted_def MAX_STATE_BYTES_def)
  then have len': "int (length (compressed_state state_platform sample_pako sample_state))
                     \<le> MAX_STATE_BYTES"
    by (simp only: sample_compressed)
  note r = state_round_trip_within_limit [OF sat json infl ne len']
  have big: "decodeBase64Url (encodeBase64Url (replicate 20001 CHR ''x''))
               = Some (replicate 20001 CHR ''x'')
             \<and> MAX_STATE_BYTES < int (length (replicate 20001 CHR ''x''))"
    by (simp only: decodeBase64Url_encodeBase64Url length_replicate MAX_STATE_BYTES_def) simp
  have d: "decodeBase64Url ''eFtd'' = Some ''x[]''" by code_simp
  have bad: "decodeBase64Url ''eFtd'' = Some ''x[]''
             \<and> inflate sample_pako ''x[]'' = Some ''[]''
             \<and> JSON_parse state_platform ''[]'' = Some (JArr [])
             \<and> appStateSchema state_platform (JArr []) = None"
    using d
    by (simp add: sample_pako_def state_platform_def sample_JSON_parse_def appStateSchema_def
        sample_state_text_def quoted_def)
  from r have r1: "decodeStateFromSearchParam state_platform sample_pako
        (Some (encodeStateToSearchParam state_platform sample_pako sample_state)) = sample_state"
    by (rule conjunct1)
  from r big have r2: "decodeStateFromSearchParam state_platform sample_pako
        (Some (encodeBase64Url (replicate 20001 CHR ''x''))) = defaultAppState"
    by blast
  from r bad have r3: "decodeStateFromSearchParam state_platform sample_pako (Some ''eFtd'')
        = defaultAppState"
    by blast
  from sat sample_compressed len r1 r2 d r3 show ?thesis by (intro conjI)
qed

lemma decode_through_bytes:
  obtains G where
    "\<And>st. decodeStateFromSearchParam P Z (Some (encodeStateToSearchParam P Z st))
            = G (compressed_state P Z st)"
    "\<And>bytes. int (length bytes) > MAX_STATE_BYTES \<Longrightarrow> G bytes = defaultAppState"
proof -
  define G where "G bytes =
       (if bytes = [] then defaultAppState
        else if int (length bytes) > MAX_STATE_BYTES then defaultAppState
        else (case inflate Z bytes of
                None \<Rightarrow> defaultAppState
              | Some inflated \<Rightarrow>
                  (case JSON_parse P inflated of
                     None \<Rightarrow> defaultAppState
                   | Some parsed \<Rightarrow>
                       (case appStateSchema P parsed of
                          Some res \<Rightarrow> spread_state defaultAppState res
                        | None \<Rightarrow> defaultAppState))))" for bytes
  have "decodeStateFromSearchParam P Z (Some (encodeStateToSearchParam P Z st))
               = G (compressed_state P Z st)" for st
    by (simp only: decode_of_encode G_def Let_def)
  moreover have "G bytes = defaultAppState" if "int (length bytes) > MAX_STATE_BYTES" for bytes
    using that by (simp add: G_def)
  ultimately show ?thesis by (rule that)
qed

lemma body_state_inject:
  "defaultAppState \<lparr> bodyJson := b \<rparr> = defaultAppState \<lparr> bodyJson := b' \<rparr> \<Longrightarrow> b = b'"
proof -
  assume "defaultAppState \<lparr> bodyJson := b \<rparr> = defaultAppState \<lparr> bodyJson := b' \<rparr>"
  then have "bodyJson (defaultAppState \<lparr> bodyJson := b \<rparr>)
             = bodyJson (defaultAppState \<lparr> bodyJson := b' \<rparr>)" by (rule arg_cong)
  then show ?thesis by simp
qed

lemma body_state_default: "defaultAppState \<lparr> bodyJson := b \<rparr> = defaultAppState \<Longrightarrow> b = []"
proof -
  assume "defaultAppState \<lparr> bodyJson := b \<rparr> = defaultAppState"
  then have "bodyJson (defaultAppState \<lparr> bodyJson := b \<rparr>) = bodyJson defaultAppState"
    by (rule arg_cong)
  then show ?thesis by (simp add: defaultAppState_def)
qed

lemma round_trip_fails_at_length:
  assumes limit: "int n = MAX_STATE_BYTES" and less: "n < m"
  shows "\<exists>b. length b = m
     \<and> satisfies_schema P (defaultAppState \<lparr> bodyJson := b \<rparr>)
     \<and> decodeStateFromSearchParam P Z
          (Some (encodeStateToSearchParam P Z (defaultAppState \<lparr> bodyJson := b \<rparr>)))
         \<noteq> defaultAppState \<lparr> bodyJson := b \<rparr>"
proof (rule ccontr)
  assume none: "\<not> ?thesis"
  obtain G where dec: "\<And>st. decodeStateFromSearchParam P Z (Some (encodeStateToSearchParam P Z st))
            = G (compressed_state P Z st)"
    and big: "\<And>bytes. int (length bytes) > MAX_STATE_BYTES \<Longrightarrow> G bytes = defaultAppState"
    by (rule decode_through_bytes [where P = P and Z = Z]) blast
  define c where "c b = compressed_state P Z (defaultAppState \<lparr> bodyJson := b \<rparr>)" for b
  have sat: "satisfies_schema P (defaultAppState \<lparr> bodyJson := b \<rparr>)" for b
    by (simp add: satisfies_schema_def no_proto_key_def defaultAppState_def)
  have same: "G (c b) = defaultAppState \<lparr> bodyJson := b \<rparr>" if l: "length b = m" for b
  proof (rule ccontr)
    assume "G (c b) \<noteq> defaultAppState \<lparr> bodyJson := b \<rparr>"
    then have "decodeStateFromSearchParam P Z
          (Some (encodeStateToSearchParam P Z (defaultAppState \<lparr> bodyJson := b \<rparr>)))
         \<noteq> defaultAppState \<lparr> bodyJson := b \<rparr>"
      by (simp only: dec c_def not_False_eq_True)
    with l sat [of b] none show False by blast
  qed
  have short: "length (c b) \<le> n" if l: "length b = m" for b
  proof (rule ccontr)
    assume "\<not> length (c b) \<le> n"
    with limit have "int (length (c b)) > MAX_STATE_BYTES" by linarith
    then have "G (c b) = defaultAppState" by (rule big)
    with same [OF l] have "defaultAppState \<lparr> bodyJson := b \<rparr> = defaultAppState" by (simp only:)
    then have "b = []" by (rule body_state_default)
    with l less show False by simp
  qed
  have inj: "inj_on c {b. length b = m}"
  proof (rule inj_onI)
    fix b b' :: string
    assume "b \<in> {b. length b = m}" "b' \<in> {b. length b = m}" and e: "c b = c b'"
    then have l: "length b = m" "length b' = m" by simp_all
    from e have "G (c b) = G (c b')" by (rule arg_cong)
    then have "defaultAppState \<lparr> bodyJson := b \<rparr> = defaultAppState \<lparr> bodyJson := b' \<rparr>"
      by (simp only: same [OF l(1)] same [OF l(2)])
    then show "b = b'" by (rule body_state_inject)
  qed
  from less inj short show False by (rule no_injection_into_shorter_strings)
qed

text \<open>Whatever the compression and the JSON functions are, some state with a body of 20001
  bytes (it satisfies the schema) does not come back: the states with such a body are more
  than the byte strings of at most 20000 bytes.\<close>

theorem state_round_trip_fails_beyond_limit:
  "\<forall>P Z. \<exists>b. length b = 20001
     \<and> satisfies_schema P (defaultAppState \<lparr> bodyJson := b \<rparr>)
     \<and> decodeStateFromSearchParam P Z
          (Some (encodeStateToSearchParam P Z (defaultAppState \<lparr> bodyJson := b \<rparr>)))
         \<noteq> defaultAppState \<lparr> bodyJson := b \<rparr>"
proof (intro allI)
  fix P Z
  have "int 20000 = MAX_STATE_BYTES" by (simp add: MAX_STATE_BYTES_def)
  moreover have "(20000::nat) < 20001" by simp
  ultimately show "\<exists>b. length b = 20001
     \<and> satisfies_schema P (defaultAppState \<lparr> bodyJson := b \<rparr>)
     \<and> decodeStateFromSearchParam P Z
          (Some (encodeStateToSearchParam P Z (defaultAppState \<lparr> bodyJson := b \<rparr>)))
         \<noteq> defaultAppState \<lparr> bodyJson := b \<rparr>"
    by (rule round_trip_fails_at_length)
qed


section \<open>The target URL of a request whose token names an inherited property\<close>

lemma replace_tokens_token:
  assumes "name \<noteq> []" "CHR ''}'' \<notin> set name"
  shows "replace_tokens f (CHR ''{'' # name @ CHR ''}'' # rest) = f name @ replace_tokens f rest"
proof -
  from assms(2) have "takeWhile (\<lambda>x. x \<noteq> CHR ''}'') (name @ CHR ''}'' # rest) = name"
    by (induction name) auto
  moreover from assms(2)
  have "dropWhile (\<lambda>x. x \<noteq> CHR ''}'') (name @ CHR ''}'' # rest) = CHR ''}'' # rest"
    by (induction name) auto
  ultimately show ?thesis using assms(1) by simp
qed

lemma replace_tokens_plain:
  "CHR ''{'' \<notin> set s \<Longrightarrow> replace_tokens f (s @ t) = s @ replace_tokens f t"
  by (induction s) auto

lemma path_param_own:
  "map_of (req_pathParams input) name = Some v \<Longrightarrow> path_param P input name = v"
  by (simp add: path_param_def)

lemma path_param_absent:
  "map_of (req_pathParams input) name = None \<Longrightarrow> inheritedProperty P name = None
   \<Longrightarrow> path_param P input name = []"
  by (simp add: path_param_def)

lemma path_param_inherited:
  "map_of (req_pathParams input) name = None \<Longrightarrow> inheritedProperty P name = Some s
   \<Longrightarrow> path_param P input name = s"
  by (simp add: path_param_def)

lemma worked_example_target:
  "map_option href (buildTargetUrl sample_platform sample_request) = Some sample_target"
  by code_simp

text \<open>C6, where the code departs from it: for the path template \<^verbatim>\<open>/users/{constructor}\<close> and
  no path parameters, \<^verbatim>\<open>buildTargetUrl\<close> does not substitute the empty string for the absent
  parameter.  \<^verbatim>\<open>input.pathParams?.[name]\<close> finds the function \<^verbatim>\<open>Object\<close> that every plain object
  inherits, \<^verbatim>\<open>?? ''\<close> lets it through, and \<^verbatim>\<open>encodeURIComponent\<close> encodes its text into the
  path.\<close>

theorem absent_path_param_reads_prototype:
  "map_of (req_pathParams sample_prototype_request) ''constructor'' = None
   \<and> pathWithParams sample_platform sample_prototype_request
       = ''/users/function%20Object()%20%7B%20%5Bnative%20code%5D%20%7D''
   \<and> map_option href (buildTargetUrl sample_platform sample_prototype_request)
       = Some ''https://api.example.com/users/function%20Object()%20%7B%20%5Bnative%20code%5D%20%7D''
   \<and> map_option href (buildTargetUrl sample_platform sample_prototype_request)
       \<noteq> Some ''https://api.example.com/users/''"
  by code_simp

end
